(* ===== verification/Go_Prelude.thy ===== *)
theory Go_Prelude
  imports Main "HOL-Library.Sublist"
begin

section \<open>Go strings and numbers, and the collections of the development\<close>

text \<open>
  A Go string is a sequence of bytes; it is modelled by HOL's \<open>string\<close>, a list of the 256
  characters.  This theory models the functions of Go's standard library that the program
  calls on strings (\<open>strings.TrimSpace\<close>, \<open>Cut\<close>, \<open>Index\<close>, \<open>LastIndex\<close>, \<open>HasPrefix\<close>,
  \<open>ReplaceAll\<close>, \<open>ToLower\<close>, \<open>strconv.Atoi\<close>, the verb \<open>%d\<close> of \<open>fmt\<close>, \<open>cmp.Or\<close>) and
  proves the general facts about them that the components share.  It also declares the
  collections of simplification rules that the component theories fill.
\<close>

named_theorems option_defs \<open>the option constructors of options.go, unfolded\<close>
named_theorems effect_simps \<open>one external call: its result and its effect on the world\<close>

subsection \<open>Zero values\<close>

text \<open>\<open>cmp.Or(a, b)\<close> on strings: the first argument that is not the zero value.\<close>

definition cmp_Or :: "string \<Rightarrow> string \<Rightarrow> string" where
  "cmp_Or a b = (if a \<noteq> [] then a else b)"

lemma cmp_Or_simps [simp]:
  "cmp_Or [] b = b"
  "a \<noteq> [] \<Longrightarrow> cmp_Or a b = a"
  by (simp_all add: cmp_Or_def)

lemma cmp_Or_eq_Nil [simp]: "cmp_Or a b = [] \<longleftrightarrow> a = [] \<and> b = []"
  by (simp add: cmp_Or_def)

subsection \<open>Prefixes\<close>

text \<open>\<open>strip p s\<close> is the rest of \<open>s\<close> after the prefix \<open>p\<close>, if \<open>s\<close> starts with it.\<close>

fun strip :: "'a list \<Rightarrow> 'a list \<Rightarrow> 'a list option" where
  "strip [] s = Some s"
| "strip (c # p) [] = None"
| "strip (c # p) (d # s) = (if c = d then strip p s else None)"

lemma strip_Some_iff: "strip p s = Some r \<longleftrightarrow> s = p @ r"
  by (induction p s rule: strip.induct) auto

lemma strip_None_iff: "strip p s = None \<longleftrightarrow> \<not> prefix p s"
  by (induction p s rule: strip.induct) auto

lemma strip_append [simp]: "strip p (p @ r) = Some r"
  by (simp add: strip_Some_iff)

definition hasPrefix :: "string \<Rightarrow> string \<Rightarrow> bool" where
  "hasPrefix s p = (strip p s \<noteq> None)"

lemma hasPrefix_iff: "hasPrefix s p \<longleftrightarrow> prefix p s"
  by (auto simp: hasPrefix_def strip_None_iff)

subsection \<open>strings.TrimSpace\<close>

text \<open>
  The UTF-8 encodings of the 25 code points for which \<open>unicode.IsSpace\<close> holds.  No other
  byte sequence decodes to a space, and no encoding is a proper prefix or suffix of another,
  so trimming runes and trimming these byte sequences are the same.
\<close>

definition spaces :: "string list" where
  "spaces =
    [[CHR 0x09], [CHR 0x0A], [CHR 0x0B], [CHR 0x0C], [CHR 0x0D], [CHR 0x20],
     [CHR 0xC2, CHR 0x85], [CHR 0xC2, CHR 0xA0],
     [CHR 0xE1, CHR 0x9A, CHR 0x80],
     [CHR 0xE2, CHR 0x80, CHR 0x80], [CHR 0xE2, CHR 0x80, CHR 0x81],
     [CHR 0xE2, CHR 0x80, CHR 0x82], [CHR 0xE2, CHR 0x80, CHR 0x83],
     [CHR 0xE2, CHR 0x80, CHR 0x84], [CHR 0xE2, CHR 0x80, CHR 0x85],
     [CHR 0xE2, CHR 0x80, CHR 0x86], [CHR 0xE2, CHR 0x80, CHR 0x87],
     [CHR 0xE2, CHR 0x80, CHR 0x88], [CHR 0xE2, CHR 0x80, CHR 0x89],
     [CHR 0xE2, CHR 0x80, CHR 0x8A], [CHR 0xE2, CHR 0x80, CHR 0xA8],
     [CHR 0xE2, CHR 0x80, CHR 0xA9], [CHR 0xE2, CHR 0x80, CHR 0xAF],
     [CHR 0xE2, CHR 0x81, CHR 0x9F], [CHR 0xE3, CHR 0x80, CHR 0x80]]"

text \<open>Strip the first of the listed words that \<open>s\<close> starts with.\<close>

fun strip_any :: "string list \<Rightarrow> string \<Rightarrow> string option" where
  "strip_any [] s = None"
| "strip_any (w # ws) s = (case strip w s of Some r \<Rightarrow> Some r | None \<Rightarrow> strip_any ws s)"

lemma strip_any_Some: "strip_any ws s = Some r \<Longrightarrow> \<exists>w \<in> set ws. s = w @ r"
  by (induction ws) (auto simp: strip_Some_iff split: option.splits)

lemma strip_any_None: "strip_any ws s = None \<longleftrightarrow> (\<forall>w \<in> set ws. \<not> prefix w s)"
  by (induction ws) (auto simp: strip_None_iff strip_Some_iff split: option.splits)

text \<open>Repeat until no word is left at the front; the words must not be empty.\<close>

function trim_words :: "string list \<Rightarrow> string \<Rightarrow> string" where
  "trim_words ws s =
     (case strip_any ws s of
        Some r \<Rightarrow> (if length r < length s then trim_words ws r else s)
      | None \<Rightarrow> s)"
  by pat_completeness auto
termination
  by (relation "measure (\<lambda>(ws, s). length s)") auto

declare trim_words.simps [simp del]

definition trimLeft :: "string \<Rightarrow> string" where
  "trimLeft s = trim_words spaces s"

definition trimRight :: "string \<Rightarrow> string" where
  "trimRight s = rev (trim_words (map rev spaces) (rev s))"

definition trimSpace :: "string \<Rightarrow> string" where
  "trimSpace s = trimRight (trimLeft s)"

lemma trim_words_stop: "\<forall>w \<in> set ws. \<not> prefix w s \<Longrightarrow> trim_words ws s = s"
  using strip_any_None [of ws s] by (subst trim_words.simps) simp

lemma trim_words_suffix: "suffix (trim_words ws s) s"
proof (induction ws s rule: trim_words.induct)
  case (1 ws s)
  show ?case
  proof (cases "strip_any ws s")
    case None
    then show ?thesis by (subst trim_words.simps) simp
  next
    case (Some r)
    then have "suffix r s"
      using strip_any_Some [OF Some] by (auto simp: suffix_def)
    with Some 1 show ?thesis
      by (subst trim_words.simps) (auto intro: suffix_order.order_trans)
  qed
qed

lemma trim_words_done:
  assumes "[] \<notin> set ws"
  shows "\<forall>w \<in> set ws. \<not> prefix w (trim_words ws s)"
  using assms
proof (induction ws s rule: trim_words.induct)
  case (1 ws s)
  show ?case
  proof (cases "strip_any ws s")
    case None
    with strip_any_None [of ws s] show ?thesis by (subst trim_words.simps) simp
  next
    case (Some r)
    then obtain w where w: "w \<in> set ws" "s = w @ r"
      using strip_any_Some by blast
    with "1.prems" have "length r < length s" by (cases w) auto
    with Some 1 show ?thesis by (subst trim_words.simps) simp
  qed
qed

lemma spaces_nonempty: "[] \<notin> set spaces" "[] \<notin> set (map rev spaces)"
  by (simp_all add: spaces_def)

lemma trimLeft_done: "w \<in> set spaces \<Longrightarrow> \<not> prefix w (trimLeft s)"
  using trim_words_done [OF spaces_nonempty(1), of s] by (simp add: trimLeft_def)

lemma trimRight_done: "w \<in> set spaces \<Longrightarrow> \<not> suffix w (trimRight s)"
  using trim_words_done [OF spaces_nonempty(2), of "rev s"]
  by (simp add: trimRight_def suffix_to_prefix)

lemma trimRight_prefix: "prefix (trimRight s) s"
  using trim_words_suffix [of "map rev spaces" "rev s"]
  by (simp add: trimRight_def suffix_to_prefix)

lemma trimLeft_id: "\<forall>w \<in> set spaces. \<not> prefix w s \<Longrightarrow> trimLeft s = s"
  by (simp add: trimLeft_def trim_words_stop)

lemma trimRight_id: "\<forall>w \<in> set spaces. \<not> suffix w s \<Longrightarrow> trimRight s = s"
  by (simp add: trimRight_def trim_words_stop suffix_to_prefix)

text \<open>A trimmed string neither starts nor ends with a space, so trimming it again is the identity.\<close>

lemma trimSpace_done:
  assumes "w \<in> set spaces"
  shows "\<not> prefix w (trimSpace s)" "\<not> suffix w (trimSpace s)"
proof -
  have "prefix (trimSpace s) (trimLeft s)"
    by (simp add: trimSpace_def trimRight_prefix)
  with trimLeft_done [OF assms, of s] show "\<not> prefix w (trimSpace s)"
    using prefix_order.order_trans by blast
  show "\<not> suffix w (trimSpace s)"
    by (simp add: trimSpace_def trimRight_done assms)
qed

lemma trimSpace_idem [simp]: "trimSpace (trimSpace s) = trimSpace s"
  by (metis trimLeft_id trimRight_id trimSpace_def trimSpace_done)

lemma trimSpace_Nil [simp]: "trimSpace [] = []"
  by (simp add: trimSpace_def trimLeft_def trimRight_def trim_words_stop spaces_def)

text \<open>
  The first bytes and the last bytes of the encodings; a string whose first and last bytes
  are of neither kind is left alone.
\<close>

definition plain_byte :: "char \<Rightarrow> bool" where
  "plain_byte c = (c \<notin> set (map hd spaces) \<and> c \<notin> set (map last spaces))"

lemma trimSpace_plain:
  assumes "s \<noteq> []" "plain_byte (hd s)" "plain_byte (last s)"
  shows "trimSpace s = s"
proof -
  have "\<not> prefix w s" if "w \<in> set spaces" for w
  proof
    assume "prefix w s"
    moreover have "w \<noteq> []" using that spaces_nonempty by auto
    ultimately have "hd w = hd s" by (auto simp: prefix_def)
    with assms(2) that show False by (metis imageI plain_byte_def set_map)
  qed
  moreover have "\<not> suffix w s" if "w \<in> set spaces" for w
  proof
    assume "suffix w s"
    moreover have "w \<noteq> []" using that spaces_nonempty by auto
    ultimately have "last w = last s" by (auto simp: suffix_def)
    with assms(3) that show False by (metis imageI plain_byte_def set_map)
  qed
  ultimately show ?thesis
    by (simp add: trimSpace_def trimLeft_id trimRight_id)
qed

subsection \<open>Searching and cutting\<close>

text \<open>\<open>strings.Index\<close>: the byte offset of the first occurrence, -1 when there is none.\<close>

fun index_from :: "int \<Rightarrow> string \<Rightarrow> string \<Rightarrow> int" where
  "index_from i [] sub = (if sub = [] then i else -1)"
| "index_from i (c # s) sub = (if hasPrefix (c # s) sub then i else index_from (i + 1) s sub)"

definition string_Index :: "string \<Rightarrow> string \<Rightarrow> int" where
  "string_Index s sub = index_from 0 s sub"

text \<open>\<open>strings.LastIndex\<close> for a one-byte substring.\<close>

definition lastIndex :: "string \<Rightarrow> char \<Rightarrow> int" where
  "lastIndex s c =
     (let n = length (takeWhile (\<lambda>x. x \<noteq> c) (rev s))
      in if n = length s then -1 else int (length s - 1 - n))"

text \<open>\<open>strings.Cut\<close> for a one-byte separator: front, after, found.\<close>

definition cut :: "string \<Rightarrow> char \<Rightarrow> string \<times> string \<times> bool" where
  "cut s c =
     (let front = takeWhile (\<lambda>x. x \<noteq> c) s
      in if length front = length s then (s, [], False)
         else (front, drop (length front + 1) s, True))"

text \<open>\<open>strings.ReplaceAll\<close> for a one-byte \<open>old\<close>.\<close>

definition replaceAll :: "string \<Rightarrow> char \<Rightarrow> string \<Rightarrow> string" where
  "replaceAll s c new = concat (map (\<lambda>x. if x = c then new else [x]) s)"

lemma replaceAll_id: "c \<notin> set s \<Longrightarrow> replaceAll s c new = s"
  by (induction s) (auto simp: replaceAll_def)

lemma index_from_ge: "index_from i s sub \<noteq> -1 \<Longrightarrow> i \<le> index_from i s sub"
proof (induction s arbitrary: i)
  case Nil
  then show ?case by (simp split: if_splits)
next
  case (Cons c s)
  show ?case
  proof (cases "hasPrefix (c # s) sub")
    case True
    then show ?thesis by simp
  next
    case False
    with Cons.prems have "i + 1 \<le> index_from (i + 1) s sub"
      by (intro Cons.IH) simp
    with False show ?thesis by simp
  qed
qed

text \<open>
  A word whose first character does not occur in \<open>p\<close> is found right after \<open>p\<close>.
\<close>

lemma index_from_append:
  assumes "d \<notin> set p"
  shows "index_from i (p @ (d # ds) @ r) (d # ds) = i + int (length p)"
  using assms
proof (induction p arbitrary: i)
  case Nil
  show ?case by (simp add: hasPrefix_def)
next
  case (Cons c p)
  then have "index_from (i + 1) (p @ (d # ds) @ r) (d # ds) = i + 1 + int (length p)"
    by simp
  with Cons.prems show ?case by (simp add: hasPrefix_def)
qed

lemma takeWhile_upto: "c \<notin> set b \<Longrightarrow> takeWhile (\<lambda>x. x \<noteq> c) (b @ c # a) = b"
  by (induction b) auto

lemma takeWhile_all: "c \<notin> set s \<Longrightarrow> takeWhile (\<lambda>x. x \<noteq> c) s = s"
  by (induction s) auto

lemma cut_found: "c \<notin> set b \<Longrightarrow> cut (b @ c # a) c = (b, a, True)"
  by (simp add: cut_def takeWhile_upto)

lemma cut_absent: "c \<notin> set s \<Longrightarrow> cut s c = (s, [], False)"
  by (simp add: cut_def takeWhile_all)

lemma cut_before: "c \<notin> set b \<Longrightarrow> rest = [] \<or> hd rest = c \<Longrightarrow> fst (cut (b @ rest) c) = b"
  by (cases rest) (simp_all add: cut_absent cut_found)

lemma lastIndex_absent: "c \<notin> set s \<Longrightarrow> lastIndex s c = -1"
  by (simp add: lastIndex_def takeWhile_all)

lemma lastIndex_append: "c \<notin> set b \<Longrightarrow> lastIndex (a @ c # b) c = int (length a)"
  by (simp add: lastIndex_def takeWhile_upto)

subsection \<open>strings.ToLower\<close>

text \<open>
  ASCII letters, and the two code points outside ASCII whose lower case is an ASCII letter
  (U+212A, the Kelvin sign, and U+0130).  Every other sequence outside ASCII is kept; Go may
  map it to another one outside ASCII, so a comparison with an ASCII word has the same result.
\<close>

definition lower_ascii :: "char \<Rightarrow> char" where
  "lower_ascii c = (if (65::nat) \<le> of_char c \<and> of_char c \<le> (90::nat) then char_of (of_char c + 32 :: nat) else c)"

fun toLower :: "string \<Rightarrow> string" where
  "toLower [] = []"
| "toLower (c # s) =
     (case strip [CHR 0xE2, CHR 0x84, CHR 0xAA] (c # s) of
        Some r \<Rightarrow> CHR ''k'' # toLower (drop 2 s)
      | None \<Rightarrow>
          (case strip [CHR 0xC4, CHR 0xB0] (c # s) of
             Some r \<Rightarrow> CHR ''i'' # toLower (drop 1 s)
           | None \<Rightarrow> lower_ascii c # toLower s))"

subsection \<open>Decimal numbers\<close>

definition digit :: "nat \<Rightarrow> char" where
  "digit d = char_of (48 + d)"

definition is_digit :: "char \<Rightarrow> bool" where
  "is_digit c = ((48::nat) \<le> of_char c \<and> of_char c \<le> (57::nat))"

definition digit_value :: "char \<Rightarrow> nat" where
  "digit_value c = of_char c - 48"

text \<open>The verb \<open>%d\<close>.\<close>

fun show_nat :: "nat \<Rightarrow> string" where
  "show_nat n = (if n < 10 then [digit n] else show_nat (n div 10) @ [digit (n mod 10)])"

declare show_nat.simps [simp del]

definition show_int :: "int \<Rightarrow> string" where
  "show_int i = (if i < 0 then CHR ''-'' # show_nat (nat (- i)) else show_nat (nat i))"

text \<open>\<open>strconv.Atoi\<close>: an optional sign and at least one digit, within the range of a 64-bit \<open>int\<close>.\<close>

definition maxInt :: int where "maxInt = 9223372036854775807"

definition minInt :: int where "minInt = -9223372036854775808"

fun read_digits :: "nat \<Rightarrow> string \<Rightarrow> nat option" where
  "read_digits n [] = Some n"
| "read_digits n (c # s) = (if is_digit c then read_digits (10 * n + digit_value c) s else None)"

definition in_int_range :: "int \<Rightarrow> int option" where
  "in_int_range i = (if minInt \<le> i \<and> i \<le> maxInt then Some i else None)"

definition atoi :: "string \<Rightarrow> int option" where
  "atoi s =
     (let neg = (s \<noteq> [] \<and> hd s = CHR ''-'');
          ds = (if s \<noteq> [] \<and> (hd s = CHR ''-'' \<or> hd s = CHR ''+'') then tl s else s)
      in if ds = [] then None
         else case read_digits 0 ds of
                None \<Rightarrow> None
              | Some n \<Rightarrow> in_int_range (if neg then - int n else int n))"

lemma of_char_digit: "d < 10 \<Longrightarrow> of_char (digit d) = 48 + d"
  by (simp add: digit_def)

lemma digit_facts [simp]:
  assumes "d < 10"
  shows "is_digit (digit d)" "digit_value (digit d) = d"
  using of_char_digit [OF assms] assms by (simp_all add: is_digit_def digit_value_def)

lemma show_nat_nonempty [simp]: "show_nat n \<noteq> []"
  by (subst show_nat.simps) simp

lemma show_nat_digits: "c \<in> set (show_nat n) \<Longrightarrow> is_digit c"
proof (induction n rule: show_nat.induct)
  case (1 n)
  then show ?case
    by (cases "n < 10") (auto simp: show_nat.simps [of n])
qed

lemma read_digits_append:
  "read_digits k (s @ [c]) =
     (case read_digits k s of
        None \<Rightarrow> None
      | Some n \<Rightarrow> if is_digit c then Some (10 * n + digit_value c) else None)"
  by (induction s arbitrary: k) auto

lemma read_show_nat: "read_digits 0 (show_nat n) = Some n"
proof (induction n rule: show_nat.induct)
  case (1 n)
  show ?case
  proof (cases "n < 10")
    case True
    then show ?thesis by (simp add: show_nat.simps [of n])
  next
    case False
    with "1.IH" show ?thesis
      by (simp add: show_nat.simps [of n] read_digits_append)
  qed
qed

lemma hd_show_nat: "is_digit (hd (show_nat n))"
  using show_nat_digits [of "hd (show_nat n)" n] by simp

lemma last_show_nat: "is_digit (last (show_nat n))"
  using show_nat_digits [of "last (show_nat n)" n] by simp

lemma digit_not_sign: "is_digit c \<Longrightarrow> c \<noteq> CHR ''-'' \<and> c \<noteq> CHR ''+''"
  by (auto simp: is_digit_def)

lemma atoi_show_nat:
  assumes "int n \<le> maxInt"
  shows "atoi (show_nat n) = Some (int n)"
proof -
  have "minInt \<le> int n" by (simp add: minInt_def)
  with assms digit_not_sign [OF hd_show_nat, of n] show ?thesis
    by (simp add: atoi_def read_show_nat in_int_range_def)
qed

lemma digit_plain: "is_digit c \<Longrightarrow> plain_byte c"
  by (auto simp: is_digit_def plain_byte_def spaces_def)

lemma trimSpace_show_nat_newline: "trimSpace (show_nat n @ [CHR 0x0A]) = show_nat n"
proof -
  let ?s = "show_nat n"
  have nl: "[CHR 0x0A] \<in> set spaces" by (simp add: spaces_def)
  have "\<not> prefix w (?s @ [CHR 0x0A])" if w: "w \<in> set spaces" for w
  proof
    assume "prefix w (?s @ [CHR 0x0A])"
    moreover have "w \<noteq> []" using w spaces_nonempty by auto
    ultimately have "hd w = hd ?s" by (cases w; cases ?s) auto
    with w digit_plain [OF hd_show_nat, of n] show False
      by (metis imageI plain_byte_def set_map)
  qed
  then have left: "trimLeft (?s @ [CHR 0x0A]) = ?s @ [CHR 0x0A]"
    by (simp add: trimLeft_id)
  have "trimRight (?s @ [CHR 0x0A]) = rev (trim_words (map rev spaces) (CHR 0x0A # rev ?s))"
    by (simp add: trimRight_def)
  also have "\<dots> = rev (trim_words (map rev spaces) (rev ?s))"
    by (subst trim_words.simps) (simp add: spaces_def)
  also have "\<dots> = trimRight ?s"
    by (simp add: trimRight_def)
  also have "\<dots> = trimRight (trimLeft ?s)"
  proof -
    have "\<not> prefix w ?s" if "w \<in> set spaces" for w
      using \<open>w \<in> set spaces\<close> \<open>\<And>w. w \<in> set spaces \<Longrightarrow> \<not> prefix w (?s @ [CHR 0x0A])\<close>
      by (meson prefix_prefix)
    then show ?thesis by (simp add: trimLeft_id)
  qed
  also have "\<dots> = ?s"
    using trimSpace_plain [OF show_nat_nonempty digit_plain [OF hd_show_nat] digit_plain [OF last_show_nat], of n]
    by (simp add: trimSpace_def)
  finally show ?thesis by (simp add: trimSpace_def left)
qed

end
