(* ===== verification/Paths.thy ===== *)
theory Paths
  imports Go_Prelude
begin

section \<open>Resource paths (util.go, and the path function of admin_ops.go)\<close>

text \<open>
  The three path builders of util.go and \<open>instancePathFromDatabasePath\<close>, which
  \<open>dropDatabaseWithRetry\<close> uses to find the lock of a database's instance.
\<close>

definition projectPath :: "string \<Rightarrow> string" where
  "projectPath projectID = ''projects/'' @ projectID"

definition instancePath :: "string \<Rightarrow> string \<Rightarrow> string" where
  "instancePath projectID instanceID = ''projects/'' @ projectID @ ''/instances/'' @ instanceID"

definition databasePath :: "string \<Rightarrow> string \<Rightarrow> string \<Rightarrow> string" where
  "databasePath projectID instanceID databaseID =
     ''projects/'' @ projectID @ ''/instances/'' @ instanceID @ ''/databases/'' @ databaseID"

definition instancePathFromDatabasePath :: "string \<Rightarrow> string" where
  "instancePathFromDatabasePath dbPath =
     (let i = string_Index dbPath ''/databases/''
      in if 0 \<le> i then take (nat i) dbPath else dbPath)"

lemma instancePath_nonempty [simp]: "instancePath p i \<noteq> []"
  by (simp add: instancePath_def)

lemma databasePath_split: "databasePath p i d = instancePath p i @ ''/databases/'' @ d"
  by (simp add: databasePath_def instancePath_def)

lemma hasPrefix_Cons: "hasPrefix (c # s) (d # p) = (c = d \<and> hasPrefix s p)"
  by (simp add: hasPrefix_def)

lemma index_from_skip: "\<not> hasPrefix (c # s) sub \<Longrightarrow> index_from i (c # s) sub = index_from (i + 1) s sub"
  by simp

lemma index_from_skip_word:
  "d \<notin> set p \<Longrightarrow> index_from i (p @ s) (d # ds) = index_from (i + int (length p)) s (d # ds)"
proof (induction p arbitrary: i)
  case (Cons c p)
  have "index_from i ((c # p) @ s) (d # ds) = index_from (i + 1) (p @ s) (d # ds)"
    using Cons.prems by (auto simp: hasPrefix_Cons)
  also have "\<dots> = index_from (i + 1 + int (length p)) s (d # ds)"
    using Cons by simp
  finally show ?case by (simp add: add.assoc)
qed simp

text \<open>
  A segment of a path is compared as a whole: a segment without a slash, followed by a slash,
  starts with \<open>word/\<close> only when it is that word.
\<close>

lemma hasPrefix_segment:
  assumes "CHR ''/'' \<notin> set x" "CHR ''/'' \<notin> set y"
  shows "hasPrefix (x @ CHR ''/'' # r) (y @ [CHR ''/'']) \<longleftrightarrow> x = y"
  using assms
proof (induction x arbitrary: y)
  case Nil
  then show ?case by (cases y) (auto simp: hasPrefix_def)
next
  case (Cons c x)
  then show ?case by (cases y) (auto simp: hasPrefix_Cons hasPrefix_def)
qed

text \<open>
  With a project and an instance ID that contain no slash and are not the word \<open>databases\<close>,
  the instance path is recovered from the database path.
\<close>

lemma instancePathFromDatabasePath_databasePath:
  assumes "CHR ''/'' \<notin> set p" "CHR ''/'' \<notin> set i" "p \<noteq> ''databases''" "i \<noteq> ''databases''"
  shows "instancePathFromDatabasePath (databasePath p i d) = instancePath p i"
proof -
  let ?m = "CHR ''/'' # ''databases/''"
  let ?ind = "\<lambda>k s. index_from k s ?m"
  have no_p: "\<not> hasPrefix (CHR ''/'' # p @ CHR ''/'' # r) ?m" for r
    using hasPrefix_segment [OF assms(1), of "''databases''" r] assms(3)
    by (simp add: hasPrefix_Cons)
  have no_i: "\<not> hasPrefix (CHR ''/'' # i @ CHR ''/'' # r) ?m" for r
    using hasPrefix_segment [OF assms(2), of "''databases''" r] assms(4)
    by (simp add: hasPrefix_Cons)
  let ?r3 = "?m @ d"
  let ?r2 = "i @ ?r3"
  let ?r1 = "p @ ''/instances/'' @ ?r2"
  have "?ind 0 (databasePath p i d) = ?ind 8 (CHR ''/'' # ?r1)"
    using index_from_skip_word [of "CHR ''/''" "''projects''" 0] by (simp add: databasePath_def)
  also have "\<dots> = ?ind 9 ?r1"
    using no_p [of "''instances/'' @ ?r2"] by (subst index_from_skip) simp_all
  also have "\<dots> = ?ind (9 + int (length p)) (''/instances/'' @ ?r2)"
    by (rule index_from_skip_word [OF assms(1)])
  also have "\<dots> = ?ind (10 + int (length p)) (''instances'' @ CHR ''/'' # ?r2)"
    by (simp add: hasPrefix_Cons add.commute)
  also have "\<dots> = ?ind (19 + int (length p)) (CHR ''/'' # ?r2)"
    by (subst index_from_skip_word) (simp_all add: algebra_simps)
  also have "\<dots> = ?ind (20 + int (length p)) ?r2"
    using no_i [of "''databases/'' @ d"] by (subst index_from_skip) (simp_all add: algebra_simps)
  also have "\<dots> = 20 + int (length p) + int (length i)"
    by (rule index_from_append [OF assms(2)])
  finally have "string_Index (databasePath p i d) ?m = int (length (instancePath p i))"
    by (simp add: string_Index_def instancePath_def)
  then show ?thesis
    by (simp add: instancePathFromDatabasePath_def databasePath_split)
qed

text \<open>A database path never yields the empty path, for which no lock would be taken.\<close>

lemma instancePathFromDatabasePath_nonempty [simp]: "instancePathFromDatabasePath (databasePath p i d) \<noteq> []"
proof -
  have "string_Index (databasePath p i d) ''/databases/'' \<noteq> 0"
    using index_from_ge [of 1 "tl (databasePath p i d)" "''/databases/''"]
    by (fastforce simp: string_Index_def databasePath_def hasPrefix_Cons)
  then show ?thesis
    by (simp add: instancePathFromDatabasePath_def Let_def databasePath_def)
qed

text \<open>
  The word \<open>databases\<close> as a project or instance ID: the path is cut at the first place where the
  marker stands, which is a segment or more too early.
\<close>

lemma index_from_le:
  "i \<le> index_from i (pre @ sub @ r) sub \<and> index_from i (pre @ sub @ r) sub \<le> i + int (length pre)"
proof (induction pre arbitrary: i)
  case Nil
  have "prefix sub (sub @ r)" by simp
  then show ?case by (cases "sub @ r") (auto simp: hasPrefix_iff)
next
  case (Cons c pre)
  from Cons.IH [of "i + 1"] show ?case by auto
qed

lemma instancePathFromDatabasePath_cut:
  assumes "path = pre @ ''/databases/'' @ r"
  shows "length (instancePathFromDatabasePath path) \<le> length pre"
proof -
  let ?i = "string_Index path ''/databases/''"
  have "0 \<le> ?i" "?i \<le> int (length pre)"
    using index_from_le [of 0 pre "''/databases/''" r] by (simp_all only: string_Index_def assms add_0)
  then have "instancePathFromDatabasePath path = take (nat ?i) path" "nat ?i \<le> length pre"
    by (simp_all only: instancePathFromDatabasePath_def Let_def if_True nat_le_iff)
  then show ?thesis by (simp only: length_take)
qed

lemma instancePathFromDatabasePath_iff:
  assumes "CHR ''/'' \<notin> set p" "CHR ''/'' \<notin> set i"
  shows "instancePathFromDatabasePath (databasePath p i d) = instancePath p i \<longleftrightarrow> p \<noteq> ''databases'' \<and> i \<noteq> ''databases''"
proof -
  have "instancePathFromDatabasePath (databasePath p i d) \<noteq> instancePath p i" if "p = ''databases''"
    using instancePathFromDatabasePath_cut [of "databasePath p i d" "''projects''" "''instances/'' @ i @ ''/databases/'' @ d"] that
    by (auto simp: databasePath_def instancePath_def)
  moreover have "instancePathFromDatabasePath (databasePath p i d) \<noteq> instancePath p i" if "i = ''databases''"
    using instancePathFromDatabasePath_cut [of "databasePath p i d" "''projects/'' @ p @ ''/instances''" "''databases/'' @ d"] that
    by (auto simp: databasePath_def instancePath_def)
  ultimately show ?thesis
    using instancePathFromDatabasePath_databasePath [OF assms] by blast
qed

text \<open>The project and instance IDs for which the code finds the instance of a database.\<close>

definition plain_instance :: "string \<Rightarrow> string \<Rightarrow> bool" where
  "plain_instance p i \<longleftrightarrow> CHR ''/'' \<notin> set p \<and> CHR ''/'' \<notin> set i \<and> p \<noteq> ''databases'' \<and> i \<noteq> ''databases''"

lemma under_instance:
  assumes "hasPrefix db (instancePath p i @ ''/databases/'')" and "plain_instance p i"
  shows "instancePathFromDatabasePath db = instancePath p i"
proof -
  obtain d where "db = databasePath p i d"
    using assms(1) by (auto simp: hasPrefix_iff prefix_def databasePath_split)
  with instancePathFromDatabasePath_databasePath assms(2) show ?thesis by (simp add: plain_instance_def)
qed

end
