(* ===== verification/Go_Error.thy ===== *)
theory Go_Error
  imports Go_Prelude
begin

section \<open>Go errors as values\<close>

text \<open>
  The type \<open>error\<close> of Go as a datatype, one constructor per way the program obtains an
  error: \<open>errors.New\<close>, \<open>fmt.Errorf\<close> without and with the verb \<open>%w\<close>, \<open>errors.Join\<close>, the
  errors of the \<open>context\<close> and \<open>os\<close> packages that the program distinguishes, and any other
  error a call returned.  A message is kept as its format string and its arguments, not
  rendered.  The nil error is \<open>None\<close> of \<open>error option\<close>; a function that returns a value or an
  error returns the sum \<open>'a result\<close>.
\<close>

datatype farg =
    AStr string
  | AInt int
  | AStrs "string list"
  | ASprintf string "farg list"

datatype error =
    New string
  | Errorf string "farg list"
  | Wrapf string "farg list" error
  | Join "error list"
  | Canceled
  | DeadlineExceeded
  | NotExist string
  | ProcessDone
  | External nat

type_synonym 'a result = "error + 'a"

text \<open>\<open>fmt.Errorf(fmt, args..., err)\<close> with \<open>%w\<close> for \<open>err\<close>, which wraps nothing when it is nil.\<close>

definition wrapErr :: "string \<Rightarrow> farg list \<Rightarrow> error option \<Rightarrow> error" where
  "wrapErr fmt args e = (case e of Some e' \<Rightarrow> Wrapf fmt args e' | None \<Rightarrow> Errorf fmt args)"

lemma wrapErr_Some [simp]: "wrapErr fmt args (Some e) = Wrapf fmt args e"
  by (simp add: wrapErr_def)

text \<open>\<open>errors.Join\<close> drops the nil errors and is nil when none is left.\<close>

definition errors_Join :: "error option list \<Rightarrow> error option" where
  "errors_Join errs =
     (let es = map the (filter (\<lambda>e. e \<noteq> None) errs) in if es = [] then None else Some (Join es))"

lemma errors_Join_None_iff [simp]: "errors_Join errs = None \<longleftrightarrow> set errs \<subseteq> {None}"
  by (auto simp: errors_Join_def Let_def filter_empty_conv)

lemma errors_Join_Nil [simp]: "errors_Join [] = None"
  by simp

text \<open>\<open>errors.Is\<close>: the error itself or one it wraps.\<close>

fun error_Is :: "error \<Rightarrow> error \<Rightarrow> bool" where
  "error_Is e t = (e = t \<or>
     (case e of
        Wrapf fmt args e' \<Rightarrow> error_Is e' t
      | Join es \<Rightarrow> list_ex (\<lambda>e'. error_Is e' t) es
      | _ \<Rightarrow> False))"

declare error_Is.simps [simp del]

lemma error_Is_refl [simp]: "error_Is e e"
  by (subst error_Is.simps) simp

lemma error_Is_Wrapf: "error_Is e t \<Longrightarrow> error_Is (Wrapf fmt args e) t"
  by (subst error_Is.simps) simp

lemma error_Is_Join: "e \<in> set es \<Longrightarrow> error_Is e t \<Longrightarrow> error_Is (Join es) t"
  by (subst error_Is.simps) (auto simp: list_ex_iff)

lemma errors_Join_Is:
  "Some e \<in> set errs \<Longrightarrow> error_Is e t \<Longrightarrow> \<exists>j. errors_Join errs = Some j \<and> error_Is j t"
proof -
  assume e: "Some e \<in> set errs" and t: "error_Is e t"
  let ?es = "map the (filter (\<lambda>e. e \<noteq> None) errs)"
  from e have "Some e \<in> set (filter (\<lambda>e. e \<noteq> None) errs)" by simp
  then have "e \<in> set ?es" by (metis image_eqI list.set_map option.sel)
  moreover from this have "?es \<noteq> []" by (metis list.set_cases neq_Nil_conv)
  ultimately show ?thesis
    using t by (simp add: errors_Join_def error_Is_Join del: map_is_Nil_conv)
qed

text \<open>\<open>os.IsNotExist\<close>.\<close>

definition isNotExist :: "error \<Rightarrow> bool" where
  "isNotExist e = (case e of NotExist p \<Rightarrow> True | _ \<Rightarrow> False)"

lemma isNotExist_simps [simp]: "isNotExist (NotExist p)" "\<not> isNotExist (External n)"
  by (simp_all add: isNotExist_def)

subsection \<open>Results\<close>

text \<open>Apply the functions from left to right; the first error ends the loop.\<close>

fun fold_result :: "('a \<Rightarrow> 'a result) list \<Rightarrow> 'a \<Rightarrow> 'a result" where
  "fold_result [] x = Inr x"
| "fold_result (f # fs) x = (case f x of Inl e \<Rightarrow> Inl e | Inr y \<Rightarrow> fold_result fs y)"

lemma fold_result_append:
  "fold_result (fs @ gs) x =
     (case fold_result fs x of Inl e \<Rightarrow> Inl e | Inr y \<Rightarrow> fold_result gs y)"
  by (induction fs arbitrary: x) (auto split: sum.splits)

text \<open>A predicate that every function of the list keeps holds of the final value.\<close>

lemma fold_result_invariant:
  assumes "\<And>f x y. f \<in> set fs \<Longrightarrow> P x \<Longrightarrow> f x = Inr y \<Longrightarrow> P y"
    and "P x" and "fold_result fs x = Inr y"
  shows "P y"
  using assms
proof (induction fs arbitrary: x)
  case Nil
  then show ?case by simp
next
  case (Cons f fs)
  from Cons.prems(3) obtain z where z: "f x = Inr z" and rest: "fold_result fs z = Inr y"
    by (auto split: sum.splits)
  have "P z" by (rule Cons.prems(1) [of f x z]) (use Cons.prems(2) z in simp_all)
  show ?case
    by (rule Cons.IH [OF _ \<open>P z\<close> rest]) (use Cons.prems(1) in auto)
qed

end
