(* ===== verification/Resource_ID.thy ===== *)
theory Resource_ID
  imports Paths Go_Error
begin

section \<open>Resource IDs (options.go): validation and random generation\<close>

text \<open>
  \<open>validateResourceID\<close> with its helper predicates, and \<open>generateRandomID\<close>.  The nil error is
  \<open>None\<close>.  The random numbers are an input: a function that gives the numbers math/rand/v2
  draws, in order; \<open>rand.N(n)\<close> takes the next one below \<open>n\<close>.
\<close>

definition minProjectIDLength :: nat where "minProjectIDLength = 6"
definition minInstanceIDLength :: nat where "minInstanceIDLength = 2"
definition minDatabaseIDLength :: nat where "minDatabaseIDLength = 2"
definition maxProjectIDLength :: nat where "maxProjectIDLength = 30"
definition maxInstanceIDLength :: nat where "maxInstanceIDLength = 64"
definition maxDatabaseIDLength :: nat where "maxDatabaseIDLength = 30"

lemmas id_lengths =
  minProjectIDLength_def minInstanceIDLength_def minDatabaseIDLength_def
  maxProjectIDLength_def maxInstanceIDLength_def maxDatabaseIDLength_def

definition isLowercaseLetter :: "char \<Rightarrow> bool" where
  "isLowercaseLetter b = ((97::nat) \<le> of_char b \<and> of_char b \<le> (122::nat))"

definition isLowercaseLetterOrDigit :: "char \<Rightarrow> bool" where
  "isLowercaseLetterOrDigit b =
     (isLowercaseLetter b \<or> (48::nat) \<le> of_char b \<and> of_char b \<le> (57::nat))"

definition isResourceIDChar :: "char \<Rightarrow> bool \<Rightarrow> bool" where
  "isResourceIDChar b allowUnderscore =
     (isLowercaseLetterOrDigit b \<or> b = CHR ''-'' \<or> (allowUnderscore \<and> b = CHR ''_''))"

lemmas id_char_defs = isLowercaseLetter_def isLowercaseLetterOrDigit_def isResourceIDChar_def

definition resourceIDAllowedCharsDescription :: "string \<Rightarrow> string" where
  "resourceIDAllowedCharsDescription kind =
     (if kind = ''database'' then ''lowercase letters, digits, hyphens, and underscores''
      else ''lowercase letters, digits, and hyphens'')"

definition validateResourceID :: "string \<Rightarrow> string \<Rightarrow> nat \<Rightarrow> nat \<Rightarrow> error option" where
  "validateResourceID kind i minLen maxLen =
     (if i = [] then
        Some (Errorf ''%s ID is empty after option finalization; use a non-empty ID or the default'' [AStr kind])
      else if trimSpace i = [] then
        Some (Errorf ''%s ID %q is empty after trimming whitespace; use a non-empty ID or the default''
          [AStr kind, AStr i])
      else if length i < minLen then
        Some (Errorf ''%s ID %q is too short: got %d characters, min %d''
          [AStr kind, AStr i, AInt (int (length i)), AInt (int minLen)])
      else if length i > maxLen then
        Some (Errorf ''%s ID %q is too long: got %d characters, max %d''
          [AStr kind, AStr i, AInt (int (length i)), AInt (int maxLen)])
      else let allowedChars = resourceIDAllowedCharsDescription kind in
        if \<not> isLowercaseLetter (hd i) then
          Some (Errorf ''%s ID %q must start with a lowercase letter and use only %s''
            [AStr kind, AStr i, AStr allowedChars])
        else if \<not> isLowercaseLetterOrDigit (last i) then
          Some (Errorf ''%s ID %q must end with a lowercase letter or digit and use only %s''
            [AStr kind, AStr i, AStr allowedChars])
        else case find (\<lambda>k. \<not> isResourceIDChar (i ! k) (kind = ''database'')) [1..<length i - 1] of
            Some k \<Rightarrow>
              Some (Errorf ''%s ID %q contains invalid character %q at byte %d; use only %s so it is safe in resource paths and CREATE DATABASE statements''
                [AStr kind, AStr i, AStr [i ! k], AInt (int k), AStr allowedChars])
          | None \<Rightarrow> None)"

text \<open>
  What a valid ID is: its length is in the range, it starts with a lowercase letter, it ends
  with a letter or digit and every byte is allowed.
\<close>

definition valid_ID :: "string \<Rightarrow> string \<Rightarrow> nat \<Rightarrow> nat \<Rightarrow> bool" where
  "valid_ID kind i minLen maxLen =
     (i \<noteq> [] \<and> minLen \<le> length i \<and> length i \<le> maxLen \<and>
      isLowercaseLetter (hd i) \<and> isLowercaseLetterOrDigit (last i) \<and>
      list_all (\<lambda>c. isResourceIDChar c (kind = ''database'')) i)"

lemma id_char_cases:
  "isLowercaseLetter c \<Longrightarrow> isLowercaseLetterOrDigit c"
  "isLowercaseLetterOrDigit c \<Longrightarrow> isResourceIDChar c u"
  by (auto simp: id_char_defs)

lemma id_char_plain: "isLowercaseLetterOrDigit c \<Longrightarrow> plain_byte c"
  by (auto simp: id_char_defs plain_byte_def spaces_def)

lemma id_char_not_special:
  "isResourceIDChar c u \<Longrightarrow> c \<noteq> CHR ''/'' \<and> c \<noteq> CHR ''`'' \<and> c \<noteq> CHR 0x22"
  by (auto simp: id_char_defs)

lemma trimSpace_id:
  assumes "i \<noteq> []" "isLowercaseLetter (hd i)" "isLowercaseLetterOrDigit (last i)"
  shows "trimSpace i = i"
  using assms by (intro trimSpace_plain) (auto intro: id_char_plain id_char_cases)

text \<open>Every byte of a word is its first one, its last one, or one strictly between.\<close>

lemma list_all_nth_split:
  assumes "i \<noteq> []"
  shows "list_all P i \<longleftrightarrow> P (hd i) \<and> P (last i) \<and> (\<forall>k. 1 \<le> k \<and> k < length i - 1 \<longrightarrow> P (i ! k))"
proof -
  have "list_all P i \<longleftrightarrow> (\<forall>k < length i. P (i ! k))"
    by (simp add: list_all_length)
  also have "\<dots> \<longleftrightarrow> P (i ! 0) \<and> P (i ! (length i - 1)) \<and>
      (\<forall>k. 1 \<le> k \<and> k < length i - 1 \<longrightarrow> P (i ! k))"
  proof (intro iffI conjI allI impI)
    fix k assume r: "P (i ! 0) \<and> P (i ! (length i - 1)) \<and>
      (\<forall>k. 1 \<le> k \<and> k < length i - 1 \<longrightarrow> P (i ! k))" and k: "k < length i"
    consider "k = 0" | "k = length i - 1" | "1 \<le> k \<and> k < length i - 1"
      using k by linarith
    then show "P (i ! k)" using r by cases auto
  qed (use assms in auto)
  finally show ?thesis
    using assms by (simp add: hd_conv_nth last_conv_nth)
qed

lemma validateResourceID_None_iff:
  "validateResourceID kind i minLen maxLen = None \<longleftrightarrow> valid_ID kind i minLen maxLen"
proof (cases "i = []")
  case True
  then show ?thesis by (simp add: validateResourceID_def valid_ID_def)
next
  case False
  let ?P = "\<lambda>c. isResourceIDChar c (kind = ''database'')"
  have mid: "find (\<lambda>k. \<not> ?P (i ! k)) [1..<length i - 1] = None \<longleftrightarrow>
      (\<forall>k. 1 \<le> k \<and> k < length i - 1 \<longrightarrow> ?P (i ! k))"
    by (auto simp: find_None_iff)
  show ?thesis
  proof (cases "isLowercaseLetter (hd i) \<and> isLowercaseLetterOrDigit (last i)")
    case True
    then have "list_all ?P i \<longleftrightarrow> find (\<lambda>k. \<not> ?P (i ! k)) [1..<length i - 1] = None"
      unfolding mid list_all_nth_split [OF False] by (auto intro: id_char_cases)
    with True False trimSpace_id [of i] show ?thesis
      by (auto simp: validateResourceID_def valid_ID_def Let_def split: option.splits)
  next
    case 2: False
    then show ?thesis
      by (auto simp: validateResourceID_def valid_ID_def Let_def)
  qed
qed

lemma valid_ID_no_special:
  assumes "valid_ID kind i l u"
  shows "CHR ''/'' \<notin> set i" "CHR ''`'' \<notin> set i" "CHR 0x22 \<notin> set i" "i \<noteq> []"
  using assms id_char_not_special by (auto simp: valid_ID_def list_all_iff)

lemma valid_ID_trimSpace: "valid_ID kind i l u \<Longrightarrow> trimSpace i = i"
  by (auto simp: valid_ID_def intro: trimSpace_id)

subsection \<open>Random IDs\<close>

type_synonym rng = "nat \<Rightarrow> nat"

definition rand_N :: "rng \<Rightarrow> nat \<Rightarrow> nat \<times> rng" where
  "rand_N r n = (r 0 mod n, \<lambda>k. r (Suc k))"

definition databaseIDFirstChars :: string where
  "databaseIDFirstChars = ''abcdefghijklmnopqrstuvwxyz''"

definition databaseIDChars :: string where
  "databaseIDChars = databaseIDFirstChars @ ''0123456789''"

definition idRange :: nat where "idRange = 30"

text \<open>The loop that fills the bytes after the first.\<close>

fun random_chars :: "nat \<Rightarrow> rng \<Rightarrow> string \<times> rng" where
  "random_chars 0 r = ([], r)"
| "random_chars (Suc n) r =
     (let (k, r1) = rand_N r (length databaseIDChars); (s, r2) = random_chars n r1
      in (databaseIDChars ! k # s, r2))"

definition generateRandomID :: "rng \<Rightarrow> string \<times> rng" where
  "generateRandomID r =
     (let (k, r1) = rand_N r (length databaseIDFirstChars);
          (s, r2) = random_chars (idRange - 1) r1
      in (databaseIDFirstChars ! k # s, r2))"

lemma databaseIDFirstChars_lower: "list_all isLowercaseLetter databaseIDFirstChars"
  by (simp add: databaseIDFirstChars_def isLowercaseLetter_def)

lemma databaseIDChars_ok: "list_all isLowercaseLetterOrDigit databaseIDChars"
  by (simp add: databaseIDChars_def databaseIDFirstChars_def id_char_defs)

lemma random_chars_ok:
  "random_chars n r = (s, r') \<Longrightarrow> length s = n \<and> list_all isLowercaseLetterOrDigit s"
proof (induction n arbitrary: r s r')
  case (Suc n)
  obtain s1 r2 where rest: "random_chars n (\<lambda>k. r (Suc k)) = (s1, r2)" by fastforce
  have "r 0 mod length databaseIDChars < length databaseIDChars"
    by (rule mod_less_divisor) (simp add: databaseIDChars_def)
  with databaseIDChars_ok have "isLowercaseLetterOrDigit (databaseIDChars ! (r 0 mod length databaseIDChars))"
    by (simp add: list_all_length)
  with Suc.prems rest Suc.IH [OF rest] show ?case
    by (auto simp: rand_N_def)
qed simp

text \<open>The format \<open>[a-z][a-z0-9]{29}\<close> that the source announces.\<close>

lemma generateRandomID_format:
  assumes "generateRandomID r = (i, r')"
  shows "length i = 30 \<and> isLowercaseLetter (hd i) \<and> list_all isLowercaseLetterOrDigit i"
proof -
  obtain s r2 where rest: "random_chars 29 (\<lambda>k. r (Suc k)) = (s, r2)" by fastforce
  have "r 0 mod length databaseIDFirstChars < length databaseIDFirstChars"
    by (rule mod_less_divisor) (simp add: databaseIDFirstChars_def)
  with databaseIDFirstChars_lower
  have "isLowercaseLetter (databaseIDFirstChars ! (r 0 mod length databaseIDFirstChars))"
    by (simp add: list_all_length)
  with assms rest random_chars_ok [OF rest] show ?thesis
    by (auto simp: generateRandomID_def rand_N_def idRange_def intro: id_char_cases)
qed

lemma generateRandomID_valid:
  assumes "generateRandomID r = (i, r')" and "l \<le> 30" and "30 \<le> u"
  shows "valid_ID kind i l u"
proof -
  from generateRandomID_format [OF assms(1)]
  have f: "length i = 30" "isLowercaseLetter (hd i)" "list_all isLowercaseLetterOrDigit i"
    by auto
  then have "i \<noteq> []" by auto
  with f assms show ?thesis
    by (auto simp: valid_ID_def list_all_iff intro: id_char_cases)
qed

end
