(* ===== verification/World.thy ===== *)
theory World
  imports Go_Error "HOL-Library.State_Monad"
begin

section \<open>The outside world: calls, replies, files, time\<close>

text \<open>
  The program's effects are calls: to the Spanner client libraries, to testcontainers, to the
  operating system.  The libraries and the servers behind them are not part of the program, so
  what they answer is a parameter, a record \<open>env\<close> of functions from the history so far and
  the call to the reply.  A \<open>world\<close> holds the history of the calls made (in order, with the error each returned), the files
  and the clock.  An operation of the program is a value of the state monad over \<open>world\<close>; it
  is executable for any executable \<open>env\<close>.
\<close>

subsection \<open>Durations and contexts\<close>

text \<open>\<open>time.Duration\<close> counts nanoseconds.\<close>

type_synonym Duration = int

definition time_Millisecond :: Duration where "time_Millisecond = 1000000"
definition time_Second :: Duration where "time_Second = 1000 * time_Millisecond"
definition time_Minute :: Duration where "time_Minute = 60 * time_Second"

lemmas time_units = time_Millisecond_def time_Second_def time_Minute_def

text \<open>A context: the caller's, a fresh background context, or one derived with a timeout.\<close>

datatype ctx = Caller | Background | WithTimeout ctx Duration

text \<open>A context derived from \<open>context.Background()\<close> is not ended by the caller's cancellation.\<close>

fun detached :: "ctx \<Rightarrow> bool" where
  "detached Caller = False"
| "detached Background = True"
| "detached (WithTimeout c d) = detached c"

text \<open>A context that ends by itself, after the timeout at the latest.\<close>

fun bounded_by :: "ctx \<Rightarrow> Duration \<Rightarrow> bool" where
  "bounded_by Caller d = False"
| "bounded_by Background d = False"
| "bounded_by (WithTimeout c t) d = (t \<le> d \<or> bounded_by c d)"

subsection \<open>Values that the program passes to the libraries\<close>

datatype code = OK | NotFound | AlreadyExists | CodeDeadlineExceeded | Unavailable | OtherCode nat

datatype DatabaseDialect = DIALECT_UNSPECIFIED | GOOGLE_STANDARD_SQL | POSTGRESQL

record Statement =
  SQL :: string
  Params :: "(string \<times> nat) list"

text \<open>
  The fields of \<open>spanner.ClientConfig\<close> that the program reads or writes; \<open>OtherSettings\<close>
  stands for the others, which it only copies.
\<close>

record ClientConfig =
  DisableNativeMetrics :: bool
  IsExperimentalHost :: bool
  MinOpened :: nat
  MaxOpened :: nat
  OtherSettings :: nat

datatype ClientOption =
    WithEndpoint string
  | WithInsecureCredentials
  | WithoutAuthentication
  | SkipDialSettingsValidation
  | UserClientOption nat

datatype ProviderType = ProviderDefault | ProviderDocker | ProviderPodman | ProviderUnknown int

datatype ContainerCustomizer =
    TC_WithProvider ProviderType
  | TC_WithProjectID string
  | TC_WithCmd "string list"
  | UserCustomizer nat

datatype WaitStrategy =
    ForLog string Duration
  | ForExposedPort bool Duration
  | ForAll "WaitStrategy list" Duration Duration

record ContainerRequest =
  req_Image :: string
  req_ExposedPorts :: "string list"
  req_Cmd :: "string list"
  req_WaitingFor :: WaitStrategy
  req_Started :: bool
  req_Provider :: ProviderType

record Container =
  container_ID :: nat
  container_URI :: string

record CreateInstanceRequest =
  cir_Parent :: string
  cir_InstanceId :: string
  cir_Name :: string
  cir_Config :: string
  cir_DisplayName :: string

record CreateDatabaseRequest =
  cdr_Parent :: string
  cdr_CreateStatement :: string
  cdr_Dialect :: DatabaseDialect
  cdr_ExtraStatements :: "string list"
  cdr_ProtoDescriptors :: string

record UpdateDatabaseDdlRequest =
  udr_Database :: string
  udr_Statements :: "string list"
  udr_ProtoDescriptors :: string

text \<open>What \<open>docker inspect\<close> reports, as far as the program reads it.\<close>

record OciPlatform =
  p_OS :: string
  p_Architecture :: string
  p_Variant :: string

record Descriptor =
  d_MediaType :: string
  d_Digest :: string
  d_Platform :: "OciPlatform option"

record InspectResponse =
  i_Image :: string
  i_Platform :: string
  i_Descriptor :: "Descriptor option"

subsection \<open>Calls\<close>

datatype signal = SIGTERM | SIGKILL | Signal0

datatype call =
    NewInstanceAdminClient ctx "ClientOption list"
  | CloseInstanceAdminClient
  | NewDatabaseAdminClient ctx "ClientOption list"
  | CloseDatabaseAdminClient
  | NewSpannerClient ctx string ClientConfig "ClientOption list"
  | CloseSpannerClient
  | CreateInstance ctx CreateInstanceRequest
  | WaitCreateInstance ctx
  | DeleteInstance ctx string
  | GetInstance ctx string
  | CreateDatabase ctx CreateDatabaseRequest
  | WaitCreateDatabase ctx
  | UpdateDatabaseDdl ctx UpdateDatabaseDdlRequest
  | WaitUpdateDatabaseDdl ctx
  | DropDatabase ctx string
  | BatchUpdate ctx "Statement list"
  | AcquireLock ctx string
  | ReleaseLock string
  | AwaitTimer ctx Duration
  | RunEmulatorContainer ctx string "ContainerCustomizer list"
  | RunGenericContainer ctx ContainerRequest
  | TerminateContainer ctx Container
  | InspectContainer ctx Container
  | PortEndpoint ctx Container string
  | FindProcess int
  | SendSignal int signal
  | ReadFile string
  | WriteFile string string nat
  | RemoveFile string
  | StatFile string
  | MkdirAll string nat
  | CreateTemp string string
  | WriteTemp string string
  | ChmodTemp string nat
  | CloseTemp string
  | RenameFile string string
  | AwaitCancel ctx
  | ContainerReturned Container

record os_file =
  content :: string
  mode :: nat

text \<open>
  An event is a call and the error it returned.  \<open>ContainerReturned\<close> is no call of its own: it
  follows a start of a container whose answer has a container in it, with an error or without one,
  so that the history shows which containers the program was given.
\<close>

type_synonym event = "call \<times> error option"

record world =
  trace :: "event list"
  files :: "string \<Rightarrow> os_file option"
  clock :: int

text \<open>
  The environment.  \<open>rpc\<close> is the error a call returns, \<open>nonnil\<close> tells whether a constructor
  that failed returned an object together with the error, \<open>container_at\<close>, \<open>string_at\<close> and
  \<open>inspect_at\<close> give the objects, endpoints and inspect data that calls return, \<open>os_fail\<close> is a
  failure of a file operation other than a missing file and \<open>left_behind\<close> the file that a failed
  write leaves, \<open>files_after\<close> and \<open>clock_after\<close> tell
  what has become of the files and the clock after a wait, \<open>getenv\<close> and \<open>getpid\<close>
  describe the process, \<open>error_text\<close> is the text of an error,
  \<open>status_Code\<close> is the function of the same name of google.golang.org/grpc/status, the two media
  types are constants of the OCI image specification,
  \<open>customize\<close> runs a testcontainers customizer on a request, \<open>random\<close> gives the numbers that
  math/rand/v2 will draw.
\<close>

record env =
  rpc :: "world \<Rightarrow> call \<Rightarrow> error option"
  nonnil :: "world \<Rightarrow> call \<Rightarrow> bool"
  container_at :: "world \<Rightarrow> call \<Rightarrow> Container"
  string_at :: "world \<Rightarrow> call \<Rightarrow> string"
  inspect_at :: "world \<Rightarrow> call \<Rightarrow> InspectResponse option"
  os_fail :: "world \<Rightarrow> call \<Rightarrow> nat option"
  left_behind :: "world \<Rightarrow> call \<Rightarrow> os_file option"
  files_after :: "world \<Rightarrow> Duration \<Rightarrow> string \<Rightarrow> os_file option"
  clock_after :: "world \<Rightarrow> Duration \<Rightarrow> int"
  getenv :: "string \<Rightarrow> string"
  getpid :: int
  error_text :: "error \<Rightarrow> string"
  status_Code :: "error \<Rightarrow> code"
  MediaTypeImageIndex :: string
  MediaTypeImageManifest :: string
  customize :: "ContainerCustomizer \<Rightarrow> ContainerRequest \<Rightarrow> ContainerRequest result"
  random :: "world \<Rightarrow> nat \<Rightarrow> nat"

type_synonym 'a io = "(world, 'a) state"

subsection \<open>One call\<close>

definition record_event :: "event \<Rightarrow> world \<Rightarrow> world" where
  "record_event e w = w\<lparr>trace := trace w @ [e]\<rparr>"

definition invoke :: "env \<Rightarrow> call \<Rightarrow> error option io" where
  "invoke E c = State (\<lambda>w. (rpc E w c, record_event (c, rpc E w c) w))"

text \<open>A constructor: whether the object is not nil, and the error.\<close>

definition construct :: "env \<Rightarrow> call \<Rightarrow> (bool \<times> error option) io" where
  "construct E c = State (\<lambda>w. ((rpc E w c = None \<or> nonnil E w c, rpc E w c), record_event (c, rpc E w c) w))"

lemma run_invoke [simp, effect_simps]:
  "run_state (invoke E c) w = (rpc E w c, record_event (c, rpc E w c) w)"
  by (simp add: invoke_def)

lemma run_construct [simp, effect_simps]:
  "run_state (construct E c) w = ((rpc E w c = None \<or> nonnil E w c, rpc E w c), record_event (c, rpc E w c) w)"
  by (simp add: construct_def)

lemma record_event_simps [simp, effect_simps]:
  "trace (record_event e w) = trace w @ [e]"
  "files (record_event e w) = files w"
  "clock (record_event e w) = clock w"
  by (simp_all add: record_event_def)

subsection \<open>The events of an operation\<close>

text \<open>
  \<open>events m w\<close> are the calls, with their errors, that \<open>m\<close> makes when it is run in \<open>w\<close>.  Every operation only
  appends to the history, so the events of a sequence are the events of its parts.
\<close>

definition result_of :: "'a io \<Rightarrow> world \<Rightarrow> 'a" where
  "result_of m w = fst (run_state m w)"

definition world_after :: "'a io \<Rightarrow> world \<Rightarrow> world" where
  "world_after m w = snd (run_state m w)"

definition events :: "'a io \<Rightarrow> world \<Rightarrow> event list" where
  "events m w = drop (length (trace w)) (trace (world_after m w))"

definition appends :: "'a io \<Rightarrow> bool" where
  "appends m \<longleftrightarrow> (\<forall>w. prefix (trace w) (trace (world_after m w)))"

lemma run_state_eq: "run_state m w = (result_of m w, world_after m w)"
  by (simp add: result_of_def world_after_def)

lemma trace_world_after: "appends m \<Longrightarrow> trace (world_after m w) = trace w @ events m w"
  by (metis append_eq_conv_conj appends_def events_def prefix_def)

lemma events_eqI: "trace (world_after m w) = trace w @ cs \<Longrightarrow> events m w = cs"
  by (simp add: events_def)

lemma appends_return [intro, simp]: "appends (State_Monad.return x)"
  by (simp add: appends_def world_after_def)

lemma appends_invoke [intro, simp]: "appends (invoke E c)"
  by (simp add: appends_def world_after_def)

lemma appends_construct [intro, simp]: "appends (construct E c)"
  by (simp add: appends_def world_after_def)

lemma world_after_bind:
  "world_after (State_Monad.bind m f) w = world_after (f (result_of m w)) (world_after m w)"
  by (simp add: world_after_def result_of_def split: prod.splits)

lemma result_of_bind:
  "result_of (State_Monad.bind m f) w = result_of (f (result_of m w)) (world_after m w)"
  by (simp add: world_after_def result_of_def split: prod.splits)

lemma appends_bind [intro]:
  assumes "appends m" and "\<And>x. appends (f x)"
  shows "appends (State_Monad.bind m f)"
  using assms unfolding appends_def world_after_bind
  by (meson prefix_order.order_trans)

lemma events_bind:
  assumes "appends m" and "\<And>x. appends (f x)"
  shows "events (State_Monad.bind m f) w = events m w @ events (f (result_of m w)) (world_after m w)"
  by (rule events_eqI)
    (simp add: world_after_bind trace_world_after [OF assms(1)] trace_world_after [OF assms(2)])

lemma events_return [simp]: "events (State_Monad.return x) w = []"
  by (simp add: events_def world_after_def)

lemma events_invoke [simp]: "events (invoke E c) w = [(c, rpc E w c)]"
  by (simp add: events_def world_after_def)

lemma events_construct [simp]: "events (construct E c) w = [(c, rpc E w c)]"
  by (simp add: events_def world_after_def)

lemma result_of_simps [simp]:
  "result_of (State_Monad.return x) w = x"
  "result_of (invoke E c) w = rpc E w c"
  "result_of (construct E c) w = (rpc E w c = None \<or> nonnil E w c, rpc E w c)"
  by (simp_all add: result_of_def)

lemma world_after_simps [simp]:
  "world_after (State_Monad.return x) w = w"
  "world_after (invoke E c) w = record_event (c, rpc E w c) w"
  "world_after (construct E c) w = record_event (c, rpc E w c) w"
  by (simp_all add: world_after_def)

subsection \<open>Properties of the events of every run\<close>

text \<open>
  \<open>emits P m\<close>: whatever the environment answers, the events of a run of \<open>m\<close> satisfy \<open>P\<close>.
  When \<open>P\<close> is kept by concatenation, it is enough to show it for the parts of \<open>m\<close>.
\<close>

definition emits :: "(event list \<Rightarrow> bool) \<Rightarrow> 'a io \<Rightarrow> bool" where
  "emits P m \<longleftrightarrow> appends m \<and> (\<forall>w. P (events m w))"

lemma emits_appends: "emits P m \<Longrightarrow> appends m"
  by (simp add: emits_def)

lemma emits_mono: "emits P m \<Longrightarrow> (\<And>es. P es \<Longrightarrow> Q es) \<Longrightarrow> emits Q m"
  by (simp add: emits_def)

locale trace_property =
  fixes P :: "event list \<Rightarrow> bool"
  assumes P_Nil: "P []"
    and P_append: "P xs \<Longrightarrow> P ys \<Longrightarrow> P (xs @ ys)"
begin

lemma emits_return: "emits P (State_Monad.return x)"
  by (simp add: emits_def P_Nil)

lemma emits_bind:
  assumes "emits P m" and "\<And>x. emits P (f x)"
  shows "emits P (State_Monad.bind m f)"
proof -
  have a: "appends m" "\<And>x. appends (f x)" using assms by (simp_all add: emits_def)
  have "P (events (State_Monad.bind m f) w)" for w
    unfolding events_bind [OF a] using assms by (intro P_append) (simp_all add: emits_def)
  with a show ?thesis by (auto simp: emits_def)
qed

lemma emits_invoke: "(\<And>r. P [(c, r)]) \<Longrightarrow> emits P (invoke E c)"
  by (simp add: emits_def)

lemma emits_construct: "(\<And>r. P [(c, r)]) \<Longrightarrow> emits P (construct E c)"
  by (simp add: emits_def)

lemma emits_if: "(b \<Longrightarrow> emits P m) \<Longrightarrow> (\<not> b \<Longrightarrow> emits P n) \<Longrightarrow> emits P (if b then m else n)"
  by simp

lemma emits_option:
  "(x = None \<Longrightarrow> emits P m) \<Longrightarrow> (\<And>y. x = Some y \<Longrightarrow> emits P (f y)) \<Longrightarrow>
   emits P (case x of None \<Rightarrow> m | Some y \<Rightarrow> f y)"
  by (cases x) auto

lemma emits_sum:
  "(\<And>e. x = Inl e \<Longrightarrow> emits P (f e)) \<Longrightarrow> (\<And>y. x = Inr y \<Longrightarrow> emits P (g y)) \<Longrightarrow>
   emits P (case x of Inl e \<Rightarrow> f e | Inr y \<Rightarrow> g y)"
  by (cases x) auto

lemma emits_prod: "(\<And>a b. x = (a, b) \<Longrightarrow> emits P (f a b)) \<Longrightarrow> emits P (case x of (a, b) \<Rightarrow> f a b)"
  by (cases x) auto

lemma emits_let: "(\<And>x. x = y \<Longrightarrow> emits P (f x)) \<Longrightarrow> emits P (let x = y in f x)"
  by simp

lemmas emits_rules =
  emits_return emits_bind emits_invoke emits_construct emits_if emits_option emits_sum emits_prod emits_let

end

interpretation any_events: trace_property "\<lambda>_. True"
  by unfold_locales simp_all

lemma appends_iff_emits: "appends m \<longleftrightarrow> emits (\<lambda>_. True) m"
  by (simp add: emits_def)

text \<open>Every event of the run satisfies \<open>p\<close>.\<close>

interpretation all_events: trace_property "list_all p" for p
  by unfold_locales simp_all

subsection \<open>A calculus of results and events\<close>

text \<open>
  \<open>ensures m Q\<close>: in every world, the result of \<open>m\<close> and the events of its run satisfy \<open>Q\<close>.  The
  rules follow the structure of \<open>m\<close> forwards: the events so far move into the postcondition of
  the rest.
\<close>

definition ensures :: "'a io \<Rightarrow> ('a \<Rightarrow> event list \<Rightarrow> bool) \<Rightarrow> bool" where
  "ensures m Q \<longleftrightarrow> appends m \<and> (\<forall>w. Q (result_of m w) (events m w))"

lemma ensuresI: "appends m \<Longrightarrow> (\<And>w. Q (result_of m w) (events m w)) \<Longrightarrow> ensures m Q"
  by (simp add: ensures_def)

lemma ensures_appends: "ensures m Q \<Longrightarrow> appends m"
  by (simp add: ensures_def)

lemma ensuresD: "ensures m Q \<Longrightarrow> Q (result_of m w) (events m w)"
  by (simp add: ensures_def)

lemma ensures_mono: "ensures m Q \<Longrightarrow> (\<And>x es. Q x es \<Longrightarrow> R x es) \<Longrightarrow> ensures m R"
  by (simp add: ensures_def)

lemma ensures_conj: "ensures m Q \<Longrightarrow> ensures m R \<Longrightarrow> ensures m (\<lambda>x es. Q x es \<and> R x es)"
  by (simp add: ensures_def)

lemma ensures_emits: "emits P m \<longleftrightarrow> ensures m (\<lambda>x. P)"
  by (simp add: ensures_def emits_def)

lemma ensures_return: "Q x [] \<Longrightarrow> ensures (State_Monad.return x) Q"
  by (simp add: ensures_def)

lemma ensures_bind:
  assumes "ensures m R" and "\<And>x es. R x es \<Longrightarrow> ensures (f x) (\<lambda>y es'. Q y (es @ es'))" and "\<And>x. appends (f x)"
  shows "ensures (State_Monad.bind m f) Q"
proof (rule ensuresI)
  have a: "appends m" using assms(1) by (rule ensures_appends)
  show "appends (State_Monad.bind m f)" by (rule appends_bind [OF a assms(3)])
  show "Q (result_of (State_Monad.bind m f) w) (events (State_Monad.bind m f) w)" for w
    unfolding result_of_bind events_bind [OF a assms(3)]
    by (rule ensuresD [OF assms(2)]) (rule ensuresD [OF assms(1)])
qed

lemma ensures_bind_invoke:
  assumes "\<And>r. ensures (f r) (\<lambda>y es. Q y ((c, r) # es))" and "\<And>x. appends (f x)"
  shows "ensures (State_Monad.bind (invoke E c) f) Q"
  by (rule ensuresI)
    (auto simp: result_of_bind events_bind assms(2) intro!: appends_bind assms(2) ensuresD [OF assms(1)])

lemma ensures_bind_construct:
  assumes "\<And>b r. (r = None \<Longrightarrow> b) \<Longrightarrow> ensures (f (b, r)) (\<lambda>y es. Q y ((c, r) # es))"
    and "\<And>x. appends (f x)"
  shows "ensures (State_Monad.bind (construct E c) f) Q"
proof (rule ensuresI)
  show "appends (State_Monad.bind (construct E c) f)" by (intro appends_bind appends_construct assms(2))
  fix w
  let ?b = "rpc E w c = None \<or> nonnil E w c"
  have "ensures (f (?b, rpc E w c)) (\<lambda>y es. Q y ((c, rpc E w c) # es))"
    by (rule assms(1)) simp
  from ensuresD [OF this, of "record_event (c, rpc E w c) w"]
  show "Q (result_of (State_Monad.bind (construct E c) f) w) (events (State_Monad.bind (construct E c) f) w)"
    by (simp add: result_of_bind events_bind assms(2))
qed

lemma ensures_invoke: "(\<And>r. Q r [(c, r)]) \<Longrightarrow> ensures (invoke E c) Q"
  by (simp add: ensures_def)

lemma ensures_construct: "(\<And>b r. (r = None \<Longrightarrow> b) \<Longrightarrow> Q (b, r) [(c, r)]) \<Longrightarrow> ensures (construct E c) Q"
  by (simp add: ensures_def)

lemma ensures_if: "(b \<Longrightarrow> ensures m Q) \<Longrightarrow> (\<not> b \<Longrightarrow> ensures n Q) \<Longrightarrow> ensures (if b then m else n) Q"
  by simp

lemma ensures_option:
  "(x = None \<Longrightarrow> ensures m Q) \<Longrightarrow> (\<And>y. x = Some y \<Longrightarrow> ensures (f y) Q) \<Longrightarrow>
   ensures (case x of None \<Rightarrow> m | Some y \<Rightarrow> f y) Q"
  by (cases x) auto

lemma ensures_sum:
  "(\<And>e. x = Inl e \<Longrightarrow> ensures (f e) Q) \<Longrightarrow> (\<And>y. x = Inr y \<Longrightarrow> ensures (g y) Q) \<Longrightarrow>
   ensures (case x of Inl e \<Rightarrow> f e | Inr y \<Rightarrow> g y) Q"
  by (cases x) auto

lemma ensures_prod: "(\<And>a b. x = (a, b) \<Longrightarrow> ensures (f a b) Q) \<Longrightarrow> ensures (case x of (a, b) \<Rightarrow> f a b) Q"
  by (cases x) auto

text \<open>That an operation only appends is shown by the same structure.\<close>

named_theorems appends_intros \<open>operations that only append to the history\<close>

lemma appends_case_option [appends_intros]:
  "(x = None \<Longrightarrow> appends m) \<Longrightarrow> (\<And>y. x = Some y \<Longrightarrow> appends (f y)) \<Longrightarrow> appends (case x of None \<Rightarrow> m | Some y \<Rightarrow> f y)"
  by (cases x) auto

lemma appends_case_sum [appends_intros]:
  "(\<And>e. x = Inl e \<Longrightarrow> appends (f e)) \<Longrightarrow> (\<And>y. x = Inr y \<Longrightarrow> appends (g y)) \<Longrightarrow>
   appends (case x of Inl e \<Rightarrow> f e | Inr y \<Rightarrow> g y)"
  by (cases x) auto

lemma appends_case_prod [appends_intros]:
  "(\<And>a b. x = (a, b) \<Longrightarrow> appends (f a b)) \<Longrightarrow> appends (case x of (a, b) \<Rightarrow> f a b)"
  by (cases x) auto

lemma appends_if [appends_intros]:
  "(b \<Longrightarrow> appends m) \<Longrightarrow> (\<not> b \<Longrightarrow> appends n) \<Longrightarrow> appends (if b then m else n)"
  by simp

lemma appends_let [appends_intros]: "(\<And>x. appends (f x)) \<Longrightarrow> appends (let x = y in f x)"
  by simp

lemmas [appends_intros] = appends_return appends_invoke appends_construct appends_bind

subsection \<open>Deferred calls\<close>

text \<open>\<open>defer\<close>: the cleanup runs after the rest of the function, whose result is kept.\<close>

definition deferred :: "'b io \<Rightarrow> 'a io \<Rightarrow> 'a io" where
  "deferred cleanup m = do { r \<leftarrow> m; _ \<leftarrow> cleanup; State_Monad.return r }"

lemma appends_deferred [appends_intros]: "appends cleanup \<Longrightarrow> appends m \<Longrightarrow> appends (deferred cleanup m)"
  by (auto simp: deferred_def intro!: appends_bind)

lemma ensures_deferred_invoke:
  assumes "ensures m (\<lambda>x es. \<forall>r. Q x (es @ [(c, r)]))"
  shows "ensures (deferred (invoke E c) m) Q"
  unfolding deferred_def
  by (rule ensures_bind [OF assms]) (auto intro!: appends_bind ensures_bind_invoke ensures_return)

end
