(* ===== verification/Options.thy ===== *)
theory Options
  imports Resource_ID World
begin

section \<open>Options (options.go)\<close>

text \<open>
  The record \<open>emulatorOptions\<close>, every option constructor as the function it returns, the
  resource-drop policy, and the finalization of the emulator's options.  The functions read
  the process environment and draw random numbers, which are arguments here.
\<close>

subsection \<open>The record and its zero value\<close>

record emulatorOptions =
  emulatorImage :: string
  projectID :: string
  instanceID :: string
  databaseID :: string
  randomProjectID :: bool
  randomInstanceID :: bool
  randomDatabaseID :: bool
  randomDatabaseIDResolved :: bool
  disableCreateInstance :: bool
  disableCreateDatabase :: bool
  disableBackendGuardrails :: bool
  reuseExistingDatabase :: bool
  schemaTeardown :: "bool option"
  databaseDialect :: DatabaseDialect
  setupDDLs :: "string list"
  setupFileDescriptorSet :: string
  setupDMLs :: "Statement list"
  clientConfig :: "ClientConfig option"
  containerCustomizers :: "ContainerCustomizer list"
  containerProviderSet :: bool
  clientOptionsForClient :: "ClientOption list"
  gatewayFlags :: "string list"

definition zeroOptions :: emulatorOptions where
  "zeroOptions = \<lparr>emulatorImage = [], projectID = [], instanceID = [], databaseID = [],
     randomProjectID = False, randomInstanceID = False, randomDatabaseID = False,
     randomDatabaseIDResolved = False, disableCreateInstance = False,
     disableCreateDatabase = False, disableBackendGuardrails = False,
     reuseExistingDatabase = False, schemaTeardown = None,
     databaseDialect = DIALECT_UNSPECIFIED, setupDDLs = [], setupFileDescriptorSet = [],
     setupDMLs = [], clientConfig = None, containerCustomizers = [],
     containerProviderSet = False, clientOptionsForClient = [], gatewayFlags = []\<rparr>"

definition zeroClientConfig :: ClientConfig where
  "zeroClientConfig = \<lparr>DisableNativeMetrics = False, IsExperimentalHost = False,
     MinOpened = 0, MaxOpened = 0, OtherSettings = 0\<rparr>"

type_synonym Option = "emulatorOptions \<Rightarrow> emulatorOptions result"

definition DefaultEmulatorImage :: string where
  "DefaultEmulatorImage = ''gcr.io/cloud-spanner-emulator/emulator:1.5.58''"
definition DefaultProjectID :: string where "DefaultProjectID = ''emulator-project''"
definition DefaultInstanceID :: string where "DefaultInstanceID = ''emulator-instance''"
definition DefaultDatabaseID :: string where "DefaultDatabaseID = ''emulator-database''"

lemmas emulator_defaults =
  DefaultEmulatorImage_def DefaultProjectID_def DefaultInstanceID_def DefaultDatabaseID_def

subsection \<open>Option constructors\<close>

definition WithContainerCustomizers :: "ContainerCustomizer list \<Rightarrow> Option" where
  [option_defs]: "WithContainerCustomizers cs opts =
     Inr (opts\<lparr>containerCustomizers := containerCustomizers opts @ cs\<rparr>)"

definition validateContainerProvider :: "ProviderType \<Rightarrow> string \<Rightarrow> error option" where
  "validateContainerProvider provider source =
     (case provider of
        ProviderUnknown k \<Rightarrow> Some (Errorf ''%s: unsupported testcontainers provider %d'' [AStr source, AInt k])
      | _ \<Rightarrow> None)"

definition WithContainerProvider :: "ProviderType \<Rightarrow> Option" where
  [option_defs]: "WithContainerProvider provider opts =
     (case validateContainerProvider provider ''WithContainerProvider'' of
        Some e \<Rightarrow> Inl e
      | None \<Rightarrow> Inr (opts\<lparr>containerProviderSet := True,
                   containerCustomizers := containerCustomizers opts @ [TC_WithProvider provider]\<rparr>))"

definition appendGatewayFlag :: "string \<Rightarrow> Option" where
  [option_defs]: "appendGatewayFlag flag opts = Inr (opts\<lparr>gatewayFlags := gatewayFlags opts @ [flag]\<rparr>)"

definition EnableFaultInjection :: Option where
  [option_defs]: "EnableFaultInjection = appendGatewayFlag ''--enable_fault_injection''"

definition EnableLogRequests :: Option where
  [option_defs]: "EnableLogRequests = appendGatewayFlag ''--log_requests''"

definition EnableEmulatorStdoutCopy :: Option where
  [option_defs]: "EnableEmulatorStdoutCopy = appendGatewayFlag ''--copy_emulator_stdout''"

definition DisableQueryNullFilteredIndexCheck :: Option where
  [option_defs]: "DisableQueryNullFilteredIndexCheck =
     appendGatewayFlag ''--disable_query_null_filtered_index_check''"

definition WithMaxDatabasesPerInstance :: "int \<Rightarrow> Option" where
  [option_defs]: "WithMaxDatabasesPerInstance n opts =
     (if n \<le> 0 then Inl (Errorf ''WithMaxDatabasesPerInstance: n must be > 0, got %d'' [AInt n])
      else Inr (opts\<lparr>gatewayFlags := gatewayFlags opts @
             [''--override_max_databases_per_instance='' @ show_int n]\<rparr>))"

definition WithChangeStreamPartitionTokenAliveSeconds :: "int \<Rightarrow> Option" where
  [option_defs]: "WithChangeStreamPartitionTokenAliveSeconds seconds opts =
     (if seconds \<le> 0 then
        Inl (Errorf ''WithChangeStreamPartitionTokenAliveSeconds: seconds must be > 0, got %d'' [AInt seconds])
      else Inr (opts\<lparr>gatewayFlags := gatewayFlags opts @
             [''--override_change_stream_partition_token_alive_seconds='' @ show_int seconds]\<rparr>))"

definition WithClientOptionsForClient :: "ClientOption list \<Rightarrow> Option" where
  [option_defs]: "WithClientOptionsForClient os opts =
     Inr (opts\<lparr>clientOptionsForClient := clientOptionsForClient opts @ os\<rparr>)"

definition WithProjectID :: "string \<Rightarrow> Option" where
  [option_defs]: "WithProjectID i opts = Inr (opts\<lparr>projectID := i\<rparr>)"

definition WithRandomProjectID :: Option where
  [option_defs]: "WithRandomProjectID opts = Inr (opts\<lparr>randomProjectID := True, projectID := []\<rparr>)"

definition WithoutRandomProjectID :: Option where
  [option_defs]: "WithoutRandomProjectID opts = Inr (opts\<lparr>randomProjectID := False\<rparr>)"

definition WithInstanceID :: "string \<Rightarrow> Option" where
  [option_defs]: "WithInstanceID i opts = Inr (opts\<lparr>instanceID := i\<rparr>)"

definition WithRandomInstanceID :: Option where
  [option_defs]: "WithRandomInstanceID opts =
     Inr (opts\<lparr>randomInstanceID := True, instanceID := [], disableCreateInstance := False\<rparr>)"

definition WithoutRandomInstanceID :: Option where
  [option_defs]: "WithoutRandomInstanceID opts = Inr (opts\<lparr>randomInstanceID := False\<rparr>)"

definition WithDatabaseID :: "string \<Rightarrow> Option" where
  "WithDatabaseID i opts =
     (let currentDatabaseID = cmp_Or (databaseID opts) DefaultDatabaseID;
          targetDatabaseID = cmp_Or i DefaultDatabaseID;
          opts = (if reuseExistingDatabase opts \<and> targetDatabaseID \<noteq> currentDatabaseID
                  then opts\<lparr>disableCreateDatabase := False\<rparr> else opts);
          opts = opts\<lparr>reuseExistingDatabase := False\<rparr>;
          opts = (if randomDatabaseIDResolved opts
                  then opts\<lparr>randomDatabaseID := False, randomDatabaseIDResolved := False\<rparr> else opts)
      in Inr (opts\<lparr>databaseID := i\<rparr>))"

text \<open>The same in one update, for the proofs.\<close>

lemma WithDatabaseID_eq [option_defs]:
  "WithDatabaseID i opts = Inr (opts\<lparr>databaseID := i, reuseExistingDatabase := False,
     disableCreateDatabase := disableCreateDatabase opts \<and>
       \<not> (reuseExistingDatabase opts \<and> cmp_Or i DefaultDatabaseID \<noteq> cmp_Or (databaseID opts) DefaultDatabaseID),
     randomDatabaseID := randomDatabaseID opts \<and> \<not> randomDatabaseIDResolved opts,
     randomDatabaseIDResolved := False\<rparr>)"
  by (cases opts) (simp add: WithDatabaseID_def Let_def)

definition WithRandomDatabaseID :: Option where
  [option_defs]: "WithRandomDatabaseID opts =
     Inr (opts\<lparr>randomDatabaseID := True, randomDatabaseIDResolved := False,
       reuseExistingDatabase := False, databaseID := [], disableCreateDatabase := False\<rparr>)"

definition WithoutRandomDatabaseID :: Option where
  [option_defs]: "WithoutRandomDatabaseID opts = Inr (opts\<lparr>randomDatabaseID := False\<rparr>)"

definition WithDatabaseDialect :: "DatabaseDialect \<Rightarrow> Option" where
  [option_defs]: "WithDatabaseDialect d opts = Inr (opts\<lparr>databaseDialect := d\<rparr>)"

definition WithContainerImage :: "string \<Rightarrow> Option" where
  [option_defs]: "WithContainerImage img opts =
     Inr (if img \<noteq> [] then opts\<lparr>emulatorImage := img\<rparr> else opts)"

definition WithEmulatorImage :: "string \<Rightarrow> Option" where
  [option_defs]: "WithEmulatorImage img = WithContainerImage img"

definition DisableBackendGuardrails :: Option where
  [option_defs]: "DisableBackendGuardrails opts = Inr (opts\<lparr>disableBackendGuardrails := True\<rparr>)"

definition WithClientConfig :: "ClientConfig \<Rightarrow> Option" where
  [option_defs]: "WithClientConfig config opts = Inr (opts\<lparr>clientConfig := Some config\<rparr>)"

definition WithSetupDDLs :: "string list \<Rightarrow> Option" where
  [option_defs]: "WithSetupDDLs ddls opts = Inr (opts\<lparr>setupDDLs := ddls\<rparr>)"

text \<open>
  The descriptor set is marshalled when the option is built; \<open>marshal\<close> stands for
  \<open>proto.Marshal\<close>, a descriptor set is identified by a number.  A nil descriptor set
  marshals to no bytes.
\<close>

definition WithSetupFileDescriptorSet :: "(nat \<Rightarrow> string result) \<Rightarrow> nat option \<Rightarrow> Option" where
  [option_defs]: "WithSetupFileDescriptorSet marshal fds =
     (let raw = (case fds of None \<Rightarrow> Inr [] | Some f \<Rightarrow> marshal f)
      in (\<lambda>opts. case raw of
            Inl e \<Rightarrow> Inl (Wrapf ''marshal file descriptor set: %w'' [] e)
          | Inr bytes \<Rightarrow> Inr (opts\<lparr>setupFileDescriptorSet := bytes\<rparr>)))"

definition WithSetupRawFileDescriptorSet :: "string \<Rightarrow> Option" where
  [option_defs]: "WithSetupRawFileDescriptorSet raw opts = Inr (opts\<lparr>setupFileDescriptorSet := raw\<rparr>)"

definition NewStatement :: "string \<Rightarrow> Statement" where
  "NewStatement sql = \<lparr>SQL = sql, Params = []\<rparr>"

definition WithSetupRawDMLs :: "string list \<Rightarrow> Option" where
  [option_defs]: "WithSetupRawDMLs rawDMLs opts = Inr (opts\<lparr>setupDMLs := map NewStatement rawDMLs\<rparr>)"

definition WithSetupDMLs :: "Statement list \<Rightarrow> Option" where
  [option_defs]: "WithSetupDMLs dmls opts = Inr (opts\<lparr>setupDMLs := dmls\<rparr>)"

definition DisableAutoConfig :: Option where
  [option_defs]: "DisableAutoConfig opts =
     Inr (opts\<lparr>disableCreateInstance := True, disableCreateDatabase := True, reuseExistingDatabase := False\<rparr>)"

definition EnableAutoConfig :: Option where
  [option_defs]: "EnableAutoConfig opts =
     Inr (opts\<lparr>disableCreateInstance := False, disableCreateDatabase := False, reuseExistingDatabase := False\<rparr>)"

definition EnableInstanceAutoConfigOnly :: Option where
  [option_defs]: "EnableInstanceAutoConfigOnly opts =
     Inr (opts\<lparr>disableCreateInstance := False, disableCreateDatabase := True, reuseExistingDatabase := False\<rparr>)"

definition EnableDatabaseAutoConfigOnly :: Option where
  [option_defs]: "EnableDatabaseAutoConfigOnly opts =
     Inr (opts\<lparr>disableCreateInstance := True, disableCreateDatabase := False, reuseExistingDatabase := False\<rparr>)"

definition ForceSchemaTeardown :: Option where
  [option_defs]: "ForceSchemaTeardown opts = Inr (opts\<lparr>schemaTeardown := Some True\<rparr>)"

definition SkipSchemaTeardown :: Option where
  [option_defs]: "SkipSchemaTeardown opts = Inr (opts\<lparr>schemaTeardown := Some False\<rparr>)"

definition WithStrictTeardown :: Option where
  [option_defs]: "WithStrictTeardown = ForceSchemaTeardown"

subsection \<open>Drop policy and paths\<close>

definition shouldDropResource :: "emulatorOptions \<Rightarrow> bool \<Rightarrow> bool \<Rightarrow> bool" where
  "shouldDropResource opts disableCreate isRandomID =
     (if disableCreate then False
      else case schemaTeardown opts of Some b \<Rightarrow> b | None \<Rightarrow> \<not> isRandomID)"

definition shouldDropInstance :: "emulatorOptions \<Rightarrow> bool" where
  "shouldDropInstance opts = shouldDropResource opts (disableCreateInstance opts) (randomInstanceID opts)"

definition shouldDropDatabase :: "emulatorOptions \<Rightarrow> bool" where
  "shouldDropDatabase opts = shouldDropResource opts (disableCreateDatabase opts) (randomDatabaseID opts)"

definition hasSetupDDLWork :: "emulatorOptions \<Rightarrow> bool" where
  "hasSetupDDLWork opts = (length (setupDDLs opts) > 0)"

definition opts_DatabasePath :: "emulatorOptions \<Rightarrow> string" where
  "opts_DatabasePath opts = databasePath (projectID opts) (instanceID opts) (databaseID opts)"

definition opts_InstancePath :: "emulatorOptions \<Rightarrow> string" where
  "opts_InstancePath opts = instancePath (projectID opts) (instanceID opts)"

definition opts_ProjectPath :: "emulatorOptions \<Rightarrow> string" where
  "opts_ProjectPath opts = projectPath (projectID opts)"

text \<open>Whether teardown is forced, as the callers test it.\<close>

definition forceTeardown :: "emulatorOptions \<Rightarrow> bool" where
  "forceTeardown opts = (schemaTeardown opts = Some True)"

end
