(* ===== verification/Finalize.thy ===== *)
theory Finalize
  imports Options
begin

section \<open>Finalization of the emulator's options (options.go)\<close>

text \<open>
  \<open>finalizeOptions\<close> and the functions it calls: the random IDs, the defaults, the validation
  of the IDs, the container provider of the environment, the descriptor set.  The steps that
  fill in fields are separate definitions because \<open>finalizeOmniOptions\<close> has the same ones.
\<close>

definition validateResourceIDs :: "emulatorOptions \<Rightarrow> error option" where
  "validateResourceIDs opts =
     (case validateResourceID ''project'' (projectID opts) minProjectIDLength maxProjectIDLength of
        Some e \<Rightarrow> Some e
      | None \<Rightarrow>
     (case validateResourceID ''instance'' (instanceID opts) minInstanceIDLength maxInstanceIDLength of
        Some e \<Rightarrow> Some e
      | None \<Rightarrow> validateResourceID ''database'' (databaseID opts) minDatabaseIDLength maxDatabaseIDLength))"

definition validateSetupFileDescriptorSet :: "emulatorOptions \<Rightarrow> error option" where
  "validateSetupFileDescriptorSet opts =
     (if length (setupFileDescriptorSet opts) = 0 \<or> length (setupDDLs opts) > 0 then None
      else if \<not> disableCreateDatabase opts then None
      else Some (Errorf ''setup file descriptor set requires WithSetupDDLs when database auto-creation is disabled'' []))"

definition testcontainersProviderEnv :: string where
  "testcontainersProviderEnv = ''SPANEMUBOOST_TESTCONTAINERS_PROVIDER''"

definition parseContainerProvider :: "string \<Rightarrow> ProviderType result" where
  "parseContainerProvider raw =
     (let s = toLower (trimSpace raw)
      in if s = ''default'' then Inr ProviderDefault
         else if s = ''docker'' then Inr ProviderDocker
         else if s = ''podman'' then Inr ProviderPodman
         else Inl (Errorf ''unsupported testcontainers provider %q; supported values are default, docker, podman'' [AStr raw]))"

definition applyContainerProviderEnv :: "(string \<Rightarrow> string) \<Rightarrow> Option" where
  "applyContainerProviderEnv genv opts =
     (if containerProviderSet opts then Inr opts
      else let raw = trimSpace (genv testcontainersProviderEnv)
        in if raw = [] then Inr opts
           else case parseContainerProvider raw of
                  Inl e \<Rightarrow> Inl (Wrapf ''%s: %w'' [AStr testcontainersProviderEnv] e)
                | Inr provider \<Rightarrow>
                    if provider = ProviderDefault then Inr opts
                    else Inr (opts\<lparr>containerProviderSet := True,
                           containerCustomizers := TC_WithProvider provider # containerCustomizers opts\<rparr>))"

text \<open>The three random IDs, drawn in the order project, instance, database.\<close>

definition fillRandomProjectID :: "emulatorOptions \<times> rng \<Rightarrow> emulatorOptions \<times> rng" where
  "fillRandomProjectID = (\<lambda>(opts, r).
     if randomProjectID opts
     then let (i, r') = generateRandomID r in (opts\<lparr>projectID := i\<rparr>, r') else (opts, r))"

definition fillRandomInstanceID :: "emulatorOptions \<times> rng \<Rightarrow> emulatorOptions \<times> rng" where
  "fillRandomInstanceID = (\<lambda>(opts, r).
     if randomInstanceID opts
     then let (i, r') = generateRandomID r in (opts\<lparr>instanceID := i\<rparr>, r') else (opts, r))"

definition fillRandomDatabaseID :: "emulatorOptions \<times> rng \<Rightarrow> emulatorOptions \<times> rng" where
  "fillRandomDatabaseID = (\<lambda>(opts, r).
     if randomDatabaseID opts \<and> \<not> randomDatabaseIDResolved opts
     then let (i, r') = generateRandomID r
          in (opts\<lparr>databaseID := i, randomDatabaseIDResolved := True\<rparr>, r') else (opts, r))"

definition fillDefaults :: "string \<Rightarrow> string \<Rightarrow> string \<Rightarrow> emulatorOptions \<Rightarrow> emulatorOptions" where
  "fillDefaults img project inst opts =
     opts\<lparr>emulatorImage := cmp_Or (emulatorImage opts) img,
          projectID := cmp_Or (projectID opts) project,
          instanceID := cmp_Or (instanceID opts) inst,
          databaseID := cmp_Or (databaseID opts) DefaultDatabaseID\<rparr>"

text \<open>The steps after the client configuration, the same for both backends.\<close>

definition finishOptions :: "(string \<Rightarrow> string) \<Rightarrow> Option" where
  "finishOptions genv opts =
     (case applyContainerProviderEnv genv opts of
        Inl e \<Rightarrow> Inl e
      | Inr opts \<Rightarrow>
          (case validateSetupFileDescriptorSet opts of Some e \<Rightarrow> Inl e | None \<Rightarrow> Inr opts))"

definition emulatorClientConfig :: "ClientConfig option \<Rightarrow> ClientConfig option" where
  "emulatorClientConfig c =
     (case c of None \<Rightarrow> Some (zeroClientConfig\<lparr>DisableNativeMetrics := True\<rparr>) | Some cfg \<Rightarrow> Some cfg)"

definition finalizeOptions :: "(string \<Rightarrow> string) \<Rightarrow> rng \<Rightarrow> Option" where
  "finalizeOptions genv r opts =
     (if randomProjectID opts \<and> projectID opts \<noteq> [] then
        Inl (Errorf ''WithRandomProjectID() and WithProjectID() are mutually exclusive'' [])
      else if randomInstanceID opts \<and> instanceID opts \<noteq> [] then
        Inl (Errorf ''WithRandomInstanceID() and WithInstanceID() are mutually exclusive'' [])
      else if randomDatabaseID opts \<and> databaseID opts \<noteq> [] \<and> \<not> randomDatabaseIDResolved opts then
        Inl (Errorf ''WithRandomDatabaseID() and WithDatabaseID() are mutually exclusive'' [])
      else let
          opts = fst (fillRandomDatabaseID (fillRandomInstanceID (fillRandomProjectID (opts, r))));
          opts = fillDefaults DefaultEmulatorImage DefaultProjectID DefaultInstanceID opts
        in case validateResourceIDs opts of
             Some e \<Rightarrow> Inl e
           | None \<Rightarrow> finishOptions genv (opts\<lparr>clientConfig := emulatorClientConfig (clientConfig opts)\<rparr>))"

definition applyOptionsWithBase ::
    "(string \<Rightarrow> string) \<Rightarrow> rng \<Rightarrow> emulatorOptions \<Rightarrow> Option list \<Rightarrow> emulatorOptions result" where
  "applyOptionsWithBase genv r base options =
     (case fold_result options base of Inl e \<Rightarrow> Inl e | Inr opts \<Rightarrow> finalizeOptions genv r opts)"

definition applyOptions :: "(string \<Rightarrow> string) \<Rightarrow> rng \<Rightarrow> Option list \<Rightarrow> emulatorOptions result" where
  "applyOptions genv r options =
     (case fold_result options zeroOptions of Inl e \<Rightarrow> Inl e | Inr opts \<Rightarrow> finalizeOptions genv r opts)"

subsection \<open>What finalization guarantees\<close>

definition valid_IDs :: "emulatorOptions \<Rightarrow> bool" where
  "valid_IDs opts \<longleftrightarrow>
     valid_ID ''project'' (projectID opts) minProjectIDLength maxProjectIDLength \<and>
     valid_ID ''instance'' (instanceID opts) minInstanceIDLength maxInstanceIDLength \<and>
     valid_ID ''database'' (databaseID opts) minDatabaseIDLength maxDatabaseIDLength"

lemma validateResourceIDs_None_iff: "validateResourceIDs opts = None \<longleftrightarrow> valid_IDs opts"
  by (auto simp: validateResourceIDs_def valid_IDs_def simp flip: validateResourceID_None_iff
      split: option.splits)

text \<open>The options a backend may use: the well-formedness invariant of finalized options.\<close>

definition finalized :: "emulatorOptions \<Rightarrow> bool" where
  "finalized opts \<longleftrightarrow>
     valid_IDs opts \<and> emulatorImage opts \<noteq> [] \<and> clientConfig opts \<noteq> None \<and>
     (randomDatabaseID opts \<longrightarrow> randomDatabaseIDResolved opts) \<and>
     validateSetupFileDescriptorSet opts = None"

text \<open>
  The fields that finalization leaves alone: the policies, the setup work and the flags.
\<close>

definition same_policy :: "emulatorOptions \<Rightarrow> emulatorOptions \<Rightarrow> bool" where
  "same_policy a b \<longleftrightarrow>
     randomProjectID b = randomProjectID a \<and> randomInstanceID b = randomInstanceID a \<and>
     randomDatabaseID b = randomDatabaseID a \<and>
     disableCreateInstance b = disableCreateInstance a \<and>
     disableCreateDatabase b = disableCreateDatabase a \<and>
     disableBackendGuardrails b = disableBackendGuardrails a \<and>
     reuseExistingDatabase b = reuseExistingDatabase a \<and>
     schemaTeardown b = schemaTeardown a \<and> databaseDialect b = databaseDialect a \<and>
     setupDDLs b = setupDDLs a \<and> setupFileDescriptorSet b = setupFileDescriptorSet a \<and>
     setupDMLs b = setupDMLs a \<and> clientOptionsForClient b = clientOptionsForClient a \<and>
     gatewayFlags b = gatewayFlags a"

lemma same_policy_refl [simp]: "same_policy a a"
  by (simp add: same_policy_def)

lemma same_policy_trans: "same_policy a b \<Longrightarrow> same_policy b c \<Longrightarrow> same_policy a c"
  by (simp add: same_policy_def)

text \<open>The options after the random IDs and the defaults.\<close>

definition filledOptions ::
    "string \<Rightarrow> string \<Rightarrow> string \<Rightarrow> rng \<Rightarrow> emulatorOptions \<Rightarrow> emulatorOptions" where
  "filledOptions img project inst r opts =
     fillDefaults img project inst
       (fst (fillRandomDatabaseID (fillRandomInstanceID (fillRandomProjectID (opts, r)))))"

definition rng_project :: "emulatorOptions \<Rightarrow> rng \<Rightarrow> rng" where
  "rng_project opts r = (if randomProjectID opts then snd (generateRandomID r) else r)"

definition rng_instance :: "emulatorOptions \<Rightarrow> rng \<Rightarrow> rng" where
  "rng_instance opts r =
     (if randomInstanceID opts then snd (generateRandomID (rng_project opts r)) else rng_project opts r)"

definition final_projectID :: "string \<Rightarrow> rng \<Rightarrow> emulatorOptions \<Rightarrow> string" where
  "final_projectID project r opts =
     (if randomProjectID opts then fst (generateRandomID r) else cmp_Or (projectID opts) project)"

definition final_instanceID :: "string \<Rightarrow> rng \<Rightarrow> emulatorOptions \<Rightarrow> string" where
  "final_instanceID inst r opts =
     (if randomInstanceID opts then fst (generateRandomID (rng_project opts r)) else cmp_Or (instanceID opts) inst)"

definition final_databaseID :: "rng \<Rightarrow> emulatorOptions \<Rightarrow> string" where
  "final_databaseID r opts =
     (if randomDatabaseID opts \<and> \<not> randomDatabaseIDResolved opts
      then fst (generateRandomID (rng_instance opts r)) else cmp_Or (databaseID opts) DefaultDatabaseID)"

lemma fillRandomProjectID_eq:
  "fillRandomProjectID (opts, r) =
     (opts\<lparr>projectID := if randomProjectID opts then fst (generateRandomID r) else projectID opts\<rparr>,
      rng_project opts r)"
  by (simp add: fillRandomProjectID_def rng_project_def split: prod.splits)

lemma fillRandomInstanceID_eq:
  "fillRandomInstanceID (opts, r) =
     (opts\<lparr>instanceID := if randomInstanceID opts then fst (generateRandomID r) else instanceID opts\<rparr>,
      if randomInstanceID opts then snd (generateRandomID r) else r)"
  by (simp add: fillRandomInstanceID_def split: prod.splits)

lemma fillRandomDatabaseID_eq:
  "fst (fillRandomDatabaseID (opts, r)) =
     opts\<lparr>databaseID := if randomDatabaseID opts \<and> \<not> randomDatabaseIDResolved opts
             then fst (generateRandomID r) else databaseID opts,
          randomDatabaseIDResolved := randomDatabaseIDResolved opts \<or> randomDatabaseID opts\<rparr>"
  by (cases "randomDatabaseID opts"; cases "randomDatabaseIDResolved opts")
    (simp_all add: fillRandomDatabaseID_def split: prod.splits)

lemma generateRandomID_nonempty [simp]: "fst (generateRandomID r) \<noteq> []"
  using generateRandomID_format [of r "fst (generateRandomID r)" "snd (generateRandomID r)"] by auto

text \<open>The shape of the filled options: the image, the IDs and the resolved flag are set.\<close>

lemma filledOptions_eq:
  "filledOptions img project inst r opts =
     opts\<lparr>emulatorImage := cmp_Or (emulatorImage opts) img,
          projectID := final_projectID project r opts,
          instanceID := final_instanceID inst r opts,
          databaseID := final_databaseID r opts,
          randomDatabaseIDResolved := randomDatabaseIDResolved opts \<or> randomDatabaseID opts\<rparr>"
  by (simp add: filledOptions_def fillDefaults_def fillRandomProjectID_eq fillRandomInstanceID_eq
      fillRandomDatabaseID_eq final_projectID_def final_instanceID_def final_databaseID_def
      rng_instance_def)

lemma finishOptions_shape:
  assumes "finishOptions genv opts = Inr o'"
  shows "(\<exists>b cs. o' = opts\<lparr>containerProviderSet := b, containerCustomizers := cs\<rparr>) \<and>
    validateSetupFileDescriptorSet o' = None"
proof -
  from assms obtain o1 where o1: "applyContainerProviderEnv genv opts = Inr o1"
    and v: "validateSetupFileDescriptorSet o1 = None" and o': "o' = o1"
    by (auto simp: finishOptions_def split: sum.splits option.splits)
  have "\<exists>b cs. o1 = opts\<lparr>containerProviderSet := b, containerCustomizers := cs\<rparr>"
  proof (cases "o1 = opts")
    case True
    have "o1 = opts\<lparr>containerProviderSet := containerProviderSet opts,
        containerCustomizers := containerCustomizers opts\<rparr>"
      using True by simp
    then show ?thesis by blast
  next
    case False
    then show ?thesis using o1
      by (auto simp: applyContainerProviderEnv_def Let_def split: if_splits sum.splits)
  qed
  with v o' show ?thesis by blast
qed

text \<open>
  An ID asked for at random while one is given.  A random database ID that was resolved
  earlier is not such a conflict.
\<close>

definition id_conflict :: "emulatorOptions \<Rightarrow> bool" where
  "id_conflict opts \<longleftrightarrow>
     randomProjectID opts \<and> projectID opts \<noteq> [] \<or>
     randomInstanceID opts \<and> instanceID opts \<noteq> [] \<or>
     randomDatabaseID opts \<and> databaseID opts \<noteq> [] \<and> \<not> randomDatabaseIDResolved opts"

subsection \<open>The contract of a finalizer\<close>

text \<open>
  What the rest of the program relies on, for the emulator's finalizer and Omni's alike:
  accepted options are well formed, the policies are kept, an ID that was given is kept, and
  an unresolved random database ID is drawn, which an ID given at the same time prevents.
\<close>

locale option_finalizer =
  fixes finalize :: "(string \<Rightarrow> string) \<Rightarrow> rng \<Rightarrow> Option"
  assumes finalize_finalized: "finalize genv r opts = Inr o' \<Longrightarrow> finalized o'"
    and finalize_policy: "finalize genv r opts = Inr o' \<Longrightarrow> same_policy opts o'"
    and finalize_project:
      "finalize genv r opts = Inr o' \<Longrightarrow> projectID opts \<noteq> [] \<Longrightarrow> projectID o' = projectID opts"
    and finalize_instance:
      "finalize genv r opts = Inr o' \<Longrightarrow> instanceID opts \<noteq> [] \<Longrightarrow> instanceID o' = instanceID opts"
    and finalize_database:
      "finalize genv r opts = Inr o' \<Longrightarrow> databaseID opts \<noteq> [] \<Longrightarrow> databaseID o' = databaseID opts"
    and finalize_random_database:
      "finalize genv r opts = Inr o' \<Longrightarrow> randomDatabaseID opts \<Longrightarrow> \<not> randomDatabaseIDResolved opts
       \<Longrightarrow> databaseID opts = [] \<and> (\<exists>s. databaseID o' = fst (generateRandomID s))"
begin

definition apply_with_base :: "(string \<Rightarrow> string) \<Rightarrow> rng \<Rightarrow> emulatorOptions \<Rightarrow> Option list \<Rightarrow> emulatorOptions result" where
  "apply_with_base genv r base options =
     (case fold_result options base of Inl e \<Rightarrow> Inl e | Inr opts \<Rightarrow> finalize genv r opts)"

lemma apply_with_base_Inr:
  "apply_with_base genv r base options = Inr o' \<longleftrightarrow>
     (\<exists>opts. fold_result options base = Inr opts \<and> finalize genv r opts = Inr o')"
  by (auto simp: apply_with_base_def split: sum.splits)

lemma apply_with_base_finalized: "apply_with_base genv r base options = Inr o' \<Longrightarrow> finalized o'"
  by (auto simp: apply_with_base_Inr intro: finalize_finalized)

text \<open>
  A random database ID wanted together with a database ID that is still set is refused.
\<close>

lemma random_database_conflict:
  assumes "fold_result options base = Inr opts"
    and "randomDatabaseID opts" "\<not> randomDatabaseIDResolved opts" "databaseID opts \<noteq> []"
  shows "\<exists>e. apply_with_base genv r base options = Inl e"
  using assms finalize_random_database
  by (cases "finalize genv r opts") (auto simp: apply_with_base_def)

text \<open>Options that keep the IDs and the creation flags reopen the database of the base.\<close>

lemma apply_with_base_same_database:
  assumes "apply_with_base genv r base options = Inr o'"
    and "\<And>f x y. f \<in> set options \<Longrightarrow> f x = Inr y \<Longrightarrow>
      projectID y = projectID x \<and> instanceID y = instanceID x \<and> databaseID y = databaseID x \<and>
      disableCreateInstance y = disableCreateInstance x \<and> disableCreateDatabase y = disableCreateDatabase x"
    and "projectID base \<noteq> []" "instanceID base \<noteq> []" "databaseID base \<noteq> []"
  shows "opts_DatabasePath o' = opts_DatabasePath base \<and>
    disableCreateInstance o' = disableCreateInstance base \<and>
    disableCreateDatabase o' = disableCreateDatabase base"
proof -
  from assms(1) obtain opts where opts: "fold_result options base = Inr opts"
    and fin: "finalize genv r opts = Inr o'"
    by (auto simp: apply_with_base_Inr)
  let ?P = "\<lambda>x. projectID x = projectID base \<and> instanceID x = instanceID base \<and>
      databaseID x = databaseID base \<and> disableCreateInstance x = disableCreateInstance base \<and>
      disableCreateDatabase x = disableCreateDatabase base"
  have "?P opts"
    by (rule fold_result_invariant [where P = ?P, OF _ _ opts]) (use assms(2) in force, simp)
  then show ?thesis
    using finalize_project [OF fin] finalize_instance [OF fin] finalize_database [OF fin]
      finalize_policy [OF fin] assms(3-5)
    by (simp add: opts_DatabasePath_def same_policy_def)
qed

end

text \<open>The laws of the contract for one run, and the common proof for both finalizers.\<close>

definition finalizer_laws :: "emulatorOptions \<Rightarrow> emulatorOptions \<Rightarrow> bool" where
  "finalizer_laws opts o' \<longleftrightarrow>
     finalized o' \<and> same_policy opts o' \<and>
     (projectID opts \<noteq> [] \<longrightarrow> projectID o' = projectID opts) \<and>
     (instanceID opts \<noteq> [] \<longrightarrow> instanceID o' = instanceID opts) \<and>
     (databaseID opts \<noteq> [] \<longrightarrow> databaseID o' = databaseID opts) \<and>
     (randomDatabaseID opts \<and> \<not> randomDatabaseIDResolved opts \<longrightarrow>
        databaseID opts = [] \<and> (\<exists>s. databaseID o' = fst (generateRandomID s)))"

lemma finish_filled:
  assumes "\<not> id_conflict opts" and "valid_IDs (filledOptions img project inst r opts)"
    and "finishOptions genv (filledOptions img project inst r opts\<lparr>clientConfig := c\<rparr>) = Inr o'"
    and "img \<noteq> []" and "c \<noteq> None"
  shows "finalizer_laws opts o'"
proof -
  obtain b cs where o': "o' = filledOptions img project inst r opts
      \<lparr>clientConfig := c, containerProviderSet := b, containerCustomizers := cs\<rparr>"
    using finishOptions_shape [OF assms(3)] by auto
  have "validateSetupFileDescriptorSet o' = None"
    using finishOptions_shape [OF assms(3)] by blast
  moreover have "valid_IDs o'"
    using assms(2) by (simp add: valid_IDs_def o')
  moreover have "emulatorImage o' \<noteq> []" "clientConfig o' \<noteq> None"
    "randomDatabaseID o' \<longrightarrow> randomDatabaseIDResolved o'"
    using assms(4,5) by (simp_all add: o' filledOptions_eq)
  ultimately have "finalized o'" by (simp add: finalized_def)
  moreover have "same_policy opts o'"
    by (simp add: same_policy_def o' filledOptions_eq)
  ultimately show ?thesis
    using assms(1)
    by (auto simp: finalizer_laws_def id_conflict_def o' filledOptions_eq final_projectID_def
        final_instanceID_def final_databaseID_def)
qed

lemma emulatorClientConfig_Some [simp]: "emulatorClientConfig c \<noteq> None"
  by (simp add: emulatorClientConfig_def split: option.splits)

lemma finalizeOptions_accepted:
  assumes "\<not> id_conflict opts"
  shows "finalizeOptions genv r opts =
    (case validateResourceIDs (filledOptions DefaultEmulatorImage DefaultProjectID DefaultInstanceID r opts) of
       Some e \<Rightarrow> Inl e
     | None \<Rightarrow> finishOptions genv (filledOptions DefaultEmulatorImage DefaultProjectID DefaultInstanceID r opts
         \<lparr>clientConfig := emulatorClientConfig (clientConfig opts)\<rparr>))"
proof -
  let ?f = "filledOptions DefaultEmulatorImage DefaultProjectID DefaultInstanceID r opts"
  have "clientConfig ?f = clientConfig opts" by (simp add: filledOptions_eq)
  moreover from assms have "(randomProjectID opts \<and> projectID opts \<noteq> []) = False"
    "(randomInstanceID opts \<and> instanceID opts \<noteq> []) = False"
    "(randomDatabaseID opts \<and> databaseID opts \<noteq> [] \<and> \<not> randomDatabaseIDResolved opts) = False"
    by (auto simp: id_conflict_def)
  ultimately show ?thesis
    unfolding finalizeOptions_def filledOptions_def Let_def by (simp only: if_False)
qed

lemma finalizeOptions_conflict: "id_conflict opts \<Longrightarrow> \<exists>e. finalizeOptions genv r opts = Inl e"
  by (auto simp: finalizeOptions_def id_conflict_def)

lemma finalizeOptions_Inr:
  assumes "finalizeOptions genv r opts = Inr o'"
  shows "\<not> id_conflict opts"
    "valid_IDs (filledOptions DefaultEmulatorImage DefaultProjectID DefaultInstanceID r opts)"
    "finishOptions genv (filledOptions DefaultEmulatorImage DefaultProjectID DefaultInstanceID r opts
       \<lparr>clientConfig := emulatorClientConfig (clientConfig opts)\<rparr>) = Inr o'"
proof -
  from assms finalizeOptions_conflict [of opts genv r] show c: "\<not> id_conflict opts" by auto
  with assms show "valid_IDs (filledOptions DefaultEmulatorImage DefaultProjectID DefaultInstanceID r opts)"
    "finishOptions genv (filledOptions DefaultEmulatorImage DefaultProjectID DefaultInstanceID r opts
       \<lparr>clientConfig := emulatorClientConfig (clientConfig opts)\<rparr>) = Inr o'"
    by (simp_all add: finalizeOptions_accepted flip: validateResourceIDs_None_iff split: option.splits)
qed

lemma finalizeOptions_laws:
  assumes "finalizeOptions genv r opts = Inr o'"
  shows "finalizer_laws opts o'"
  using finalizeOptions_Inr [OF assms]
  by (intro finish_filled [where img = DefaultEmulatorImage and project = DefaultProjectID
        and inst = DefaultInstanceID and r = r and c = "emulatorClientConfig (clientConfig opts)"])
    (simp_all add: DefaultEmulatorImage_def)

interpretation emu: option_finalizer finalizeOptions
  by unfold_locales (use finalizeOptions_laws in \<open>auto simp: finalizer_laws_def\<close>)

lemma applyOptionsWithBase_eq: "emu.apply_with_base = applyOptionsWithBase"
  by (intro ext) (simp add: emu.apply_with_base_def applyOptionsWithBase_def)

lemma applyOptions_eq: "applyOptions genv r options = applyOptionsWithBase genv r zeroOptions options"
  by (simp add: applyOptions_def applyOptionsWithBase_def)

end
