(* ===== verification/Package_Options.thy ===== *)
theory Package_Options
  imports Finalize
begin

section \<open>The options of the package, as a set\<close>

text \<open>
  The documentation of \<open>Option\<close> says that only the helpers of the package are supported.
  \<open>package_option\<close> is that set of functions, so that a property of every option list is an
  induction over the list with one case per helper.  \<open>neutral_option\<close> are the helpers that
  touch neither the IDs nor the creation flags.
\<close>

inductive neutral_option :: "Option \<Rightarrow> bool" where
  "neutral_option (WithContainerCustomizers cs)"
| "neutral_option (WithContainerProvider p)"
| "neutral_option EnableFaultInjection"
| "neutral_option EnableLogRequests"
| "neutral_option EnableEmulatorStdoutCopy"
| "neutral_option DisableQueryNullFilteredIndexCheck"
| "neutral_option (WithMaxDatabasesPerInstance n)"
| "neutral_option (WithChangeStreamPartitionTokenAliveSeconds n)"
| "neutral_option (WithClientOptionsForClient os)"
| "neutral_option (WithDatabaseDialect d)"
| "neutral_option (WithContainerImage img)"
| "neutral_option (WithEmulatorImage img)"
| "neutral_option DisableBackendGuardrails"
| "neutral_option (WithClientConfig c)"
| "neutral_option (WithSetupDDLs ddls)"
| "neutral_option (WithSetupFileDescriptorSet marshal fds)"
| "neutral_option (WithSetupRawFileDescriptorSet raw)"
| "neutral_option (WithSetupRawDMLs raws)"
| "neutral_option (WithSetupDMLs dmls)"
| "neutral_option ForceSchemaTeardown"
| "neutral_option SkipSchemaTeardown"
| "neutral_option WithStrictTeardown"

inductive package_option :: "Option \<Rightarrow> bool" where
  neutral: "neutral_option f \<Longrightarrow> package_option f"
| "package_option (WithProjectID i)"
| "package_option WithRandomProjectID"
| "package_option WithoutRandomProjectID"
| "package_option (WithInstanceID i)"
| "package_option WithRandomInstanceID"
| "package_option WithoutRandomInstanceID"
| "package_option (WithDatabaseID i)"
| "package_option WithRandomDatabaseID"
| "package_option WithoutRandomDatabaseID"
| "package_option DisableAutoConfig"
| "package_option EnableAutoConfig"
| "package_option EnableInstanceAutoConfigOnly"
| "package_option EnableDatabaseAutoConfigOnly"

text \<open>The identity of the target and whether it is created.\<close>

definition keeps_identity :: "emulatorOptions \<Rightarrow> emulatorOptions \<Rightarrow> bool" where
  "keeps_identity x y \<longleftrightarrow>
     projectID y = projectID x \<and> instanceID y = instanceID x \<and> databaseID y = databaseID x \<and>
     randomProjectID y = randomProjectID x \<and> randomInstanceID y = randomInstanceID x \<and>
     randomDatabaseID y = randomDatabaseID x \<and>
     randomDatabaseIDResolved y = randomDatabaseIDResolved x \<and>
     disableCreateInstance y = disableCreateInstance x \<and>
     disableCreateDatabase y = disableCreateDatabase x \<and>
     reuseExistingDatabase y = reuseExistingDatabase x"

lemma keeps_identity_refl [simp]: "keeps_identity x x"
  by (simp add: keeps_identity_def)

lemma keeps_identity_trans: "keeps_identity x y \<Longrightarrow> keeps_identity y z \<Longrightarrow> keeps_identity x z"
  by (simp add: keeps_identity_def)

lemma neutral_keeps_identity: "neutral_option f \<Longrightarrow> f x = Inr y \<Longrightarrow> keeps_identity x y"
  by (induction rule: neutral_option.induct)
    (auto simp: option_defs keeps_identity_def Let_def split: if_splits option.splits sum.splits)

lemma neutral_list_keeps_identity:
  assumes "\<forall>f \<in> set fs. neutral_option f" and "fold_result fs x = Inr y"
  shows "keeps_identity x y"
  by (rule fold_result_invariant [where P = "keeps_identity x", OF _ _ assms(2)])
    (use assms(1) neutral_keeps_identity keeps_identity_trans in blast, simp)

text \<open>
  Options only add container customizers, client options and gateway flags, never turn the
  reuse of an existing database back on, and mark the provider only with a customizer for it.
\<close>

definition option_grows :: "emulatorOptions \<Rightarrow> emulatorOptions \<Rightarrow> bool" where
  "option_grows x y \<longleftrightarrow>
     prefix (containerCustomizers x) (containerCustomizers y) \<and>
     prefix (clientOptionsForClient x) (clientOptionsForClient y) \<and>
     prefix (gatewayFlags x) (gatewayFlags y) \<and>
     (reuseExistingDatabase y \<longrightarrow> reuseExistingDatabase x) \<and>
     (disableBackendGuardrails x \<longrightarrow> disableBackendGuardrails y)"

lemma neutral_option_grows: "neutral_option f \<Longrightarrow> f x = Inr y \<Longrightarrow> option_grows x y"
  by (induction rule: neutral_option.induct)
    (auto simp: option_defs option_grows_def Let_def split: if_splits option.splits sum.splits)

lemma package_option_grows: "package_option f \<Longrightarrow> f x = Inr y \<Longrightarrow> option_grows x y"
proof (induction rule: package_option.induct)
  case (neutral f)
  then show ?case by (rule neutral_option_grows)
qed (auto simp: option_defs option_grows_def Let_def)

lemma option_grows_trans: "option_grows x y \<Longrightarrow> option_grows y z \<Longrightarrow> option_grows x z"
  by (auto simp: option_grows_def intro: prefix_order.order_trans)

lemma package_list_grows:
  assumes "\<forall>f \<in> set fs. package_option f" and "fold_result fs x = Inr y"
  shows "option_grows x y"
  by (rule fold_result_invariant [where P = "option_grows x", OF _ _ assms(2)])
    (use assms(1) package_option_grows option_grows_trans in blast, simp add: option_grows_def)

text \<open>
  A resolved random database ID is one that was generated: every option that replaces the ID
  clears the flag.
\<close>

definition generated_ID :: "string \<Rightarrow> bool" where
  "generated_ID i \<longleftrightarrow> length i = 30 \<and> isLowercaseLetter (hd i) \<and> list_all isLowercaseLetterOrDigit i"

definition resolved_is_generated :: "emulatorOptions \<Rightarrow> bool" where
  "resolved_is_generated x \<longleftrightarrow> (randomDatabaseIDResolved x \<longrightarrow> generated_ID (databaseID x))"

lemma generateRandomID_generated [simp]: "generated_ID (fst (generateRandomID r))"
  using generateRandomID_format [of r "fst (generateRandomID r)" "snd (generateRandomID r)"]
  by (simp add: generated_ID_def)

lemma package_option_resolved:
  "package_option f \<Longrightarrow> resolved_is_generated x \<Longrightarrow> f x = Inr y \<Longrightarrow> resolved_is_generated y"
proof (induction rule: package_option.induct)
  case (neutral f)
  then show ?case
    using neutral_keeps_identity [of f x y]
    by (simp add: resolved_is_generated_def keeps_identity_def)
qed (auto simp: option_defs resolved_is_generated_def Let_def)

lemma package_list_resolved:
  assumes "\<forall>f \<in> set fs. package_option f" and "resolved_is_generated x" and "fold_result fs x = Inr y"
  shows "resolved_is_generated y"
  by (rule fold_result_invariant [where P = resolved_is_generated, OF _ assms(2,3)])
    (use assms(1) package_option_resolved in blast)

text \<open>
  While the database of the runtime is reused, it is not created, whatever the options were.
\<close>

definition reuse_is_closed :: "string \<Rightarrow> emulatorOptions \<Rightarrow> bool" where
  "reuse_is_closed d x \<longleftrightarrow>
     (reuseExistingDatabase x \<longrightarrow> disableCreateDatabase x \<and> databaseID x = d)"

lemma package_option_reuse:
  "package_option f \<Longrightarrow> reuse_is_closed d x \<Longrightarrow> f x = Inr y \<Longrightarrow> reuse_is_closed d y"
proof (induction rule: package_option.induct)
  case (neutral f)
  then show ?case
    using neutral_keeps_identity [of f x y]
    by (simp add: reuse_is_closed_def keeps_identity_def)
qed (auto simp: option_defs reuse_is_closed_def Let_def)

lemma package_list_reuse:
  assumes "\<forall>f \<in> set fs. package_option f" and "reuse_is_closed d x" and "fold_result fs x = Inr y"
  shows "reuse_is_closed d y"
  by (rule fold_result_invariant [where P = "reuse_is_closed d", OF _ assms(2,3)])
    (use assms(1) package_option_reuse in blast)

end
