(* ===== verification/Omni_Options.thy ===== *)
theory Omni_Options
  imports Package_Options
begin

section \<open>Omni's options (omni.go)\<close>

text \<open>
  The image-dependent start arguments, the client configuration and the finalization with
  Omni's guardrails.
\<close>

definition defaultOmniImage :: string where
  "defaultOmniImage = ''us-docker.pkg.dev/spanner-omni/images/spanner-omni:2026.r4-lts''"
definition defaultOmniProjectID :: string where "defaultOmniProjectID = ''default''"
definition defaultOmniInstanceID :: string where "defaultOmniInstanceID = ''default''"
definition omniStartupTimeout :: Duration where "omniStartupTimeout = 5 * time_Minute"

lemmas omni_defaults = defaultOmniImage_def defaultOmniProjectID_def defaultOmniInstanceID_def

subsection \<open>The pre-GA tag\<close>

text \<open>
  The regular expression \<^verbatim>\<open>(?:^|[._-])2026[.-]r[1-3](?:$|[._-])\<close>, searched anywhere in the tag:
  at each position that is the start of the tag or follows a separator, try the rest.
\<close>

definition separator :: "char \<Rightarrow> bool" where
  "separator c = (c = CHR ''.'' \<or> c = CHR ''_'' \<or> c = CHR ''-'')"

fun preGA_version :: "string \<Rightarrow> bool" where
  "preGA_version (s # r # d # rest) =
     ((s = CHR ''.'' \<or> s = CHR ''-'') \<and> r = CHR ''r'' \<and>
      (d = CHR ''1'' \<or> d = CHR ''2'' \<or> d = CHR ''3'') \<and> (rest = [] \<or> separator (hd rest)))"
| "preGA_version _ = False"

definition preGA_here :: "string \<Rightarrow> bool" where
  "preGA_here s = (case strip ''2026'' s of Some rest \<Rightarrow> preGA_version rest | None \<Rightarrow> False)"

fun preGA_search :: "bool \<Rightarrow> string \<Rightarrow> bool" where
  "preGA_search boundary [] = False"
| "preGA_search boundary (c # s) = (boundary \<and> preGA_here (c # s) \<or> preGA_search (separator c) s)"

definition preGAOmniImageTag_MatchString :: "string \<Rightarrow> bool" where
  "preGAOmniImageTag_MatchString tag = preGA_search True tag"

definition defaultOmniStartArgs :: "string \<Rightarrow> string list" where
  "defaultOmniStartArgs img =
     (let img = fst (cut img CHR ''@'');
          tagIndex = lastIndex img CHR '':''
      in if tagIndex > lastIndex img CHR ''/'' \<and>
            preGAOmniImageTag_MatchString (drop (nat (tagIndex + 1)) img)
         then [] else [''--listen-addresses=0.0.0.0''])"

text \<open>The language of the regular expression, without a search order.\<close>

definition preGA_tag :: "string \<Rightarrow> bool" where
  "preGA_tag tag \<longleftrightarrow> (\<exists>pre s d post.
     tag = pre @ ''2026'' @ [s, CHR ''r'', d] @ post \<and>
     (pre = [] \<or> separator (last pre)) \<and> (s = CHR ''.'' \<or> s = CHR ''-'') \<and>
     (d = CHR ''1'' \<or> d = CHR ''2'' \<or> d = CHR ''3'') \<and> (post = [] \<or> separator (hd post)))"

lemma preGA_version_iff:
  "preGA_version t \<longleftrightarrow> (\<exists>s d post. t = [s, CHR ''r'', d] @ post \<and> (s = CHR ''.'' \<or> s = CHR ''-'') \<and>
     (d = CHR ''1'' \<or> d = CHR ''2'' \<or> d = CHR ''3'') \<and> (post = [] \<or> separator (hd post)))"
  by (cases t rule: preGA_version.cases) auto

lemma preGA_here_iff: "preGA_here t \<longleftrightarrow> (\<exists>rest. t = ''2026'' @ rest \<and> preGA_version rest)"
  by (auto simp: preGA_here_def strip_Some_iff split: option.splits)

lemma preGA_search_iff:
  "preGA_search b t \<longleftrightarrow>
     (\<exists>pre rest. t = pre @ rest \<and> preGA_here rest \<and> (if pre = [] then b else separator (last pre)))"
proof (induction b t rule: preGA_search.induct)
  case (1 b)
  then show ?case by (simp add: preGA_here_iff)
next
  case (2 b c s)
  show ?case (is "?l \<longleftrightarrow> ?r")
  proof
    assume ?l
    then consider "b" "preGA_here (c # s)" | "preGA_search (separator c) s" by auto
    then show ?r
    proof cases
      case 1
      then show ?thesis by (intro exI [of _ "[]"] exI [of _ "c # s"]) simp
    next
      case 2
      then obtain pre rest where "s = pre @ rest" "preGA_here rest"
        "if pre = [] then separator c else separator (last pre)"
        using "2.IH" by blast
      then show ?thesis by (intro exI [of _ "c # pre"] exI [of _ rest]) (auto split: if_splits)
    qed
  next
    assume ?r
    then obtain pre rest where r: "c # s = pre @ rest" "preGA_here rest"
      "if pre = [] then b else separator (last pre)" by blast
    show ?l
    proof (cases pre)
      case Nil
      with r have "b" "preGA_here (c # s)" by simp_all
      then show ?thesis by simp
    next
      case (Cons c' pre')
      with r have "s = pre' @ rest" "if pre' = [] then separator c else separator (last pre')"
        by (auto split: if_splits)
      with r(2) "2.IH" have "preGA_search (separator c) s" by blast
      then show ?thesis by simp
    qed
  qed
qed

lemma preGAOmniImageTag_iff: "preGAOmniImageTag_MatchString tag \<longleftrightarrow> preGA_tag tag"
proof -
  have "preGAOmniImageTag_MatchString tag \<longleftrightarrow>
      (\<exists>pre rest. tag = pre @ ''2026'' @ rest \<and> preGA_version rest \<and> (pre = [] \<or> separator (last pre)))"
    by (auto simp: preGAOmniImageTag_MatchString_def preGA_search_iff preGA_here_iff split: if_splits)
  also have "\<dots> \<longleftrightarrow> preGA_tag tag"
    unfolding preGA_tag_def preGA_version_iff by blast
  finally show ?thesis .
qed

subsection \<open>Image references\<close>

text \<open>
  A reference with a tag, with or without a digest after it: only the tag decides.
\<close>

lemma defaultOmniStartArgs_tagged:
  assumes "CHR ''@'' \<notin> set repo" and "\<forall>c \<in> set tag. c \<noteq> CHR ''@'' \<and> c \<noteq> CHR ''/'' \<and> c \<noteq> CHR '':''"
    and "rest = [] \<or> hd rest = CHR ''@''"
  shows "defaultOmniStartArgs (repo @ CHR '':'' # tag @ rest) =
    (if preGA_tag tag then [] else [''--listen-addresses=0.0.0.0''])"
proof -
  let ?i = "repo @ CHR '':'' # tag"
  have "CHR ''@'' \<notin> set ?i" using assms(1,2) by auto
  then have cut: "fst (cut (?i @ rest) CHR ''@'') = ?i"
    using assms(3) by (intro cut_before)
  have colon: "lastIndex ?i CHR '':'' = int (length repo)"
    using assms(2) by (intro lastIndex_append) auto
  have "lastIndex ?i CHR ''/'' < int (length repo)"
  proof (cases "CHR ''/'' \<in> set repo")
    case True
    then obtain a b where ab: "repo = a @ CHR ''/'' # b" "CHR ''/'' \<notin> set b"
      by (meson split_list_last)
    then have "lastIndex (a @ CHR ''/'' # (b @ CHR '':'' # tag)) CHR ''/'' = int (length a)"
      using assms(2) by (intro lastIndex_append) auto
    with ab show ?thesis by simp
  next
    case False
    then have "CHR ''/'' \<notin> set ?i" using assms(2) by auto
    then show ?thesis by (simp add: lastIndex_absent)
  qed
  with cut colon show ?thesis
    by (simp add: defaultOmniStartArgs_def preGAOmniImageTag_iff nat_add_distrib)
qed

text \<open>A reference whose last segment has no colon has no tag, and gets the GA arguments.\<close>

lemma defaultOmniStartArgs_untagged:
  assumes "CHR ''@'' \<notin> set repo" "CHR ''@'' \<notin> set name" "CHR '':'' \<notin> set name" "CHR ''/'' \<notin> set name"
    and "rest = [] \<or> hd rest = CHR ''@''"
  shows "defaultOmniStartArgs (repo @ CHR ''/'' # name @ rest) = [''--listen-addresses=0.0.0.0'']"
proof -
  let ?i = "repo @ CHR ''/'' # name"
  have "CHR ''@'' \<notin> set ?i" using assms(1,2) by auto
  then have cut: "fst (cut (?i @ rest) CHR ''@'') = ?i"
    using assms(5) by (intro cut_before)
  have slash: "lastIndex ?i CHR ''/'' = int (length repo)"
    by (rule lastIndex_append [OF assms(4)])
  have "lastIndex ?i CHR '':'' < int (length repo)"
  proof (cases "CHR '':'' \<in> set repo")
    case True
    then obtain a b where ab: "repo = a @ CHR '':'' # b" "CHR '':'' \<notin> set b"
      by (meson split_list_last)
    then have "lastIndex (a @ CHR '':'' # (b @ CHR ''/'' # name)) CHR '':'' = int (length a)"
      using assms(3) by (intro lastIndex_append) auto
    with ab show ?thesis by simp
  next
    case False
    then have "CHR '':'' \<notin> set ?i" using assms(3) by auto
    then show ?thesis by (simp add: lastIndex_absent)
  qed
  with cut slash show ?thesis
    by (simp add: defaultOmniStartArgs_def)
qed

subsection \<open>Client configuration\<close>

definition RecommendedOmniClientConfig :: ClientConfig where
  "RecommendedOmniClientConfig =
     zeroClientConfig\<lparr>DisableNativeMetrics := True, IsExperimentalHost := True\<rparr>"

definition finalizeManagedOmniClientConfig :: "ClientConfig option \<Rightarrow> bool \<Rightarrow> ClientConfig option" where
  "finalizeManagedOmniClientConfig config disableGuardrails =
     (case config of
        None \<Rightarrow> Some RecommendedOmniClientConfig
      | Some cfg \<Rightarrow>
          Some (if \<not> disableGuardrails
                then cfg\<lparr>DisableNativeMetrics := DisableNativeMetrics RecommendedOmniClientConfig,
                         IsExperimentalHost := IsExperimentalHost RecommendedOmniClientConfig\<rparr>
                else cfg))"

lemma finalizeManagedOmniClientConfig_Some [simp]: "finalizeManagedOmniClientConfig c g \<noteq> None"
  by (simp add: finalizeManagedOmniClientConfig_def split: option.splits)

subsection \<open>Finalization with guardrails\<close>

definition omniGuardrailError :: "farg \<Rightarrow> string \<Rightarrow> error" where
  "omniGuardrailError problem suggestion = Errorf ''spanemuboost: %s; %s'' [problem, AStr suggestion]"

definition finalizeOmniOptions :: "(string \<Rightarrow> string) \<Rightarrow> rng \<Rightarrow> Option" where
  "finalizeOmniOptions genv r opts =
     (if randomProjectID opts \<and> projectID opts \<noteq> [] then
        Inl (Errorf ''WithRandomProjectID() and WithProjectID() are mutually exclusive'' [])
      else if randomInstanceID opts \<and> instanceID opts \<noteq> [] then
        Inl (Errorf ''WithRandomInstanceID() and WithInstanceID() are mutually exclusive'' [])
      else if randomProjectID opts \<and> \<not> disableBackendGuardrails opts then
        Inl (omniGuardrailError (AStr ''WithRandomProjectID() is unsupported for Spanner Omni single-server because the deployment uses a fixed project'')
               ''use the built-in default project, or DisableBackendGuardrails() to bypass this validation'')
      else let (opts, r) = fillRandomProjectID (opts, r) in
      if randomInstanceID opts \<and> \<not> disableBackendGuardrails opts then
        Inl (omniGuardrailError (AStr ''WithRandomInstanceID() is unsupported for Spanner Omni single-server because the deployment uses a fixed instance'')
               ''use the built-in default instance, or DisableBackendGuardrails() to bypass this validation'')
      else let (opts, r) = fillRandomInstanceID (opts, r) in
      if \<not> disableBackendGuardrails opts \<and> projectID opts \<noteq> [] \<and> projectID opts \<noteq> defaultOmniProjectID then
        Inl (omniGuardrailError (ASprintf ''WithProjectID(%q) is unsupported for Spanner Omni single-server; only %q is known to work''
                 [AStr (projectID opts), AStr defaultOmniProjectID])
               ''use the built-in default project, or DisableBackendGuardrails() to bypass this validation'')
      else if \<not> disableBackendGuardrails opts \<and> instanceID opts \<noteq> [] \<and> instanceID opts \<noteq> defaultOmniInstanceID then
        Inl (omniGuardrailError (ASprintf ''WithInstanceID(%q) is unsupported for Spanner Omni single-server; only %q is known to work''
                 [AStr (instanceID opts), AStr defaultOmniInstanceID])
               ''use the built-in default instance, or DisableBackendGuardrails() to bypass this validation'')
      else if \<not> disableCreateInstance opts \<and> \<not> disableBackendGuardrails opts then
        Inl (omniGuardrailError (AStr ''instance auto-configuration is unsupported for Spanner Omni single-server because the built-in default instance cannot be created, updated, or deleted'')
               ''use the default behavior or EnableDatabaseAutoConfigOnly(), or DisableBackendGuardrails() to bypass this validation'')
      else if length (gatewayFlags opts) > 0 \<and> \<not> disableBackendGuardrails opts then
        Inl (omniGuardrailError (ASprintf ''emulator gateway flag options are unsupported for Spanner Omni; got %v'' [AStrs (gatewayFlags opts)])
               ''remove the emulator-only Option helpers (e.g. EnableFaultInjection, EnableLogRequests), or DisableBackendGuardrails() to bypass this validation'')
      else if randomDatabaseID opts \<and> databaseID opts \<noteq> [] \<and> \<not> randomDatabaseIDResolved opts then
        Inl (Errorf ''WithRandomDatabaseID() and WithDatabaseID() are mutually exclusive'' [])
      else let
          opts = fst (fillRandomDatabaseID (opts, r));
          opts = fillDefaults defaultOmniImage defaultOmniProjectID defaultOmniInstanceID opts
        in case validateResourceIDs opts of
             Some e \<Rightarrow> Inl e
           | None \<Rightarrow> finishOptions genv
               (opts\<lparr>clientConfig := finalizeManagedOmniClientConfig (clientConfig opts) (disableBackendGuardrails opts)\<rparr>))"

definition applyOmniOptionsWithBase ::
    "(string \<Rightarrow> string) \<Rightarrow> rng \<Rightarrow> emulatorOptions \<Rightarrow> Option list \<Rightarrow> emulatorOptions result" where
  "applyOmniOptionsWithBase genv r base options =
     (case fold_result options base of Inl e \<Rightarrow> Inl e | Inr opts \<Rightarrow> finalizeOmniOptions genv r opts)"

definition applyOmniOptions :: "(string \<Rightarrow> string) \<Rightarrow> rng \<Rightarrow> Option list \<Rightarrow> emulatorOptions result" where
  "applyOmniOptions genv r options =
     (case fold_result options (zeroOptions\<lparr>disableCreateInstance := True\<rparr>) of
        Inl e \<Rightarrow> Inl e | Inr opts \<Rightarrow> finalizeOmniOptions genv r opts)"

text \<open>What the guardrails demand of the options before the defaults are filled in.\<close>

definition omni_guarded :: "emulatorOptions \<Rightarrow> bool" where
  "omni_guarded opts \<longleftrightarrow>
     \<not> randomProjectID opts \<and> \<not> randomInstanceID opts \<and>
     projectID opts \<in> {[], defaultOmniProjectID} \<and> instanceID opts \<in> {[], defaultOmniInstanceID} \<and>
     disableCreateInstance opts \<and> gatewayFlags opts = []"

text \<open>
  The whole function in one equation: an error when an exclusion or a guardrail is violated,
  else the same filling, validation and end as for the emulator, with Omni's defaults.
\<close>

definition omniFilled :: "rng \<Rightarrow> emulatorOptions \<Rightarrow> emulatorOptions" where
  "omniFilled r opts =
     (let f = filledOptions defaultOmniImage defaultOmniProjectID defaultOmniInstanceID r opts
      in f\<lparr>clientConfig := finalizeManagedOmniClientConfig (clientConfig opts) (disableBackendGuardrails opts)\<rparr>)"

lemma fillRandom_selectors:
  "randomInstanceID (fst (fillRandomProjectID (opts, r))) = randomInstanceID opts"
  "disableBackendGuardrails (fst (fillRandomProjectID (opts, r))) = disableBackendGuardrails opts"
  "disableBackendGuardrails (fst (fillRandomInstanceID (fillRandomProjectID (opts, r)))) = disableBackendGuardrails opts"
  "disableCreateInstance (fst (fillRandomInstanceID (fillRandomProjectID (opts, r)))) = disableCreateInstance opts"
  "gatewayFlags (fst (fillRandomInstanceID (fillRandomProjectID (opts, r)))) = gatewayFlags opts"
  "randomDatabaseID (fst (fillRandomInstanceID (fillRandomProjectID (opts, r)))) = randomDatabaseID opts"
  "databaseID (fst (fillRandomInstanceID (fillRandomProjectID (opts, r)))) = databaseID opts"
  "randomDatabaseIDResolved (fst (fillRandomInstanceID (fillRandomProjectID (opts, r)))) = randomDatabaseIDResolved opts"
  "\<not> randomProjectID opts \<Longrightarrow> projectID (fst (fillRandomInstanceID (fillRandomProjectID (opts, r)))) = projectID opts"
  "\<not> randomInstanceID opts \<Longrightarrow> instanceID (fst (fillRandomInstanceID (fillRandomProjectID (opts, r)))) = instanceID opts"
  by (simp_all add: fillRandomProjectID_eq fillRandomInstanceID_eq)

lemma finalizeOmniOptions_accepted:
  assumes "\<not> id_conflict opts" and "disableBackendGuardrails opts \<or> omni_guarded opts"
  shows "finalizeOmniOptions genv r opts =
    (case validateResourceIDs (filledOptions defaultOmniImage defaultOmniProjectID defaultOmniInstanceID r opts) of
       Some e \<Rightarrow> Inl e | None \<Rightarrow> finishOptions genv (omniFilled r opts))"
proof -
  let ?X = "fillRandomProjectID (opts, r)"
  let ?Y = "fillRandomInstanceID ?X"
  let ?f = "filledOptions defaultOmniImage defaultOmniProjectID defaultOmniInstanceID r opts"
  have f: "fillDefaults defaultOmniImage defaultOmniProjectID defaultOmniInstanceID
      (fst (fillRandomDatabaseID (fst ?Y, snd ?Y))) = ?f"
    by (simp add: filledOptions_def)
  have fs: "clientConfig ?f = clientConfig opts" "disableBackendGuardrails ?f = disableBackendGuardrails opts"
    by (simp_all add: filledOptions_eq)
  have c:
    "(randomProjectID opts \<and> projectID opts \<noteq> []) = False"
    "(randomInstanceID opts \<and> instanceID opts \<noteq> []) = False"
    "(randomProjectID opts \<and> \<not> disableBackendGuardrails opts) = False"
    "(randomInstanceID (fst ?X) \<and> \<not> disableBackendGuardrails (fst ?X)) = False"
    "(\<not> disableBackendGuardrails (fst ?Y) \<and> projectID (fst ?Y) \<noteq> [] \<and> projectID (fst ?Y) \<noteq> defaultOmniProjectID) = False"
    "(\<not> disableBackendGuardrails (fst ?Y) \<and> instanceID (fst ?Y) \<noteq> [] \<and> instanceID (fst ?Y) \<noteq> defaultOmniInstanceID) = False"
    "(\<not> disableCreateInstance (fst ?Y) \<and> \<not> disableBackendGuardrails (fst ?Y)) = False"
    "(length (gatewayFlags (fst ?Y)) > 0 \<and> \<not> disableBackendGuardrails (fst ?Y)) = False"
    "(randomDatabaseID (fst ?Y) \<and> databaseID (fst ?Y) \<noteq> [] \<and> \<not> randomDatabaseIDResolved (fst ?Y)) = False"
    using assms unfolding id_conflict_def omni_guarded_def by (auto simp: fillRandom_selectors)
  show ?thesis
    unfolding finalizeOmniOptions_def Let_def split_beta prod.collapse c if_False
    unfolding f [unfolded prod.collapse] fs omniFilled_def Let_def ..
qed

lemma refuse_if_iff: "(\<exists>e. (if c then Inl x else y) = Inl e) \<longleftrightarrow> c \<or> (\<exists>e. y = Inl e)"
  by auto

lemma finalizeOmniOptions_refused:
  assumes "id_conflict opts \<or> \<not> disableBackendGuardrails opts \<and> \<not> omni_guarded opts"
  shows "\<exists>e. finalizeOmniOptions genv r opts = Inl e"
  unfolding finalizeOmniOptions_def Let_def split_beta prod.collapse refuse_if_iff fillRandom_selectors(1-8)
  using assms fillRandom_selectors(9,10) [of opts r]
  by (auto simp: id_conflict_def omni_guarded_def)

lemma finalizeOmniOptions_Inr:
  assumes "finalizeOmniOptions genv r opts = Inr o'"
  shows "\<not> id_conflict opts" "disableBackendGuardrails opts \<or> omni_guarded opts"
    "valid_IDs (filledOptions defaultOmniImage defaultOmniProjectID defaultOmniInstanceID r opts)"
    "finishOptions genv (omniFilled r opts) = Inr o'"
proof -
  from assms finalizeOmniOptions_refused [of opts genv r]
  show c: "\<not> id_conflict opts" and g: "disableBackendGuardrails opts \<or> omni_guarded opts"
    by auto
  from assms finalizeOmniOptions_accepted [OF c g, of genv r]
  show "valid_IDs (filledOptions defaultOmniImage defaultOmniProjectID defaultOmniInstanceID r opts)"
    "finishOptions genv (omniFilled r opts) = Inr o'"
    by (simp_all flip: validateResourceIDs_None_iff split: option.splits)
qed

lemma finalizeOmniOptions_laws:
  assumes "finalizeOmniOptions genv r opts = Inr o'"
  shows "finalizer_laws opts o'"
proof -
  note inr = finalizeOmniOptions_Inr [OF assms]
  from inr(4) show ?thesis
    unfolding omniFilled_def Let_def
    by (rule finish_filled [OF inr(1,3)]) (simp_all add: defaultOmniImage_def)
qed

interpretation omni: option_finalizer finalizeOmniOptions
  by unfold_locales (use finalizeOmniOptions_laws in \<open>auto simp: finalizer_laws_def\<close>)

lemma applyOmniOptionsWithBase_eq: "omni.apply_with_base = applyOmniOptionsWithBase"
  by (intro ext) (simp add: omni.apply_with_base_def applyOmniOptionsWithBase_def)

lemma applyOmniOptions_eq:
  "applyOmniOptions genv r options =
     applyOmniOptionsWithBase genv r (zeroOptions\<lparr>disableCreateInstance := True\<rparr>) options"
  by (simp add: applyOmniOptions_def applyOmniOptionsWithBase_def)

text \<open>
  With the guardrails on, accepted options always name the built-in project and instance, never
  create an instance, carry no gateway flags and force the recommended client settings.
\<close>

lemma finalizeOmniOptions_guarded:
  assumes "finalizeOmniOptions genv r opts = Inr o'" and "\<not> disableBackendGuardrails opts"
  shows "projectID o' = defaultOmniProjectID \<and> instanceID o' = defaultOmniInstanceID \<and>
    disableCreateInstance o' \<and> gatewayFlags o' = [] \<and>
    (\<exists>cfg. clientConfig o' = Some cfg \<and> DisableNativeMetrics cfg \<and> IsExperimentalHost cfg)"
proof -
  note inr = finalizeOmniOptions_Inr [OF assms(1)]
  from inr(2) assms(2) have g: "omni_guarded opts" by simp
  obtain b cs where o': "o' = (omniFilled r opts)\<lparr>containerProviderSet := b, containerCustomizers := cs\<rparr>"
    using finishOptions_shape [OF inr(4)] by blast
  from g show ?thesis
    by (auto simp: o' omniFilled_def Let_def filledOptions_eq omni_guarded_def final_projectID_def
        final_instanceID_def finalizeManagedOmniClientConfig_def RecommendedOmniClientConfig_def
        defaultOmniProjectID_def defaultOmniInstanceID_def assms(2) split: option.splits)
qed

end
