(* ===== verification/Admin_Lock.thy ===== *)
theory Admin_Lock
  imports Omni_Options
begin

section \<open>The per-instance lock (admin_ops.go) and the drop with retries (close.go)\<close>

text \<open>
  \<open>withInstanceAdminLock\<close> runs a closure under the lock of an instance; the closure assigns
  a captured variable, whose value before is an argument here and whose value after is part
  of the result.  \<open>AcquireLock\<close> stands for finding the semaphore of the path and acquiring it
  under the context; how concurrent callers share it is the subject of \<open>Lock_Table\<close>.
\<close>

definition withInstanceAdminLock :: "env \<Rightarrow> ctx \<Rightarrow> string \<Rightarrow> 'a io \<Rightarrow> 'a \<Rightarrow> (error option \<times> 'a) io" where
  "withInstanceAdminLock E c path fn captured =
     (if path = [] then do { x \<leftarrow> fn; State_Monad.return (None, x) }
      else do {
        err \<leftarrow> invoke E (AcquireLock c path);
        case err of
          Some e \<Rightarrow> State_Monad.return (Some e, captured)
        | None \<Rightarrow> do {
            x \<leftarrow> fn;
            _ \<leftarrow> invoke E (ReleaseLock path);
            State_Monad.return (None, x)
          }
      })"

definition closeTimeout :: Duration where "closeTimeout = 30 * time_Second"
definition dropDatabaseTimeout :: Duration where "dropDatabaseTimeout = 2 * time_Minute"
definition dropDatabaseMaxAttempts :: nat where "dropDatabaseMaxAttempts = 3"
definition dropDatabaseRetryBackoff :: Duration where "dropDatabaseRetryBackoff = 15 * time_Second"

definition dropDatabaseRetryBudget :: Duration where
  "dropDatabaseRetryBudget = dropDatabaseTimeout * int dropDatabaseMaxAttempts + dropDatabaseRetryBackoff"

definition newCloseContext :: ctx where
  "newCloseContext = WithTimeout Background closeTimeout"

definition newDropDatabaseContext :: ctx where
  "newDropDatabaseContext = WithTimeout Background dropDatabaseRetryBudget"

definition dropDatabaseComplete :: "env \<Rightarrow> error option \<Rightarrow> bool" where
  "dropDatabaseComplete E err = (case err of None \<Rightarrow> True | Some e \<Rightarrow> status_Code E e = NotFound)"

text \<open>One attempt: the lock, the call, and the new value of \<open>lastErr\<close>.\<close>

definition drop_attempt :: "env \<Rightarrow> ctx \<Rightarrow> string \<Rightarrow> error option \<Rightarrow> error option io" where
  "drop_attempt E c dbPath lastErr = do {
     let attemptCtx = WithTimeout c dropDatabaseTimeout;
     (lockErr, lastErr) \<leftarrow> withInstanceAdminLock E attemptCtx (instancePathFromDatabasePath dbPath)
        (invoke E (DropDatabase attemptCtx dbPath)) lastErr;
     State_Monad.return (if lockErr \<noteq> None then lockErr else lastErr)
   }"

text \<open>The loop, from an attempt on; \<open>lastErr\<close> is the variable of the same name.\<close>

function drop_attempts :: "env \<Rightarrow> ctx \<Rightarrow> string \<Rightarrow> nat \<Rightarrow> error option \<Rightarrow> error option io" where
  "drop_attempts E c dbPath attempt lastErr =
     (if attempt > dropDatabaseMaxAttempts then
        State_Monad.return (Some (wrapErr ''drop database %s after %d attempts: %w''
          [AStr dbPath, AInt (int dropDatabaseMaxAttempts)] lastErr))
      else do {
        lastErr \<leftarrow> drop_attempt E c dbPath lastErr;
        if dropDatabaseComplete E lastErr then State_Monad.return None
        else if attempt = dropDatabaseMaxAttempts then
          State_Monad.return (Some (wrapErr ''drop database %s after %d attempts: %w''
            [AStr dbPath, AInt (int dropDatabaseMaxAttempts)] lastErr))
        else do {
          ended \<leftarrow> invoke E (AwaitTimer c (int attempt * 5 * time_Second));
          case ended of
            Some ctxErr \<Rightarrow> State_Monad.return
              (errors_Join [Some (wrapErr ''drop database %s: %w'' [AStr dbPath] lastErr), Some ctxErr])
          | None \<Rightarrow> drop_attempts E c dbPath (attempt + 1) lastErr
        }
      })"
  by pat_completeness auto
termination
  by (relation "measure (\<lambda>(E, c, dbPath, attempt, lastErr). dropDatabaseMaxAttempts + 1 - attempt)") auto

declare drop_attempts.simps [simp del]

definition dropDatabaseWithRetry :: "env \<Rightarrow> ctx \<Rightarrow> bool \<Rightarrow> string \<Rightarrow> error option io" where
  "dropDatabaseWithRetry E c dbCli dbPath =
     (if \<not> dbCli then
        State_Monad.return (Some (Errorf ''drop database %s: database admin client is nil'' [AStr dbPath]))
      else drop_attempts E c dbPath 1 None)"

subsection \<open>The lock discipline\<close>

text \<open>
  Replaying the events: \<open>lock_step h e\<close> is the lock held after the event \<open>e\<close> when \<open>h\<close> is held
  before, or None when the event breaks the discipline: a lock is asked for only when none is
  held, only the held lock is released, and databases are created and dropped only under the
  lock of their instance.
\<close>

fun lock_step :: "string option \<Rightarrow> event \<Rightarrow> string option option" where
  "lock_step h (AcquireLock c p, r) = (if h = None \<and> p \<noteq> [] then Some (if r = None then Some p else None) else None)"
| "lock_step h (ReleaseLock p, r) = (if h = Some p then Some None else None)"
| "lock_step h (DropDatabase c db, r) = (if h = Some (instancePathFromDatabasePath db) then Some h else None)"
| "lock_step h (CreateDatabase c q, r) = (if h = Some (cdr_Parent q) then Some h else None)"
| "lock_step h (WaitCreateDatabase c, r) = (if h \<noteq> None then Some h else None)"
| "lock_step h e = Some h"

fun lock_run :: "string option \<Rightarrow> event list \<Rightarrow> string option option" where
  "lock_run h [] = Some h"
| "lock_run h (e # es) = (case lock_step h e of None \<Rightarrow> None | Some h' \<Rightarrow> lock_run h' es)"

lemma lock_run_append:
  "lock_run h (xs @ ys) = (case lock_run h xs of None \<Rightarrow> None | Some h' \<Rightarrow> lock_run h' ys)"
  by (induction xs arbitrary: h) (auto split: option.splits)

text \<open>
  What the discipline is for, without the code's notion of the instance of a database: every drop
  call is made while the lock of the path \<open>p\<close> is held, as the acquisitions and releases tell.
\<close>

fun drops_under :: "string \<Rightarrow> string option \<Rightarrow> event list \<Rightarrow> bool" where
  "drops_under p h [] = True"
| "drops_under p h ((AcquireLock c q, r) # es) = drops_under p (if r = None then Some q else h) es"
| "drops_under p h ((ReleaseLock q, r) # es) = drops_under p None es"
| "drops_under p h ((DropDatabase c db, r) # es) = (h = Some p \<and> drops_under p h es)"
| "drops_under p h (e # es) = drops_under p h es"

lemma lock_run_drops_under:
  assumes "lock_run h es = Some h'"
    and "list_all (\<lambda>e. case fst e of DropDatabase c db \<Rightarrow> instancePathFromDatabasePath db = p | _ \<Rightarrow> True) es"
  shows "drops_under p h es"
  using assms by (induction p h es rule: drops_under.induct) (auto split: option.splits if_splits)

definition keeps_lock :: "string option \<Rightarrow> event list \<Rightarrow> bool" where
  "keeps_lock h es \<longleftrightarrow> lock_run h es = Some h"

interpretation keeps_lock: trace_property "keeps_lock h" for h
  by unfold_locales (simp_all add: keeps_lock_def lock_run_append)

lemma appends_withLock [intro]: "appends fn \<Longrightarrow> appends (withInstanceAdminLock E c p fn x)"
  by (auto simp: withInstanceAdminLock_def intro!: appends_bind split: option.splits)

lemma withLock_run:
  assumes "p \<noteq> []"
  shows "run_state (withInstanceAdminLock E c p fn x) w =
    (case rpc E w (AcquireLock c p) of
       Some e \<Rightarrow> ((Some e, x), record_event (AcquireLock c p, Some e) w)
     | None \<Rightarrow> (let w1 = record_event (AcquireLock c p, None) w; w2 = world_after fn w1
         in ((None, result_of fn w1), record_event (ReleaseLock p, rpc E w2 (ReleaseLock p)) w2)))"
  using assms by (simp add: withInstanceAdminLock_def run_state_eq [of fn] Let_def split: option.splits)

lemma withLock_events:
  assumes "p \<noteq> []" "appends fn"
  shows "events (withInstanceAdminLock E c p fn x) w =
    (case rpc E w (AcquireLock c p) of
       Some e \<Rightarrow> [(AcquireLock c p, Some e)]
     | None \<Rightarrow> (let w1 = record_event (AcquireLock c p, None) w
         in (AcquireLock c p, None) # events fn w1 @
            [(ReleaseLock p, rpc E (world_after fn w1) (ReleaseLock p))]))"
  by (rule events_eqI)
    (simp add: world_after_def [of "withInstanceAdminLock E c p fn x"] withLock_run assms(1) Let_def
      trace_world_after [OF assms(2)] split: option.splits)

lemma withLock_keeps:
  assumes "p \<noteq> []" and "emits (keeps_lock (Some p)) fn"
  shows "emits (keeps_lock None) (withInstanceAdminLock E c p fn x)"
proof -
  have a: "appends fn" by (rule emits_appends [OF assms(2)])
  have "keeps_lock None (events (withInstanceAdminLock E c p fn x) w)" for w
    using assms unfolding withLock_events [OF assms(1) a]
    by (auto simp: keeps_lock_def lock_run_append emits_def Let_def split: option.splits)
  with a show ?thesis by (auto simp: emits_def)
qed

subsection \<open>The attempts\<close>

lemma appends_drop_attempt [intro, simp]: "appends (drop_attempt E c db le)"
  by (auto simp: drop_attempt_def Let_def intro!: appends_bind split: prod.splits)

lemma appends_drop_attempts [intro, simp]: "appends (drop_attempts E c db a le)"
proof (induction E c db a le rule: drop_attempts.induct)
  case (1 E c db a le)
  show ?case
    using "1.IH" by (subst drop_attempts.simps) (auto intro!: appends_bind split: option.splits)
qed

lemma drop_attempt_cases:
  assumes "instancePathFromDatabasePath db \<noteq> []"
  obtains (refused) e where
      "rpc E w (AcquireLock (WithTimeout c dropDatabaseTimeout) (instancePathFromDatabasePath db)) = Some e"
      "result_of (drop_attempt E c db le) w = Some e"
      "events (drop_attempt E c db le) w =
        [(AcquireLock (WithTimeout c dropDatabaseTimeout) (instancePathFromDatabasePath db), Some e)]"
  | (called) r r' where "result_of (drop_attempt E c db le) w = r"
      "events (drop_attempt E c db le) w =
        [(AcquireLock (WithTimeout c dropDatabaseTimeout) (instancePathFromDatabasePath db), None),
         (DropDatabase (WithTimeout c dropDatabaseTimeout) db, r),
         (ReleaseLock (instancePathFromDatabasePath db), r')]"
proof -
  let ?p = "instancePathFromDatabasePath db"
  let ?ac = "WithTimeout c dropDatabaseTimeout"
  let ?lock = "withInstanceAdminLock E ?ac ?p (invoke E (DropDatabase ?ac db)) le"
  have m: "drop_attempt E c db le =
      State_Monad.bind ?lock (\<lambda>(lockErr, l). State_Monad.return (if lockErr \<noteq> None then lockErr else l))"
    by (simp only: drop_attempt_def Let_def)
  have ev: "events (drop_attempt E c db le) w = events ?lock w"
    unfolding m by (subst events_bind) (auto split: prod.splits)
  have res: "result_of (drop_attempt E c db le) w =
      (if fst (result_of ?lock w) \<noteq> None then fst (result_of ?lock w) else snd (result_of ?lock w))"
    unfolding m result_of_bind by (simp split: prod.splits)
  note run = withLock_run [OF assms, of E ?ac "invoke E (DropDatabase ?ac db)" le w]
  note evs = withLock_events [OF assms appends_invoke, of E ?ac E "DropDatabase ?ac db" le w]
  show ?thesis
  proof (cases "rpc E w (AcquireLock ?ac ?p)")
    case None
    with run evs ev res show ?thesis
      by (intro called [of "rpc E (record_event (AcquireLock ?ac ?p, None) w) (DropDatabase ?ac db)"])
        (simp_all add: result_of_def Let_def)
  next
    case (Some e)
    with run evs ev res show ?thesis
      by (intro refused [of e]) (simp_all add: result_of_def)
  qed
qed

text \<open>One turn of the loop.\<close>

lemma drop_attempts_step:
  assumes "a \<le> dropDatabaseMaxAttempts"
    and r: "r = result_of (drop_attempt E c db le) w" and w1: "w1 = world_after (drop_attempt E c db le) w"
    and t: "t = AwaitTimer c (int a * 5 * time_Second)"
  shows "events (drop_attempts E c db a le) w = events (drop_attempt E c db le) w @
      (if dropDatabaseComplete E r \<or> a = dropDatabaseMaxAttempts then []
       else (t, rpc E w1 t) # (if rpc E w1 t = None
         then events (drop_attempts E c db (a + 1) r) (record_event (t, None) w1) else []))"
    and "result_of (drop_attempts E c db a le) w =
      (if dropDatabaseComplete E r then None
       else if a = dropDatabaseMaxAttempts then Some (wrapErr ''drop database %s after %d attempts: %w''
            [AStr db, AInt (int dropDatabaseMaxAttempts)] r)
       else case rpc E w1 t of
         Some ctxErr \<Rightarrow> errors_Join [Some (wrapErr ''drop database %s: %w'' [AStr db] r), Some ctxErr]
       | None \<Rightarrow> result_of (drop_attempts E c db (a + 1) r) (record_event (t, None) w1))"
proof -
  let ?rest = "\<lambda>r. if dropDatabaseComplete E r then State_Monad.return None
      else if a = dropDatabaseMaxAttempts then State_Monad.return (Some (wrapErr
        ''drop database %s after %d attempts: %w'' [AStr db, AInt (int dropDatabaseMaxAttempts)] r))
      else State_Monad.bind (invoke E t) (\<lambda>ended. case ended of
        Some ctxErr \<Rightarrow> State_Monad.return
          (errors_Join [Some (wrapErr ''drop database %s: %w'' [AStr db] r), Some ctxErr])
      | None \<Rightarrow> drop_attempts E c db (a + 1) r)"
  have m: "drop_attempts E c db a le = State_Monad.bind (drop_attempt E c db le) ?rest"
    using assms(1) unfolding t by (subst drop_attempts.simps) simp
  have a: "appends (?rest x)" for x
    by (auto intro!: appends_bind split: option.splits)
  show "events (drop_attempts E c db a le) w = events (drop_attempt E c db le) w @
      (if dropDatabaseComplete E r \<or> a = dropDatabaseMaxAttempts then []
       else (t, rpc E w1 t) # (if rpc E w1 t = None
         then events (drop_attempts E c db (a + 1) r) (record_event (t, None) w1) else []))"
    unfolding m events_bind [OF appends_drop_attempt a] r [symmetric] w1 [symmetric]
    by (auto simp: events_bind split: option.splits)
  show "result_of (drop_attempts E c db a le) w =
      (if dropDatabaseComplete E r then None
       else if a = dropDatabaseMaxAttempts then Some (wrapErr ''drop database %s after %d attempts: %w''
            [AStr db, AInt (int dropDatabaseMaxAttempts)] r)
       else case rpc E w1 t of
         Some ctxErr \<Rightarrow> errors_Join [Some (wrapErr ''drop database %s: %w'' [AStr db] r), Some ctxErr]
       | None \<Rightarrow> result_of (drop_attempts E c db (a + 1) r) (record_event (t, None) w1))"
    unfolding m result_of_bind r [symmetric] w1 [symmetric]
    by (auto simp: result_of_bind split: option.splits)
qed

text \<open>How often the server is called, and how long the loop waits.\<close>

definition drop_calls :: "event list \<Rightarrow> event list" where
  "drop_calls es = filter (\<lambda>e. case fst e of DropDatabase c db \<Rightarrow> True | _ \<Rightarrow> False) es"

definition waited :: "event list \<Rightarrow> Duration" where
  "waited es = sum_list (map (\<lambda>e. case fst e of AwaitTimer c d \<Rightarrow> d | _ \<Rightarrow> 0) es)"

lemma drop_calls_simps [simp]:
  "drop_calls [] = []"
  "drop_calls (e # es) = (case fst e of DropDatabase c db \<Rightarrow> [e] | _ \<Rightarrow> []) @ drop_calls es"
  "drop_calls (xs @ ys) = drop_calls xs @ drop_calls ys"
  by (simp_all add: drop_calls_def split: call.splits)

lemma waited_simps [simp]:
  "waited [] = 0"
  "waited (e # es) = (case fst e of AwaitTimer c d \<Rightarrow> d | _ \<Rightarrow> 0) + waited es"
  "waited (xs @ ys) = waited xs + waited ys"
  by (simp_all add: waited_def)

text \<open>
  A drop call after which the database is gone: it returned nil, or an error with the status code
  NotFound, by which the service says that there is no such database.
\<close>

definition drop_completed :: "env \<Rightarrow> event \<Rightarrow> bool" where
  "drop_completed E e =
     (case fst e of
        DropDatabase c db \<Rightarrow> (case snd e of None \<Rightarrow> True | Some err \<Rightarrow> status_Code E err = NotFound)
      | _ \<Rightarrow> False)"

text \<open>
  What acquiring a semaphore is documented to return: nil or the error of the context, whose
  status code is not NotFound.
\<close>

definition lock_errors_are_ctx_errors :: "env \<Rightarrow> bool" where
  "lock_errors_are_ctx_errors E \<longleftrightarrow>
     (\<forall>w c p e. rpc E w (AcquireLock c p) = Some e \<longrightarrow> status_Code E e \<noteq> NotFound)"

lemma max_attempts [simp]: "dropDatabaseMaxAttempts = 3"
  by (simp add: dropDatabaseMaxAttempts_def)

lemma drop_attempt_counts:
  assumes "instancePathFromDatabasePath db \<noteq> []"
  shows "keeps_lock None (events (drop_attempt E c db le) w)"
    "length (drop_calls (events (drop_attempt E c db le) w)) \<le> 1"
    "waited (events (drop_attempt E c db le) w) = 0"
  by (rule drop_attempt_cases [OF assms, where E = E and c = c and le = le and w = w]; simp add: keeps_lock_def assms)+

text \<open>The three bounds of the loop, as one predicate of the attempt it starts from.\<close>

definition drop_bounds :: "nat \<Rightarrow> event list \<Rightarrow> bool" where
  "drop_bounds a es \<longleftrightarrow> keeps_lock None es \<and> length (drop_calls es) \<le> 4 - a \<and>
     waited es \<le> (\<Sum>k \<in> {a..<3}. int k * 5 * time_Second)"

lemma drop_bounds_last: "a \<le> 3 \<Longrightarrow> keeps_lock None es \<Longrightarrow> length (drop_calls es) \<le> 1 \<Longrightarrow> waited es \<le> 0 \<Longrightarrow>
    drop_bounds a es"
  by (auto simp: drop_bounds_def time_units intro!: order_trans [OF _ sum_nonneg])

lemma drop_bounds_next:
  assumes "a < 3" "keeps_lock None es" "length (drop_calls es) \<le> 1" "waited es = 0"
    and "es' = [] \<or> drop_bounds (a + 1) es'" and "t = AwaitTimer c (int a * 5 * time_Second)"
  shows "drop_bounds a (es @ (t, r) # es')"
proof -
  have l: "keeps_lock None (es @ (t, r) # es')"
    using assms(2,5) by (auto simp: drop_bounds_def assms(6) keeps_lock_def lock_run_append)
  have "{a..<3} = insert a {a + 1..<3}" using assms(1) by auto
  then have s: "(\<Sum>k \<in> {a..<3}. int k * 5 * time_Second) =
      int a * 5 * time_Second + (\<Sum>k \<in> {a + 1..<3}. int k * 5 * time_Second)" by simp
  have "0 \<le> (\<Sum>k \<in> {a + 1..<3}. int k * 5 * time_Second)"
    by (intro sum_nonneg) (simp add: time_units)
  with assms l s show ?thesis by (auto simp: drop_bounds_def)
qed

lemma drop_attempts_bounds:
  assumes "instancePathFromDatabasePath db \<noteq> []" and "a \<le> 3"
  shows "drop_bounds a (events (drop_attempts E c db a le) w)"
  using assms(2)
proof (induction "3 - a" arbitrary: a le w)
  case 0
  then show ?case
    using drop_attempt_counts [OF assms(1), of E c le w]
    by (subst drop_attempts_step(1) [OF _ refl refl refl]) (auto intro: drop_bounds_last)
next
  case (Suc n)
  let ?t = "AwaitTimer c (int a * 5 * time_Second)"
  have IH: "drop_bounds (a + 1) (events (drop_attempts E c db (a + 1) le') w')" for le' w'
    by (rule Suc.hyps(1)) (use Suc.hyps(2) Suc.prems in auto)
  have lt: "a < 3" using Suc.hyps(2) by simp
  show ?case
    using drop_attempt_counts [OF assms(1), of E c le w] lt IH
    by (subst drop_attempts_step(1) [OF _ refl refl refl])
      (auto intro: drop_bounds_last intro!: drop_bounds_next)
qed

lemma drop_attempts_completed:
  assumes "instancePathFromDatabasePath db \<noteq> []" and "lock_errors_are_ctx_errors E" and "a \<le> 3"
  shows "result_of (drop_attempts E c db a le) w = None \<longleftrightarrow>
    list_ex (drop_completed E) (events (drop_attempts E c db a le) w)"
  using assms(3)
proof (induction "3 - a" arbitrary: a le w)
  have first: "list_ex (drop_completed E) (events (drop_attempt E c db le) w) \<longleftrightarrow>
      dropDatabaseComplete E (result_of (drop_attempt E c db le) w)" for le w
    using assms(2)
    by (rule_tac drop_attempt_cases [OF assms(1), where E = E and c = c and le = le and w = w])
      (auto simp: drop_completed_def dropDatabaseComplete_def lock_errors_are_ctx_errors_def)
  {
    case 0
    then show ?case
      by (subst drop_attempts_step(1) [OF _ refl refl refl], simp,
          subst drop_attempts_step(2) [OF _ refl refl refl]) (auto simp: first)
  next
    case (Suc n)
    have IH: "result_of (drop_attempts E c db (a + 1) le') w' = None \<longleftrightarrow>
        list_ex (drop_completed E) (events (drop_attempts E c db (a + 1) le') w')" for le' w'
      by (rule Suc.hyps(1)) (use Suc.hyps(2) Suc.prems in auto)
    have "a < 3" using Suc.hyps(2) by simp
    then show ?case
      by (subst drop_attempts_step(1) [OF _ refl refl refl], simp,
          subst drop_attempts_step(2) [OF _ refl refl refl])
        (auto simp: first IH [simplified] drop_completed_def errors_Join_def split: option.splits)
  }
qed

text \<open>
  Every event of the loop is one of these calls; so a property of single events holds of the
  whole run when it holds of them.
\<close>

definition drop_call :: "ctx \<Rightarrow> string \<Rightarrow> call \<Rightarrow> bool" where
  "drop_call c db x \<longleftrightarrow>
     x = AcquireLock (WithTimeout c dropDatabaseTimeout) (instancePathFromDatabasePath db) \<or>
     x = ReleaseLock (instancePathFromDatabasePath db) \<or>
     x = DropDatabase (WithTimeout c dropDatabaseTimeout) db \<or> (\<exists>d. x = AwaitTimer c d)"

lemma drop_attempt_calls: "emits (list_all (\<lambda>e. drop_call c db (fst e))) (drop_attempt E c db le)"
  unfolding drop_attempt_def withInstanceAdminLock_def
  by (intro all_events.emits_rules) (simp_all add: drop_call_def)

lemma drop_attempts_calls: "emits (list_all (\<lambda>e. drop_call c db (fst e))) (drop_attempts E c db a le)"
proof (induction "4 - a" arbitrary: a le)
  case 0
  then show ?case by (subst drop_attempts.simps) (simp add: all_events.emits_return)
next
  case (Suc n)
  have IH: "emits (list_all (\<lambda>e. drop_call c db (fst e))) (drop_attempts E c db (a + 1) le')" for le'
    by (rule Suc.hyps(1)) (use Suc.hyps(2) in simp)
  show ?case
    by (subst drop_attempts.simps, intro all_events.emits_rules drop_attempt_calls IH)
      (simp_all add: drop_call_def)
qed

lemma dropDatabaseWithRetry_calls:
  "emits (list_all (\<lambda>e. drop_call c db (fst e))) (dropDatabaseWithRetry E c b db)"
  unfolding dropDatabaseWithRetry_def
  by (intro all_events.emits_rules drop_attempts_calls)

lemma appends_dropDatabaseWithRetry [appends_intros]: "appends (dropDatabaseWithRetry E c b db)"
  by (rule emits_appends [OF dropDatabaseWithRetry_calls])

lemma dropDatabaseWithRetry_True: "dropDatabaseWithRetry E c True db = drop_attempts E c db 1 None"
  by (simp add: dropDatabaseWithRetry_def)

lemma dropDatabaseWithRetry_keeps_lock:
  "instancePathFromDatabasePath db \<noteq> [] \<Longrightarrow> emits (keeps_lock None) (dropDatabaseWithRetry E c b db)"
  using drop_attempts_bounds [of db 1 E c None] appends_dropDatabaseWithRetry [of E c b db]
  by (cases b) (auto simp: emits_def dropDatabaseWithRetry_def drop_bounds_def keeps_lock_def)

text \<open>The lock of the drop calls, when the code finds the instance.\<close>

lemma drops_under_instance:
  assumes "keeps_lock None es" "list_all (\<lambda>e. drop_call c (databasePath p i d) (fst e)) es" "plain_instance p i"
  shows "drops_under (instancePath p i) None es"
proof (rule lock_run_drops_under)
  show "lock_run None es = Some None" using assms(1) by (simp add: keeps_lock_def)
  have "instancePathFromDatabasePath (databasePath p i d) = instancePath p i"
    by (rule under_instance [OF _ assms(3)]) (simp add: hasPrefix_iff databasePath_split)
  with assms(2) show "list_all (\<lambda>e. case fst e of DropDatabase c db \<Rightarrow> instancePathFromDatabasePath db = instancePath p i | _ \<Rightarrow> True) es"
    by (auto simp: list_all_iff drop_call_def split: call.split)
qed

end
