(* ===== verification/Close_State.thy ===== *)
theory Close_State
  imports Admin_Lock
begin

section \<open>Closing once (close.go)\<close>

text \<open>
  \<open>closeState\<close> with its \<open>sync.Once\<close>, the slot that every closable value holds, and the
  contract of an idempotent \<open>Close\<close>.  The closure may close values nested in the receiver; their
  new state is part of its result.
\<close>

record closeState =
  once_done :: bool
  close_err :: "error option"

definition closeState_close ::
    "closeState \<Rightarrow> (error option \<times> 'n) io \<Rightarrow> 'n \<Rightarrow> (error option \<times> closeState \<times> 'n) io" where
  "closeState_close s fn nested =
     (if once_done s then State_Monad.return (close_err s, s, nested)
      else do {
        (e, nested) \<leftarrow> fn;
        State_Monad.return (e, s\<lparr>once_done := True, close_err := e\<rparr>, nested)
      })"

definition ensureCloseState :: "closeState option \<Rightarrow> closeState" where
  "ensureCloseState slot =
     (case slot of None \<Rightarrow> \<lparr>once_done = False, close_err = None\<rparr> | Some s \<Rightarrow> s)"

text \<open>\<open>ensureCloseState(&slot).close(fn)\<close>, which every \<open>Close\<close> method is.\<close>

definition close_slot ::
    "closeState option \<Rightarrow> (error option \<times> 'n) io \<Rightarrow> 'n \<Rightarrow> (error option \<times> closeState option \<times> 'n) io" where
  "close_slot slot fn nested = do {
     (e, s, nested) \<leftarrow> closeState_close (ensureCloseState slot) fn nested;
     State_Monad.return (e, Some s, nested)
   }"

definition closed_with :: "closeState option \<Rightarrow> error option \<Rightarrow> bool" where
  "closed_with slot e = (slot = Some \<lparr>once_done = True, close_err = e\<rparr>)"

definition is_open :: "closeState option \<Rightarrow> bool" where
  "is_open slot = (\<not> once_done (ensureCloseState slot))"

lemma is_open_None [simp]: "is_open None"
  by (simp add: is_open_def ensureCloseState_def)

lemma not_is_open: "\<not> is_open slot \<Longrightarrow> \<exists>e. closed_with slot e"
  by (cases slot; cases "the slot") (auto simp: is_open_def closed_with_def ensureCloseState_def)

lemma close_slot_closed:
  "closed_with slot e \<Longrightarrow> close_slot slot fn n = State_Monad.return (e, slot, n)"
  by (simp add: closed_with_def close_slot_def closeState_close_def ensureCloseState_def)

lemma close_slot_open:
  "is_open slot \<Longrightarrow> run_state (close_slot slot fn n) w =
     ((fst (result_of fn w), Some \<lparr>once_done = True, close_err = fst (result_of fn w)\<rparr>, snd (result_of fn w)),
      world_after fn w)"
  by (cases slot) (auto simp: is_open_def close_slot_def closeState_close_def ensureCloseState_def
      run_state_eq [of fn] split_beta split: option.splits)

lemma close_slot_closes:
  "closed_with (fst (snd (result_of (close_slot slot fn n) w))) (fst (result_of (close_slot slot fn n) w))"
proof (cases "is_open slot")
  case True
  from close_slot_open [OF True, of fn n w] show ?thesis by (simp add: result_of_def closed_with_def)
next
  case False
  then obtain e where e: "closed_with slot e" using not_is_open by blast
  from close_slot_closed [OF this, of fn n] e show ?thesis by simp
qed

lemma appends_close_slot [appends_intros]: "appends fn \<Longrightarrow> appends (close_slot slot fn n)"
  unfolding close_slot_def closeState_close_def
  by (intro appends_intros) simp_all

lemma events_close_slot:
  "appends fn \<Longrightarrow> events (close_slot slot fn n) w = (if is_open slot then events fn w else [])"
proof (cases "is_open slot")
  case True
  then show ?thesis using close_slot_open [OF True, of fn n w] by (simp add: events_def world_after_def)
next
  case False
  then obtain e where "closed_with slot e" using not_is_open by blast
  from close_slot_closed [OF this, of fn n] False show ?thesis by simp
qed

subsection \<open>The contract\<close>

text \<open>
  A closer: its first \<open>Close\<close> leaves the slot closed with the error it returned, and on a closed
  value \<open>Close\<close> returns that error and does nothing.
\<close>

locale closer =
  fixes close :: "env \<Rightarrow> 'o \<Rightarrow> (error option \<times> 'o) io"
    and slot :: "'o \<Rightarrow> closeState option"
  assumes close_closes:
      "closed_with (slot (snd (result_of (close E x) w))) (fst (result_of (close E x) w))"
    and close_closed: "closed_with (slot x) e \<Longrightarrow> close E x = State_Monad.return (e, x)"
    and close_appends: "appends (close E x)"
begin

text \<open>\<open>Close\<close> called \<open>n\<close> times: the errors, and the value after.\<close>

fun closes :: "env \<Rightarrow> nat \<Rightarrow> 'o \<Rightarrow> (error option list \<times> 'o) io" where
  "closes E 0 x = State_Monad.return ([], x)"
| "closes E (Suc n) x = do { (e, x) \<leftarrow> close E x; (es, x) \<leftarrow> closes E n x; State_Monad.return (e # es, x) }"

lemma closes_closed: "closed_with (slot x) e \<Longrightarrow> closes E n x = State_Monad.return (replicate n e, x)"
  by (induction n) (simp_all add: close_closed)

lemma closes_once:
  "run_state (closes E (Suc n) x) w =
     ((replicate (Suc n) (fst (result_of (close E x) w)), snd (result_of (close E x) w)),
      world_after (close E x) w)"
  using closes_closed [OF close_closes, of E n E x w]
  by (simp add: run_state_eq [of "close E x"] split_beta)

text \<open>However often it is called, the work is done once and every call returns the first result.\<close>

lemma closes_idempotent:
  "fst (result_of (closes E (Suc n) x) w) = replicate (Suc n) (fst (result_of (close E x) w)) \<and>
   events (closes E (Suc n) x) w = events (close E x) w"
  unfolding result_of_def [of "closes E (Suc n) x"] events_def world_after_def [of "closes E (Suc n) x"]
    closes_once by simp

lemma close_again:
  "result_of (close E (snd (result_of (close E x) w))) w' = result_of (close E x) w \<and>
   events (close E (snd (result_of (close E x) w))) w' = []"
  using close_closed [OF close_closes, of E E x w] by simp

end

subsection \<open>Nil receivers\<close>

text \<open>
  Every \<open>Close\<close> has a pointer receiver and returns nil on a nil pointer: a nil pointer is a
  closer that has been closed without an error.
\<close>

definition close_ptr :: "('o \<Rightarrow> (error option \<times> 'o) io) \<Rightarrow> 'o option \<Rightarrow> (error option \<times> 'o option) io" where
  "close_ptr close p =
     (case p of
        None \<Rightarrow> State_Monad.return (None, None)
      | Some x \<Rightarrow> do { (e, x) \<leftarrow> close x; State_Monad.return (e, Some x) })"

definition ptr_slot :: "('o \<Rightarrow> closeState option) \<Rightarrow> 'o option \<Rightarrow> closeState option" where
  "ptr_slot slot p =
     (case p of None \<Rightarrow> Some \<lparr>once_done = True, close_err = None\<rparr> | Some x \<Rightarrow> slot x)"

lemma appends_close_ptr [appends_intros]: "(\<And>x. appends (close x)) \<Longrightarrow> appends (close_ptr close p)"
  unfolding close_ptr_def by (auto intro!: appends_intros split: option.splits)

locale pointer_closer = closer

sublocale pointer_closer \<subseteq> ptr: closer "\<lambda>E. close_ptr (close E)" "ptr_slot slot"
proof
  fix E w e and p :: "'a option"
  show "closed_with (ptr_slot slot (snd (result_of (close_ptr (close E) p) w))) (fst (result_of (close_ptr (close E) p) w))"
    using close_closes [of E "the p" w]
    by (cases p) (auto simp: close_ptr_def ptr_slot_def closed_with_def result_of_bind split_beta)
  show "close_ptr (close E) p = State_Monad.return (e, p)" if "closed_with (ptr_slot slot p) e"
    using that close_closed [of "the p" e E]
    by (cases p) (auto simp: close_ptr_def ptr_slot_def closed_with_def)
  show "appends (close_ptr (close E) p)"
    by (intro appends_intros close_appends)
qed

end
