(* ===== verification/Clients.thy ===== *)
theory Clients
  imports Close_State
begin

section \<open>Clients (spanemuboost.go)\<close>

text \<open>
  The struct \<open>Clients\<close> and its methods.  A client of the libraries is modelled by whether the
  pointer is non-nil; the calls on it are calls of \<open>World\<close>.
\<close>

record Clients =
  InstanceClient :: bool
  DatabaseClient :: bool
  SpannerClient :: bool
  cl_ProjectID :: string
  cl_InstanceID :: string
  cl_DatabaseID :: string
  clientOpts :: "ClientOption list"
  cl_uri :: string
  dropDatabase :: bool
  dropInstance :: bool
  cl_closeState :: "closeState option"

definition Clients_ProjectPath :: "Clients \<Rightarrow> string" where
  "Clients_ProjectPath c = projectPath (cl_ProjectID c)"

definition Clients_InstancePath :: "Clients \<Rightarrow> string" where
  "Clients_InstancePath c = instancePath (cl_ProjectID c) (cl_InstanceID c)"

definition Clients_DatabasePath :: "Clients \<Rightarrow> string" where
  "Clients_DatabasePath c = databasePath (cl_ProjectID c) (cl_InstanceID c) (cl_DatabaseID c)"

definition Clients_ClientOptions :: "Clients \<Rightarrow> ClientOption list" where
  "Clients_ClientOptions c = clientOpts c"

definition Clients_URI :: "Clients \<Rightarrow> string" where
  "Clients_URI c = cl_uri c"

text \<open>The closure of \<open>Close\<close>, in its three parts: the data client, the resources, the admin clients.\<close>

definition close_data_client :: "env \<Rightarrow> Clients \<Rightarrow> unit io" where
  "close_data_client E c =
     (if SpannerClient c then do { _ \<leftarrow> invoke E CloseSpannerClient; State_Monad.return () }
      else State_Monad.return ())"

definition drop_resources :: "env \<Rightarrow> Clients \<Rightarrow> error option io" where
  "drop_resources E c =
     (if dropInstance c then
        if \<not> InstanceClient c then
          State_Monad.return (Some (Errorf ''delete instance %s: instance admin client is nil''
            [AStr (Clients_InstancePath c)]))
        else do {
          err \<leftarrow> invoke E (DeleteInstance newCloseContext (Clients_InstancePath c));
          State_Monad.return (case err of None \<Rightarrow> None
            | Some e \<Rightarrow> Some (Wrapf ''delete instance %s: %w'' [AStr (Clients_InstancePath c)] e))
        }
      else if dropDatabase c then
        if \<not> DatabaseClient c then
          State_Monad.return (Some (Errorf ''drop database %s: database admin client is nil''
            [AStr (Clients_DatabasePath c)]))
        else dropDatabaseWithRetry E newDropDatabaseContext (DatabaseClient c) (Clients_DatabasePath c)
      else State_Monad.return None)"

definition close_admin_clients :: "env \<Rightarrow> Clients \<Rightarrow> error option list io" where
  "close_admin_clients E c = do {
     d \<leftarrow> (if DatabaseClient c then do { e \<leftarrow> invoke E CloseDatabaseAdminClient; State_Monad.return [e] }
           else State_Monad.return []);
     i \<leftarrow> (if InstanceClient c then do { e \<leftarrow> invoke E CloseInstanceAdminClient; State_Monad.return [e] }
           else State_Monad.return []);
     State_Monad.return (d @ i)
   }"

definition Clients_close_body :: "env \<Rightarrow> Clients \<Rightarrow> error option io" where
  "Clients_close_body E c = do {
     _ \<leftarrow> close_data_client E c;
     err \<leftarrow> drop_resources E c;
     errs \<leftarrow> close_admin_clients E c;
     State_Monad.return (errors_Join (err # errs))
   }"

definition Clients_Close :: "env \<Rightarrow> Clients \<Rightarrow> (error option \<times> Clients) io" where
  "Clients_Close E c = do {
     (e, s, _) \<leftarrow> close_slot (cl_closeState c)
       (do { e \<leftarrow> Clients_close_body E c; State_Monad.return (e, ()) }) ();
     State_Monad.return (e, c\<lparr>cl_closeState := s\<rparr>)
   }"

text \<open>The nil receiver.\<close>

definition Clients_Close_ptr :: "env \<Rightarrow> Clients option \<Rightarrow> (error option \<times> Clients option) io" where
  "Clients_Close_ptr E = close_ptr (Clients_Close E)"

subsection \<open>The order of the calls\<close>

lemma appends_Clients_parts [appends_intros]:
  "appends (close_data_client E c)" "appends (drop_resources E c)" "appends (close_admin_clients E c)"
  unfolding close_data_client_def drop_resources_def close_admin_clients_def
  by (intro appends_intros)+

lemma appends_Clients_close_body [appends_intros]: "appends (Clients_close_body E c)"
  unfolding Clients_close_body_def by (intro appends_intros)

lemma appends_Clients_Close [appends_intros]: "appends (Clients_Close E c)"
  unfolding Clients_Close_def by (intro appends_intros)

lemma appends_Clients_Close_ptr [appends_intros]: "appends (Clients_Close_ptr E c)"
  unfolding Clients_Close_ptr_def by (intro appends_intros)

interpretation clients: pointer_closer Clients_Close cl_closeState
proof
  fix E x w e
  let ?fn = "do { e \<leftarrow> Clients_close_body E x; State_Monad.return (e, ()) }"
  have r: "result_of (Clients_Close E x) w =
      (fst (result_of (close_slot (cl_closeState x) ?fn ()) w),
       x\<lparr>cl_closeState := fst (snd (result_of (close_slot (cl_closeState x) ?fn ()) w))\<rparr>)"
    by (simp add: Clients_Close_def result_of_bind split_beta)
  show "closed_with (cl_closeState (snd (result_of (Clients_Close E x) w))) (fst (result_of (Clients_Close E x) w))"
    by (simp add: r close_slot_closes)
  show "Clients_Close E x = State_Monad.return (e, x)" if "closed_with (cl_closeState x) e"
    by (simp add: Clients_Close_def close_slot_closed [OF that])
qed (rule appends_intros)

lemma Clients_Close_open:
  assumes "is_open (cl_closeState c)"
  shows "events (Clients_Close E c) w = events (Clients_close_body E c) w"
    and "fst (result_of (Clients_Close E c) w) = result_of (Clients_close_body E c) w"
proof -
  let ?fn = "do { e \<leftarrow> Clients_close_body E c; State_Monad.return (e, ()) }"
  have a: "appends ?fn" by (intro appends_intros)
  show "events (Clients_Close E c) w = events (Clients_close_body E c) w"
    unfolding Clients_Close_def
    by (subst events_bind)
      (auto simp: events_close_slot [OF a] assms events_bind appends_Clients_close_body
        split: prod.splits intro!: appends_intros)
  show "fst (result_of (Clients_Close E c) w) = result_of (Clients_close_body E c) w"
    using close_slot_open [OF assms, of ?fn "()" w]
    by (simp add: Clients_Close_def result_of_bind split_beta)
      (simp add: result_of_def split_beta)
qed

text \<open>The events of the body are those of its three parts, and the error is the join of theirs.\<close>

definition body_after_data :: "env \<Rightarrow> Clients \<Rightarrow> world \<Rightarrow> world" where
  "body_after_data E c w = world_after (close_data_client E c) w"

definition body_after_drop :: "env \<Rightarrow> Clients \<Rightarrow> world \<Rightarrow> world" where
  "body_after_drop E c w = world_after (drop_resources E c) (body_after_data E c w)"

lemma events_Clients_close_body:
  "events (Clients_close_body E c) w = events (close_data_client E c) w @
     events (drop_resources E c) (body_after_data E c w) @
     events (close_admin_clients E c) (body_after_drop E c w)"
  unfolding Clients_close_body_def body_after_drop_def body_after_data_def
  by (subst events_bind, (intro appends_intros)+, subst events_bind, (intro appends_intros)+,
      subst events_bind, (intro appends_intros)+) simp

lemma result_Clients_close_body:
  "result_of (Clients_close_body E c) w =
     errors_Join (result_of (drop_resources E c) (body_after_data E c w) #
       result_of (close_admin_clients E c) (body_after_drop E c w))"
  by (simp add: Clients_close_body_def result_of_bind body_after_drop_def body_after_data_def)

lemma close_data_client_calls:
  "map fst (events (close_data_client E c) w) = (if SpannerClient c then [CloseSpannerClient] else [])"
  by (simp add: close_data_client_def events_bind)

lemma close_admin_clients_calls:
  "map fst (events (close_admin_clients E c) w) =
     (if DatabaseClient c then [CloseDatabaseAdminClient] else []) @
     (if InstanceClient c then [CloseInstanceAdminClient] else [])"
  by (simp add: close_admin_clients_def events_bind appends_bind)

lemma drop_resources_calls:
  "map fst (events (drop_resources E c) w) =
     (if dropInstance c then
        if InstanceClient c then [DeleteInstance newCloseContext (Clients_InstancePath c)] else []
      else if dropDatabase c \<and> DatabaseClient c then
        map fst (events (dropDatabaseWithRetry E newDropDatabaseContext True (Clients_DatabasePath c)) w)
      else [])"
  by (simp add: drop_resources_def events_bind)

text \<open>Every error of the admin clients is part of the result.\<close>

lemma close_admin_clients_errors:
  "map snd (events (close_admin_clients E c) w) = result_of (close_admin_clients E c) w"
  by (simp add: close_admin_clients_def events_bind result_of_bind appends_bind)

lemma drop_resources_error:
  assumes "(DeleteInstance ctx p, Some e) \<in> set (events (drop_resources E c) w)" and "dropInstance c"
  shows "\<exists>j. result_of (drop_resources E c) w = Some j \<and> error_Is j e"
  using assms by (auto simp: drop_resources_def events_bind result_of_bind error_Is_Wrapf split: if_splits option.splits
      dest: sym)

lemma drop_resources_only:
  assumes "(call, r) \<in> set (events (drop_resources E c) w)"
  shows "call \<noteq> CloseDatabaseAdminClient" "call \<noteq> CloseInstanceAdminClient"
    and "call = DeleteInstance ctx p \<Longrightarrow> dropInstance c"
proof -
  have "call \<in> set (map fst (events (drop_resources E c) w))" using assms by force
  then have "call = DeleteInstance newCloseContext (Clients_InstancePath c) \<and> dropInstance c \<or>
      drop_call newDropDatabaseContext (Clients_DatabasePath c) call"
    using dropDatabaseWithRetry_calls [of newDropDatabaseContext "Clients_DatabasePath c" E True]
    by (auto simp: drop_resources_calls emits_def list_all_iff split: if_splits)
  then show "call \<noteq> CloseDatabaseAdminClient" "call \<noteq> CloseInstanceAdminClient"
    "call = DeleteInstance ctx p \<Longrightarrow> dropInstance c"
    by (auto simp: drop_call_def)
qed

text \<open>No error of the close is lost.\<close>

lemma Clients_close_body_reports:
  assumes "(call, Some e) \<in> set (events (Clients_close_body E c) w)"
    and "call \<in> {CloseDatabaseAdminClient, CloseInstanceAdminClient, DeleteInstance newCloseContext (Clients_InstancePath c)}"
  shows "\<exists>j. result_of (Clients_close_body E c) w = Some j \<and> error_Is j e"
proof -
  let ?w1 = "body_after_data E c w" and ?w2 = "body_after_drop E c w"
  have "(call, Some e) \<notin> set (events (close_data_client E c) w)"
    using close_data_client_calls [of E c w] assms(2) by (cases "SpannerClient c") auto
  with assms(1) consider (drop) "(call, Some e) \<in> set (events (drop_resources E c) ?w1)"
    | (admin) "(call, Some e) \<in> set (events (close_admin_clients E c) ?w2)"
    by (auto simp: events_Clients_close_body)
  then show ?thesis
  proof cases
    case drop
    from drop_resources_only [OF drop] assms(2)
    have "dropInstance c" "call = DeleteInstance newCloseContext (Clients_InstancePath c)" by auto
    with drop_resources_error [of _ _ e E c ?w1] drop
    obtain j where "result_of (drop_resources E c) ?w1 = Some j" "error_Is j e" by blast
    then show ?thesis
      by (auto simp: result_Clients_close_body intro!: errors_Join_Is [where e = j])
  next
    case admin
    then have "Some e \<in> set (result_of (close_admin_clients E c) ?w2)"
      unfolding close_admin_clients_errors [symmetric] by force
    then show ?thesis
      by (auto simp: result_Clients_close_body intro!: errors_Join_Is [where e = e])
  qed
qed

end
