(* ===== verification/Bootstrap.thy ===== *)
theory Bootstrap
  imports Clients
begin

section \<open>Containers, bootstrap and rollback (internal.go)\<close>

subsection \<open>The emulator container\<close>

definition gatewayCmd :: "emulatorOptions \<Rightarrow> string list" where
  "gatewayCmd opts = [''./gateway_main'', ''--hostname'', ''0.0.0.0''] @ gatewayFlags opts"

definition terminateContainerAfterStartupError :: "env \<Rightarrow> Container option \<Rightarrow> error option \<Rightarrow> error option io" where
  "terminateContainerAfterStartupError E container startupErr =
     (case (container, startupErr) of
        (Some ct, Some se) \<Rightarrow> do {
          err \<leftarrow> invoke E (TerminateContainer newCloseContext ct);
          case err of
            Some e \<Rightarrow> State_Monad.return (errors_Join [Some se,
              Some (Wrapf ''spanemuboost: terminate container after startup failure: %w'' [] e)])
          | None \<Rightarrow> State_Monad.return (Some se)
        }
      | _ \<Rightarrow> State_Monad.return startupErr)"

text \<open>
  A call that starts a container: the container, which may come together with an error.
\<close>

definition run_container :: "env \<Rightarrow> call \<Rightarrow> (Container option \<times> error option) io" where
  "run_container E call = State (\<lambda>w.
     ((if rpc E w call = None \<or> nonnil E w call then Some (container_at E w call) else None, rpc E w call),
      if rpc E w call = None \<or> nonnil E w call
      then record_event (ContainerReturned (container_at E w call), None) (record_event (call, rpc E w call) w)
      else record_event (call, rpc E w call) w))"

definition newEmulator :: "env \<Rightarrow> ctx \<Rightarrow> emulatorOptions \<Rightarrow> Container result io" where
  "newEmulator E c opts = do {
     (container, err) \<leftarrow> run_container E (RunEmulatorContainer c (emulatorImage opts)
       ([TC_WithProjectID (projectID opts), TC_WithCmd (gatewayCmd opts)] @ containerCustomizers opts));
     case (container, err) of
       (Some ct, None) \<Rightarrow> State_Monad.return (Inr ct)
     | (Some ct, Some e) \<Rightarrow> do {
         err \<leftarrow> terminateContainerAfterStartupError E container err;
         State_Monad.return (Inl (the err))
       }
     | (None, _) \<Rightarrow> State_Monad.return (Inl (the err))
   }"

text \<open>The function \<open>teardown\<close> that \<open>newEmulator\<close> returns with the container.\<close>

definition emulatorTeardown :: "env \<Rightarrow> Container \<Rightarrow> unit io" where
  "emulatorTeardown E ct = do {
     _ \<leftarrow> invoke E (TerminateContainer newCloseContext ct);
     State_Monad.return ()
   }"

definition defaultClientOpts :: "Container \<Rightarrow> ClientOption list" where
  "defaultClientOpts emulator =
     [WithEndpoint (''passthrough:///'' @ container_URI emulator), WithInsecureCredentials,
      WithoutAuthentication, SkipDialSettingsValidation]"

subsection \<open>The platform of a container\<close>

definition ociPlatformString :: "OciPlatform option \<Rightarrow> string" where
  "ociPlatformString platform =
     (case platform of
        None \<Rightarrow> []
      | Some p \<Rightarrow>
          if p_OS p = [] \<or> p_Architecture p = [] then []
          else if p_Variant p = [] then p_OS p @ ''/'' @ p_Architecture p
          else p_OS p @ ''/'' @ p_Architecture p @ ''/'' @ p_Variant p)"

definition descriptorPlatformString :: "Descriptor option \<Rightarrow> string" where
  "descriptorPlatformString desc =
     (case desc of
        None \<Rightarrow> []
      | Some d \<Rightarrow> if d_Platform d = None then [] else ociPlatformString (d_Platform d))"

definition inspectContainerPlatform :: "InspectResponse option \<Rightarrow> string result" where
  "inspectContainerPlatform info =
     (case info of
        None \<Rightarrow> Inl (New ''spanemuboost: container inspect response is nil'')
      | Some i \<Rightarrow>
          if descriptorPlatformString (i_Descriptor i) \<noteq> [] then Inr (descriptorPlatformString (i_Descriptor i))
          else if i_Platform i \<noteq> [] then Inr (i_Platform i)
          else Inl (New ''spanemuboost: container platform metadata unavailable''))"

definition inspect :: "env \<Rightarrow> ctx \<Rightarrow> Container \<Rightarrow> (InspectResponse option \<times> error option) io" where
  "inspect E c ct = State (\<lambda>w. ((inspect_at E w (InspectContainer c ct), rpc E w (InspectContainer c ct)),
     record_event (InspectContainer c ct, rpc E w (InspectContainer c ct)) w))"

definition containerPlatform :: "env \<Rightarrow> ctx \<Rightarrow> Container option \<Rightarrow> string result io" where
  "containerPlatform E c container =
     (case container of
        None \<Rightarrow> State_Monad.return (Inl (New ''spanemuboost: container is nil''))
      | Some ct \<Rightarrow> do {
          (info, err) \<leftarrow> inspect E c ct;
          State_Monad.return (case err of
            Some e \<Rightarrow> Inl (Wrapf ''spanemuboost: inspect container platform: %w'' [] e)
          | None \<Rightarrow> inspectContainerPlatform info)
        })"

subsection \<open>Requests\<close>

definition createDatabaseRequest :: "emulatorOptions \<Rightarrow> string \<Rightarrow> string \<Rightarrow> CreateDatabaseRequest" where
  "createDatabaseRequest opts parent createStmt =
     \<lparr>cdr_Parent = parent, cdr_CreateStatement = createStmt, cdr_Dialect = databaseDialect opts,
      cdr_ExtraStatements = setupDDLs opts, cdr_ProtoDescriptors = setupFileDescriptorSet opts\<rparr>"

definition updateDatabaseDdlRequest :: "emulatorOptions \<Rightarrow> UpdateDatabaseDdlRequest" where
  "updateDatabaseDdlRequest opts =
     \<lparr>udr_Database = opts_DatabasePath opts, udr_Statements = setupDDLs opts,
      udr_ProtoDescriptors = setupFileDescriptorSet opts\<rparr>"

text \<open>The text of the \<open>CREATE DATABASE\<close> statement, quoted for the dialect.\<close>

definition createStmt :: "emulatorOptions \<Rightarrow> string" where
  "createStmt opts =
     (if databaseDialect opts \<noteq> POSTGRESQL then ''CREATE DATABASE `'' @ databaseID opts @ ''`''
      else ''CREATE DATABASE '' @ [CHR 0x22] @ replaceAll (databaseID opts) CHR 0x22 [CHR 0x22, CHR 0x22] @ [CHR 0x22])"

definition minimalBootstrapClientConfig :: "ClientConfig \<Rightarrow> ClientConfig" where
  "minimalBootstrapClientConfig config = config\<lparr>MinOpened := 1, MaxOpened := 1\<rparr>"

subsection \<open>Instance and database\<close>

definition createInstance :: "env \<Rightarrow> ctx \<Rightarrow> emulatorOptions \<Rightarrow> error option io" where
  "createInstance E c opts = do {
     err \<leftarrow> invoke E (CreateInstance c \<lparr>cir_Parent = opts_ProjectPath opts, cir_InstanceId = instanceID opts,
       cir_Name = opts_InstancePath opts, cir_Config = ''emulator-config'', cir_DisplayName = instanceID opts\<rparr>);
     case err of
       Some e \<Rightarrow> State_Monad.return (Some e)
     | None \<Rightarrow> invoke E (WaitCreateInstance c)
   }"

definition bootstrapInstance :: "env \<Rightarrow> ctx \<Rightarrow> emulatorOptions \<Rightarrow> (bool \<times> error option) io" where
  "bootstrapInstance E c opts =
     (if disableCreateInstance opts then State_Monad.return (False, None)
      else do {
        err \<leftarrow> createInstance E c opts;
        State_Monad.return (case err of Some e \<Rightarrow> (False, Some e) | None \<Rightarrow> (True, None))
      })"

text \<open>The closure that runs under the lock: the request and the wait for the operation.\<close>

definition createDatabaseLocked :: "env \<Rightarrow> ctx \<Rightarrow> CreateDatabaseRequest \<Rightarrow> error option io" where
  "createDatabaseLocked E c request = do {
     createErr \<leftarrow> invoke E (CreateDatabase c request);
     case createErr of
       Some e \<Rightarrow> State_Monad.return (Some e)
     | None \<Rightarrow> invoke E (WaitCreateDatabase c)
   }"

definition createDatabase :: "env \<Rightarrow> ctx \<Rightarrow> emulatorOptions \<Rightarrow> (bool \<times> error option) io" where
  "createDatabase E c opts = do {
     (lockErr, err) \<leftarrow> withInstanceAdminLock E c (opts_InstancePath opts)
       (createDatabaseLocked E c (createDatabaseRequest opts (opts_InstancePath opts) (createStmt opts))) None;
     case lockErr of
       Some e \<Rightarrow> State_Monad.return (False, Some e)
     | None \<Rightarrow> (case err of
         Some e \<Rightarrow> State_Monad.return (if status_Code E e = AlreadyExists then (False, None) else (False, Some e))
       | None \<Rightarrow> State_Monad.return (True, None))
   }"

definition updateDDLs :: "env \<Rightarrow> ctx \<Rightarrow> emulatorOptions \<Rightarrow> error option io" where
  "updateDDLs E c opts = do {
     err \<leftarrow> invoke E (UpdateDatabaseDdl c (updateDatabaseDdlRequest opts));
     case err of
       Some e \<Rightarrow> State_Monad.return (Some e)
     | None \<Rightarrow> do {
         err \<leftarrow> invoke E (WaitUpdateDatabaseDdl c);
         State_Monad.return (case err of Some e \<Rightarrow> Some (Wrapf ''failed to apply DDL: %w'' [] e) | None \<Rightarrow> None)
       }
   }"

definition bootstrapDatabase :: "env \<Rightarrow> ctx \<Rightarrow> emulatorOptions \<Rightarrow> (bool \<times> error option) io" where
  "bootstrapDatabase E c opts =
     (if \<not> disableCreateDatabase opts then createDatabase E c opts
      else if hasSetupDDLWork opts then do {
        err \<leftarrow> updateDDLs E c opts;
        State_Monad.return (False, err)
      }
      else State_Monad.return (False, None))"

end
