(* ===== verification/Open_Clients.thy ===== *)
theory Open_Clients
  imports Bootstrap
begin

section \<open>Bootstrap and clients together, with rollback (internal.go)\<close>

text \<open>
  The two deprecated bootstraps, the bootstrap that keeps its clients
  (\<open>bootstrapAndCreateClientsWithOptions\<close>) and the rollback of what it created.  A read-write
  transaction that runs one batch of statements is one call, \<open>BatchUpdate\<close>: retries of an
  aborted transaction are the client library's.  \<open>clientConfig\<close> is dereferenced; it is not nil in
  finalized options.
\<close>

subsection \<open>Setup statements\<close>

definition executeDMLsWithClient :: "env \<Rightarrow> ctx \<Rightarrow> emulatorOptions \<Rightarrow> error option io" where
  "executeDMLsWithClient E c opts = do {
     err \<leftarrow> invoke E (BatchUpdate c (setupDMLs opts));
     State_Monad.return (case err of Some e \<Rightarrow> Some (Wrapf ''failed to apply DML: %w'' [] e) | None \<Rightarrow> None)
   }"

definition executeDMLs :: "env \<Rightarrow> ctx \<Rightarrow> emulatorOptions \<Rightarrow> ClientOption list \<Rightarrow> error option io" where
  "executeDMLs E c opts co = do {
     (_, err) \<leftarrow> construct E (NewSpannerClient c (opts_DatabasePath opts)
       (minimalBootstrapClientConfig (zeroClientConfig\<lparr>DisableNativeMetrics := True\<rparr>)) co);
     case err of
       Some e \<Rightarrow> State_Monad.return (Some e)
     | None \<Rightarrow> deferred (invoke E CloseSpannerClient) (do {
         err \<leftarrow> invoke E (BatchUpdate c (setupDMLs opts));
         State_Monad.return (case err of Some e \<Rightarrow> Some (Wrapf ''failed to apply DML: %w'' [] e) | None \<Rightarrow> None)
       })
   }"

subsection \<open>Bootstrap without keeping clients\<close>

text \<open>
  The admin clients are closed by deferred calls when the whole function returns; so what
  follows the instance step runs inside the scope of the instance client's \<open>defer\<close>.
\<close>

definition with_instance_client ::
    "env \<Rightarrow> ctx \<Rightarrow> emulatorOptions \<Rightarrow> ClientOption list \<Rightarrow> error option io \<Rightarrow> error option io" where
  "with_instance_client E c opts co rest =
     (if disableCreateInstance opts then rest
      else do {
        (_, err) \<leftarrow> construct E (NewInstanceAdminClient c co);
        case err of
          Some e \<Rightarrow> State_Monad.return (Some e)
        | None \<Rightarrow> deferred (invoke E CloseInstanceAdminClient) (do {
            (_, err) \<leftarrow> bootstrapInstance E c opts;
            case err of Some e \<Rightarrow> State_Monad.return (Some e) | None \<Rightarrow> rest
          })
      })"

definition with_database_client ::
    "env \<Rightarrow> ctx \<Rightarrow> emulatorOptions \<Rightarrow> ClientOption list \<Rightarrow> error option io \<Rightarrow> error option io" where
  "with_database_client E c opts co rest =
     (if disableCreateDatabase opts \<and> \<not> hasSetupDDLWork opts then rest
      else do {
        (_, err) \<leftarrow> construct E (NewDatabaseAdminClient c co);
        case err of
          Some e \<Rightarrow> State_Monad.return (Some e)
        | None \<Rightarrow> deferred (invoke E CloseDatabaseAdminClient) (do {
            (_, err) \<leftarrow> bootstrapDatabase E c opts;
            case err of Some e \<Rightarrow> State_Monad.return (Some e) | None \<Rightarrow> rest
          })
      })"

definition bootstrap :: "env \<Rightarrow> ctx \<Rightarrow> emulatorOptions \<Rightarrow> ClientOption list \<Rightarrow> error option io" where
  "bootstrap E c opts co =
     with_instance_client E c opts co
       (with_database_client E c opts co
         (if length (setupDMLs opts) > 0 then executeDMLs E c opts co else State_Monad.return None))"

definition bootstrapWithManagedClientConfig :: "env \<Rightarrow> ctx \<Rightarrow> emulatorOptions \<Rightarrow> ClientOption list \<Rightarrow> error option io" where
  "bootstrapWithManagedClientConfig E c opts co =
     with_instance_client E c opts co
       (with_database_client E c opts co
         (if length (setupDMLs opts) = 0 then State_Monad.return None
          else do {
            (_, err) \<leftarrow> construct E (NewSpannerClient c (opts_DatabasePath opts)
              (minimalBootstrapClientConfig (the (clientConfig opts))) (co @ clientOptionsForClient opts));
            case err of
              Some e \<Rightarrow> State_Monad.return (Some e)
            | None \<Rightarrow> deferred (invoke E CloseSpannerClient) (executeDMLsWithClient E c opts)
          }))"

subsection \<open>Rollback\<close>

record createdSchemaResources =
  created_instance :: bool
  created_database :: bool

definition rollbackTimeout :: Duration where "rollbackTimeout = 30 * time_Second"

definition rollbackContext :: ctx where "rollbackContext = WithTimeout Background rollbackTimeout"

definition instanceStillExists :: "env \<Rightarrow> ctx \<Rightarrow> string \<Rightarrow> (bool \<times> error option) io" where
  "instanceStillExists E c path = do {
     err \<leftarrow> invoke E (GetInstance c path);
     State_Monad.return (case err of
       None \<Rightarrow> (True, None)
     | Some e \<Rightarrow> if status_Code E e = NotFound then (False, None) else (False, Some e))
   }"

text \<open>The drop of the database, which the code has twice: the errors to append.\<close>

definition rollback_drop :: "env \<Rightarrow> bool \<Rightarrow> emulatorOptions \<Rightarrow> error option list io" where
  "rollback_drop E dbCli opts =
     (if \<not> dbCli then
        State_Monad.return [Some (Errorf ''rollback drop database %s: database admin client is nil''
          [AStr (opts_DatabasePath opts)])]
      else do {
        err \<leftarrow> dropDatabaseWithRetry E rollbackContext dbCli (opts_DatabasePath opts);
        State_Monad.return (case err of Some e \<Rightarrow> [Some (Wrapf ''rollback %w'' [] e)] | None \<Rightarrow> [])
      })"

text \<open>Deleting the instance: the errors, and whether the database must be dropped by itself.\<close>

definition rollback_instance ::
    "env \<Rightarrow> bool \<Rightarrow> emulatorOptions \<Rightarrow> createdSchemaResources \<Rightarrow> (error option list \<times> bool) io" where
  "rollback_instance E instanceCli opts resources =
     (if \<not> instanceCli then
        State_Monad.return ([Some (Errorf ''rollback delete instance %s: instance admin client is nil''
          [AStr (opts_InstancePath opts)])], created_database resources)
      else do {
        err \<leftarrow> invoke E (DeleteInstance rollbackContext (opts_InstancePath opts));
        case err of
          None \<Rightarrow> State_Monad.return ([], False)
        | Some e \<Rightarrow>
            let errs = [Some (Wrapf ''rollback delete instance %s: %w'' [AStr (opts_InstancePath opts)] e)]
            in if created_database resources then do {
                 (still, existsErr) \<leftarrow> instanceStillExists E rollbackContext (opts_InstancePath opts);
                 State_Monad.return (case existsErr of
                   Some e' \<Rightarrow> (errs @ [Some (Wrapf ''rollback get instance %s: %w'' [AStr (opts_InstancePath opts)] e')], False)
                 | None \<Rightarrow> (errs, still))
               }
               else State_Monad.return (errs, False)
      })"

definition rollbackCreatedResources ::
    "env \<Rightarrow> bool \<Rightarrow> bool \<Rightarrow> emulatorOptions \<Rightarrow> createdSchemaResources \<Rightarrow> error option io" where
  "rollbackCreatedResources E instanceCli dbCli opts resources =
     (if created_instance resources then do {
        (errs, dropDb) \<leftarrow> rollback_instance E instanceCli opts resources;
        errs' \<leftarrow> (if dropDb then rollback_drop E dbCli opts else State_Monad.return []);
        State_Monad.return (errors_Join (errs @ errs'))
      }
      else do {
        errs \<leftarrow> (if created_database resources then rollback_drop E dbCli opts else State_Monad.return []);
        State_Monad.return (errors_Join errs)
      })"

subsection \<open>The bootstrap that returns clients\<close>

text \<open>The variables that the deferred function of the code reads.\<close>

record setup_vars =
  v_dbCli :: bool
  v_client :: bool
  v_created :: createdSchemaResources

definition setup_body ::
    "env \<Rightarrow> ctx \<Rightarrow> emulatorOptions \<Rightarrow> ClientOption list \<Rightarrow> (error option \<times> setup_vars) io" where
  "setup_body E c opts co = do {
     (createdInstance, err) \<leftarrow> bootstrapInstance E c opts;
     let v = \<lparr>v_dbCli = False, v_client = False,
       v_created = \<lparr>created_instance = createdInstance, created_database = False\<rparr>\<rparr>;
     if err \<noteq> None then State_Monad.return (err, v) else do {
       (dbCli, err) \<leftarrow> construct E (NewDatabaseAdminClient c co);
       let v = v\<lparr>v_dbCli := dbCli\<rparr>;
       if err \<noteq> None then State_Monad.return (err, v) else do {
         (createdDatabase, err) \<leftarrow> bootstrapDatabase E c opts;
         let v = v\<lparr>v_created := (v_created v)\<lparr>created_database := createdDatabase\<rparr>\<rparr>;
         if err \<noteq> None then State_Monad.return (err, v) else do {
           (client, err) \<leftarrow> construct E (NewSpannerClient c (opts_DatabasePath opts) (the (clientConfig opts))
             (co @ clientOptionsForClient opts));
           let v = v\<lparr>v_client := client\<rparr>;
           if err \<noteq> None then State_Monad.return (err, v)
           else if length (setupDMLs opts) > 0 then do {
             err \<leftarrow> executeDMLsWithClient E c opts;
             State_Monad.return (err, v)
           }
           else State_Monad.return (None, v)
         }
       }
     }
   }"

text \<open>The deferred function on an error: the error to return.\<close>

definition setup_failed :: "env \<Rightarrow> emulatorOptions \<Rightarrow> error \<Rightarrow> setup_vars \<Rightarrow> error io" where
  "setup_failed E opts retErr v = do {
     _ \<leftarrow> (if v_client v then do { _ \<leftarrow> invoke E CloseSpannerClient; State_Monad.return () } else State_Monad.return ());
     err \<leftarrow> rollbackCreatedResources E True (v_dbCli v) opts (v_created v);
     _ \<leftarrow> (if v_dbCli v then do { _ \<leftarrow> invoke E CloseDatabaseAdminClient; State_Monad.return () } else State_Monad.return ());
     _ \<leftarrow> invoke E CloseInstanceAdminClient;
     State_Monad.return (if err \<noteq> None then the (errors_Join [Some retErr, err]) else retErr)
   }"

definition bootstrapAndCreateClientsWithOptions ::
    "env \<Rightarrow> ctx \<Rightarrow> string \<Rightarrow> emulatorOptions \<Rightarrow> ClientOption list \<Rightarrow> Clients result io" where
  "bootstrapAndCreateClientsWithOptions E c uri opts co = do {
     (_, err) \<leftarrow> construct E (NewInstanceAdminClient c co);
     case err of
       Some e \<Rightarrow> State_Monad.return (Inl e)
     | None \<Rightarrow> do {
         (retErr, v) \<leftarrow> setup_body E c opts co;
         case retErr of
           Some e \<Rightarrow> do { e \<leftarrow> setup_failed E opts e v; State_Monad.return (Inl e) }
         | None \<Rightarrow> State_Monad.return (Inr
             \<lparr>InstanceClient = True, DatabaseClient = v_dbCli v, SpannerClient = v_client v,
              cl_ProjectID = projectID opts, cl_InstanceID = instanceID opts, cl_DatabaseID = databaseID opts,
              clientOpts = co, cl_uri = uri,
              dropDatabase = shouldDropDatabase opts \<and> (created_database (v_created v) \<or> forceTeardown opts),
              dropInstance = shouldDropInstance opts \<and> (created_instance (v_created v) \<or> forceTeardown opts),
              cl_closeState = None\<rparr>)
       }
   }"

text \<open>From runtime.go: what the runtime owns is not dropped by the clients, unless forced.\<close>

definition disableSchemaTeardownUnlessForced :: "emulatorOptions \<Rightarrow> Clients \<Rightarrow> Clients" where
  "disableSchemaTeardownUnlessForced opts clients =
     (if \<not> forceTeardown opts then clients\<lparr>dropDatabase := False, dropInstance := False\<rparr> else clients)"

end
