(* ===== verification/Rollback_Facts.thy ===== *)
theory Rollback_Facts
  imports Open_Clients
begin

section \<open>What bootstrap and rollback do, as facts about their events\<close>

subsection \<open>Reading a history\<close>

datatype handle = InstanceAdmin | DatabaseAdmin | DataClient

text \<open>The client handle that an event opens or closes.\<close>

definition opens :: "event \<Rightarrow> handle option" where
  "opens e =
     (if snd e \<noteq> None then None
      else case fst e of
        NewInstanceAdminClient c co \<Rightarrow> Some InstanceAdmin
      | NewDatabaseAdminClient c co \<Rightarrow> Some DatabaseAdmin
      | NewSpannerClient c db cfg co \<Rightarrow> Some DataClient
      | _ \<Rightarrow> None)"

definition shuts :: "event \<Rightarrow> handle option" where
  "shuts e =
     (case fst e of
        CloseInstanceAdminClient \<Rightarrow> Some InstanceAdmin
      | CloseDatabaseAdminClient \<Rightarrow> Some DatabaseAdmin
      | CloseSpannerClient \<Rightarrow> Some DataClient
      | _ \<Rightarrow> None)"

definition opened :: "handle \<Rightarrow> event list \<Rightarrow> nat" where
  "opened h es = length (filter (\<lambda>e. opens e = Some h) es)"

definition closed :: "handle \<Rightarrow> event list \<Rightarrow> nat" where
  "closed h es = length (filter (\<lambda>e. shuts e = Some h) es)"

lemma opened_simps [simp]:
  "opened h [] = 0"
  "opened h (e # es) = (if opens e = Some h then 1 else 0) + opened h es"
  "opened h (xs @ ys) = opened h xs + opened h ys"
  by (simp_all add: opened_def)

lemma closed_simps [simp]:
  "closed h [] = 0"
  "closed h (e # es) = (if shuts e = Some h then 1 else 0) + closed h es"
  "closed h (xs @ ys) = closed h xs + closed h ys"
  by (simp_all add: closed_def)

text \<open>What the run has created, and whether an event removes something.\<close>

definition made_instance :: "event list \<Rightarrow> bool" where
  "made_instance = list_ex (\<lambda>e. case fst e of WaitCreateInstance _ \<Rightarrow> snd e = None | _ \<Rightarrow> False)"

definition made_database :: "event list \<Rightarrow> bool" where
  "made_database = list_ex (\<lambda>e. case fst e of WaitCreateDatabase _ \<Rightarrow> snd e = None | _ \<Rightarrow> False)"

definition removes :: "event \<Rightarrow> bool" where
  "removes e = (case fst e of DeleteInstance c p \<Rightarrow> True | DropDatabase c db \<Rightarrow> True | _ \<Rightarrow> False)"

definition instance_deleted :: "emulatorOptions \<Rightarrow> event list \<Rightarrow> bool" where
  "instance_deleted opts = list_ex (\<lambda>e. case fst e of
     DeleteInstance _ p \<Rightarrow> p = opts_InstancePath opts \<and> snd e = None | _ \<Rightarrow> False)"

definition database_dropped :: "env \<Rightarrow> event list \<Rightarrow> bool" where
  "database_dropped E = list_ex (drop_completed E)"

lemma made_simps [simp]:
  "\<not> made_instance []" "\<not> made_database []"
  "made_instance (e # es) \<longleftrightarrow> (case fst e of WaitCreateInstance _ \<Rightarrow> snd e = None | _ \<Rightarrow> False) \<or> made_instance es"
  "made_database (e # es) \<longleftrightarrow> (case fst e of WaitCreateDatabase _ \<Rightarrow> snd e = None | _ \<Rightarrow> False) \<or> made_database es"
  "made_instance (xs @ ys) \<longleftrightarrow> made_instance xs \<or> made_instance ys"
  "made_database (xs @ ys) \<longleftrightarrow> made_database xs \<or> made_database ys"
  by (simp_all add: made_instance_def made_database_def)

text \<open>An error of the run: some event returned it.\<close>

definition caused :: "error \<Rightarrow> event list \<Rightarrow> bool" where
  "caused e es \<longleftrightarrow> (\<exists>c root. (c, Some root) \<in> set es \<and> error_Is e root)"

lemma causedI: "(c, Some root) \<in> set es \<Longrightarrow> error_Is e root \<Longrightarrow> caused e es"
  by (auto simp: caused_def)

lemma caused_append [simp]: "caused e xs \<or> caused e ys \<Longrightarrow> caused e (xs @ ys)"
  by (auto simp: caused_def)

lemma caused_Cons: "caused e xs \<Longrightarrow> caused e (x # xs)"
  by (auto simp: caused_def)

lemma caused_here [simp]: "caused e ((c, Some e) # es)" "caused (Wrapf f a e) ((c, Some e) # es)"
  by (auto simp: caused_def intro!: exI [of _ c] exI [of _ e] error_Is_Wrapf)

text \<open>Events that neither open, close nor remove anything and leave the lock as it was.\<close>

definition quiet :: "event list \<Rightarrow> bool" where
  "quiet es \<longleftrightarrow> keeps_lock None es \<and> list_all (\<lambda>e. opens e = None \<and> shuts e = None \<and> \<not> removes e) es"

interpretation quiet: trace_property quiet
  by unfold_locales (auto simp: quiet_def keeps_lock.P_Nil keeps_lock.P_append)

lemma quiet_facts:
  "quiet es \<Longrightarrow> keeps_lock None es" "quiet es \<Longrightarrow> opened h es = 0" "quiet es \<Longrightarrow> closed h es = 0"
  "quiet es \<Longrightarrow> list_all (\<lambda>e. \<not> removes e) es"
  by (auto simp: quiet_def opened_def closed_def list_all_iff filter_empty_conv)

subsection \<open>Creating the instance and the database\<close>

lemma quiet_Nil [simp]: "quiet []"
  by (rule quiet.P_Nil)

lemma quiet_Cons [simp]:
  "quiet ((CreateInstance c q, r) # es) = quiet es" "quiet ((WaitCreateInstance c, r) # es) = quiet es"
  "quiet ((UpdateDatabaseDdl c u, r) # es) = quiet es" "quiet ((WaitUpdateDatabaseDdl c, r) # es) = quiet es"
  "quiet ((BatchUpdate c ss, r) # es) = quiet es" "quiet ((GetInstance c p, r) # es) = quiet es"
  by (simp_all add: quiet_def keeps_lock_def opens_def shuts_def removes_def)

lemma createInstance_spec:
  "ensures (createInstance E c opts) (\<lambda>r es. quiet es \<and> (r = None \<longleftrightarrow> made_instance es) \<and>
     \<not> made_database es \<and> (\<forall>e. r = Some e \<longrightarrow> caused e es))"
  unfolding createInstance_def
  by (rule ensures_bind_invoke, rule ensures_option, rule ensures_invoke, simp add: caused_Cons,
      rule ensures_return, auto intro!: appends_intros)

lemma bootstrapInstance_spec:
  "ensures (bootstrapInstance E c opts) (\<lambda>(created, err) es. quiet es \<and>
     (created \<longleftrightarrow> made_instance es) \<and> \<not> made_database es \<and> (created \<longrightarrow> err = None) \<and>
     (\<forall>e. err = Some e \<longrightarrow> caused e es) \<and> (disableCreateInstance opts \<longrightarrow> es = []))"
  unfolding bootstrapInstance_def
  by (rule ensures_if, rule ensures_return, simp, rule ensures_bind [OF createInstance_spec],
      rule ensures_return, auto split: option.splits intro!: appends_intros)

text \<open>Under the lock of the instance: only the create request and the wait.\<close>

lemma createDatabaseLocked_spec:
  "ensures (createDatabaseLocked E c q) (\<lambda>r es. keeps_lock (Some (cdr_Parent q)) es \<and>
     list_all (\<lambda>e. opens e = None \<and> shuts e = None \<and> \<not> removes e) es \<and>
     (r = None \<longleftrightarrow> made_database es) \<and> \<not> made_instance es \<and> (\<forall>e. r = Some e \<longrightarrow> caused e es))"
  unfolding createDatabaseLocked_def
  by (rule ensures_bind_invoke, rule ensures_option, rule ensures_invoke,
      simp add: caused_Cons keeps_lock_def opens_def shuts_def removes_def,
      rule ensures_return, auto simp: keeps_lock_def opens_def shuts_def removes_def intro!: appends_intros)

lemma ensures_withLock:
  assumes "p \<noteq> []" and "ensures fn R"
    and "\<And>e. Q (Some e, x) [(AcquireLock c p, Some e)]"
    and "\<And>y es r. R y es \<Longrightarrow> Q (None, y) ((AcquireLock c p, None) # es @ [(ReleaseLock p, r)])"
  shows "ensures (withInstanceAdminLock E c p fn x) Q"
proof (rule ensuresI)
  have a: "appends fn" by (rule ensures_appends [OF assms(2)])
  show "appends (withInstanceAdminLock E c p fn x)" by (rule appends_withLock [OF a])
  show "Q (result_of (withInstanceAdminLock E c p fn x) w) (events (withInstanceAdminLock E c p fn x) w)" for w
    unfolding withLock_events [OF assms(1) a]
    using assms(3,4) ensuresD [OF assms(2)]
    by (simp add: result_of_def [of "withInstanceAdminLock E c p fn x"] withLock_run [OF assms(1)] Let_def
        split: option.splits)
qed

lemma quiet_locked:
  assumes "p \<noteq> []" "keeps_lock (Some p) es" "list_all (\<lambda>e. opens e = None \<and> shuts e = None \<and> \<not> removes e) es"
  shows "quiet ((AcquireLock c p, None) # es @ [(ReleaseLock p, r)])"
  using assms by (simp add: quiet_def keeps_lock_def lock_run_append opens_def shuts_def removes_def)

lemma quiet_refused: "p \<noteq> [] \<Longrightarrow> quiet [(AcquireLock c p, Some e)]"
  by (simp add: quiet_def keeps_lock_def opens_def shuts_def removes_def)

lemma createDatabase_spec:
  "ensures (createDatabase E c opts) (\<lambda>(created, err) es. quiet es \<and>
     (created \<longleftrightarrow> made_database es) \<and> \<not> made_instance es \<and> (created \<longrightarrow> err = None) \<and>
     (\<forall>e. err = Some e \<longrightarrow> caused e es))"
proof -
  let ?q = "createDatabaseRequest opts (opts_InstancePath opts) (createStmt opts)"
  let ?p = "opts_InstancePath opts"
  have p: "cdr_Parent ?q = ?p" "?p \<noteq> []"
    by (simp_all add: createDatabaseRequest_def opts_InstancePath_def)
  have lock: "ensures (withInstanceAdminLock E c ?p (createDatabaseLocked E c ?q) None)
      (\<lambda>(lockErr, err) es. quiet es \<and> \<not> made_instance es \<and>
        (lockErr = None \<and> err = None \<longleftrightarrow> made_database es) \<and>
        (\<forall>e. lockErr = Some e \<longrightarrow> caused e es) \<and> (\<forall>e. err = Some e \<longrightarrow> caused e es))"
    by (rule ensures_withLock [OF p(2) createDatabaseLocked_spec])
      (auto simp: quiet_refused p intro!: quiet_locked caused_Cons)
  show ?thesis
    unfolding createDatabase_def
    by (rule ensures_bind [OF lock], rule ensures_prod, rule ensures_option, rule ensures_option,
        rule ensures_return, simp, rule ensures_return, simp, rule ensures_return, simp)
      (intro appends_intros)
qed

lemma updateDDLs_spec:
  "ensures (updateDDLs E c opts) (\<lambda>err es. quiet es \<and> \<not> made_instance es \<and> \<not> made_database es \<and>
     (\<forall>e. err = Some e \<longrightarrow> caused e es))"
  unfolding updateDDLs_def
  by (rule ensures_bind_invoke, rule ensures_option, rule ensures_bind_invoke, rule ensures_return,
      auto simp: caused_Cons intro!: appends_intros ensures_return split: option.splits)

lemma bootstrapDatabase_spec:
  "ensures (bootstrapDatabase E c opts) (\<lambda>(created, err) es. quiet es \<and>
     (created \<longleftrightarrow> made_database es) \<and> \<not> made_instance es \<and> (created \<longrightarrow> err = None) \<and>
     (\<forall>e. err = Some e \<longrightarrow> caused e es) \<and> (disableCreateDatabase opts \<longrightarrow> \<not> created))"
  unfolding bootstrapDatabase_def
  by (rule ensures_if, rule ensures_mono [OF createDatabase_spec], simp add: split_beta, rule ensures_if,
      rule ensures_bind [OF updateDDLs_spec], rule ensures_return, simp, intro appends_intros,
      rule ensures_return, simp)

lemma executeDMLsWithClient_spec:
  "ensures (executeDMLsWithClient E c opts) (\<lambda>err es. quiet es \<and> \<not> made_instance es \<and> \<not> made_database es \<and>
     (\<forall>e. err = Some e \<longrightarrow> caused e es))"
  unfolding executeDMLsWithClient_def
  by (rule ensures_bind_invoke, rule ensures_return, auto intro!: appends_intros split: option.splits)

subsection \<open>The steps of the setup\<close>

definition setup_post :: "error option \<Rightarrow> setup_vars \<Rightarrow> event list \<Rightarrow> bool" where
  "setup_post err v es \<longleftrightarrow>
     keeps_lock None es \<and> list_all (\<lambda>e. \<not> removes e) es \<and>
     (created_instance (v_created v) \<longleftrightarrow> made_instance es) \<and>
     (created_database (v_created v) \<longleftrightarrow> made_database es) \<and> (made_database es \<longrightarrow> v_dbCli v) \<and>
     (\<forall>h. closed h es = 0) \<and> opened InstanceAdmin es = 0 \<and>
     opened DatabaseAdmin es \<le> (if v_dbCli v then 1 else 0) \<and>
     opened DataClient es \<le> (if v_client v then 1 else 0) \<and>
     (err = None \<longrightarrow> v_dbCli v \<and> v_client v \<and> opened DatabaseAdmin es = 1 \<and> opened DataClient es = 1) \<and>
     (\<forall>e. err = Some e \<longrightarrow> caused e es)"

lemma keeps_lock_Cons:
  "keeps_lock None ((NewDatabaseAdminClient c co, r) # es) = keeps_lock None es"
  "keeps_lock None ((NewSpannerClient c db cfg co, r) # es) = keeps_lock None es"
  "keeps_lock None ((NewInstanceAdminClient c co, r) # es) = keeps_lock None es"
  "keeps_lock None ((CloseInstanceAdminClient, r) # es) = keeps_lock None es"
  "keeps_lock None ((CloseDatabaseAdminClient, r) # es) = keeps_lock None es"
  "keeps_lock None ((CloseSpannerClient, r) # es) = keeps_lock None es"
  "keeps_lock None ((DeleteInstance c p, r) # es) = keeps_lock None es"
  "keeps_lock None ((GetInstance c p, r) # es) = keeps_lock None es"
  by (simp_all add: keeps_lock_def)

lemmas event_simps = keeps_lock_Cons keeps_lock.P_Nil
  opens_def [of "(c, r)" for c r] shuts_def [of "(c, r)" for c r] removes_def [of "(c, r)" for c r]

lemma setup_tail_spec:
  "ensures (if length (setupDMLs opts) > 0 then do {
             err \<leftarrow> executeDMLsWithClient E c opts;
             State_Monad.return (err, v)
           }
           else State_Monad.return (None, v))
     (\<lambda>(err, v') es. v' = v \<and> quiet es \<and> \<not> made_instance es \<and> \<not> made_database es \<and>
       (\<forall>e. err = Some e \<longrightarrow> caused e es))"
  by (rule ensures_if, rule ensures_bind [OF executeDMLsWithClient_spec], rule ensures_return, simp,
      intro appends_intros, rule ensures_return, simp)

lemma appends_setup_parts [appends_intros]:
  "appends (bootstrapInstance E c opts)" "appends (bootstrapDatabase E c opts)"
  "appends (executeDMLsWithClient E c opts)"
  using ensures_appends [OF bootstrapInstance_spec] ensures_appends [OF bootstrapDatabase_spec]
    ensures_appends [OF executeDMLsWithClient_spec] by blast+

lemma setup_body_spec: "ensures (setup_body E c opts co) (\<lambda>(err, v) es. setup_post err v es)"
  unfolding setup_body_def Let_def
  apply (rule ensures_bind [OF bootstrapInstance_spec], rule ensures_prod, rule ensures_if, rule ensures_return)
    apply (auto simp: setup_post_def quiet_facts)[1]
   apply (rule ensures_bind_construct, simp only: prod.case, rule ensures_if, rule ensures_return)
     apply (auto simp: setup_post_def quiet_facts event_simps keeps_lock.P_append caused_Cons)[1]
    apply (rule ensures_bind [OF bootstrapDatabase_spec], rule ensures_prod, rule ensures_if, rule ensures_return)
      apply (auto simp: setup_post_def quiet_facts event_simps keeps_lock.P_append caused_Cons)[1]
     apply (rule ensures_bind_construct, simp only: prod.case, rule ensures_if, rule ensures_return)
       apply (auto simp: setup_post_def quiet_facts event_simps keeps_lock.P_append caused_Cons)[1]
      apply (rule ensures_mono [OF setup_tail_spec])
      apply (auto simp: setup_post_def quiet_facts event_simps keeps_lock.P_append caused_Cons)[1]
     apply (intro appends_intros)+
  done

subsection \<open>Rollback\<close>

text \<open>
  What a rollback may do: delete the instance, or drop the database, that this call created,
  under the rollback context, with the lock and the waits of the drop loop.
\<close>

definition rollback_event :: "emulatorOptions \<Rightarrow> createdSchemaResources \<Rightarrow> event \<Rightarrow> bool" where
  "rollback_event opts res e \<longleftrightarrow>
     (case fst e of
        DeleteInstance c p \<Rightarrow> c = rollbackContext \<and> p = opts_InstancePath opts \<and> created_instance res
      | GetInstance c p \<Rightarrow> c = rollbackContext \<and> p = opts_InstancePath opts
      | _ \<Rightarrow> drop_call rollbackContext (opts_DatabasePath opts) (fst e) \<and> created_database res)"

text \<open>What this call created is gone.\<close>

definition cleaned :: "env \<Rightarrow> emulatorOptions \<Rightarrow> createdSchemaResources \<Rightarrow> event list \<Rightarrow> bool" where
  "cleaned E opts res es \<longleftrightarrow>
     (created_instance res \<longrightarrow> instance_deleted opts es) \<and>
     (created_database res \<longrightarrow> instance_deleted opts es \<or> database_dropped E es)"

lemma drop_spec:
  assumes "instancePathFromDatabasePath db \<noteq> []"
  shows "ensures (dropDatabaseWithRetry E c True db) (\<lambda>r es. keeps_lock None es \<and>
    list_all (\<lambda>e. drop_call c db (fst e)) es \<and>
    (lock_errors_are_ctx_errors E \<longrightarrow> (r = None \<longleftrightarrow> list_ex (drop_completed E) es)))"
proof (rule ensuresI)
  show "appends (dropDatabaseWithRetry E c True db)" by (rule appends_intros)
  show "keeps_lock None (events (dropDatabaseWithRetry E c True db) w) \<and>
      list_all (\<lambda>e. drop_call c db (fst e)) (events (dropDatabaseWithRetry E c True db) w) \<and>
      (lock_errors_are_ctx_errors E \<longrightarrow> (result_of (dropDatabaseWithRetry E c True db) w = None \<longleftrightarrow>
        list_ex (drop_completed E) (events (dropDatabaseWithRetry E c True db) w)))" for w
    using dropDatabaseWithRetry_keeps_lock [OF assms, of E c True] dropDatabaseWithRetry_calls [of c db E True]
      drop_attempts_completed [OF assms, of E 1 c None w]
    unfolding emits_def dropDatabaseWithRetry_True by (metis one_le_numeral)
qed

lemma rollback_drop_event: "drop_call rollbackContext (opts_DatabasePath opts) (fst e) \<Longrightarrow> created_database res \<Longrightarrow>
    rollback_event opts res e"
  by (auto simp: rollback_event_def drop_call_def)

lemma rollback_drop_spec:
  assumes "created_database res"
  shows "ensures (rollback_drop E dbCli opts) (\<lambda>errs es. keeps_lock None es \<and> list_all (rollback_event opts res) es \<and>
    None \<notin> set errs \<and> (lock_errors_are_ctx_errors E \<and> errs = [] \<longrightarrow> database_dropped E es))"
proof (cases dbCli)
  case True
  have p: "instancePathFromDatabasePath (opts_DatabasePath opts) \<noteq> []"
    by (simp add: opts_DatabasePath_def)
  have "ensures (do {
        err \<leftarrow> dropDatabaseWithRetry E rollbackContext True (opts_DatabasePath opts);
        State_Monad.return (case err of Some e \<Rightarrow> [Some (Wrapf ''rollback %w'' [] e)] | None \<Rightarrow> [])
      }) (\<lambda>errs es. keeps_lock None es \<and> list_all (rollback_event opts res) es \<and>
        None \<notin> set errs \<and> (lock_errors_are_ctx_errors E \<and> errs = [] \<longrightarrow> database_dropped E es))"
    by (rule ensures_bind [OF drop_spec [OF p]], rule ensures_return)
      (auto simp: database_dropped_def list_all_iff intro: rollback_drop_event [OF _ assms] split: option.splits)
  with True show ?thesis by (simp add: rollback_drop_def)
next
  case False
  then show ?thesis
    by (simp add: rollback_drop_def ensures_return keeps_lock.P_Nil)
qed

lemma instanceStillExists_spec:
  "ensures (instanceStillExists E c p) (\<lambda>x es. \<exists>r. es = [(GetInstance c p, r)])"
  unfolding instanceStillExists_def
  by (rule ensures_bind_invoke, rule ensures_return, simp, intro appends_intros)

lemma appends_rollback_parts [appends_intros]:
  "appends (instanceStillExists E c p)" "appends (rollback_drop E dbCli opts)"
  "appends (executeDMLs E c opts co)" "appends (rollback_instance E b opts res)"
  unfolding instanceStillExists_def rollback_drop_def executeDMLs_def rollback_instance_def Let_def
  by (intro appends_intros)+

lemma rollback_instance_spec:
  assumes "created_instance res"
  shows "ensures (rollback_instance E True opts res) (\<lambda>(errs, dropDb) es.
    keeps_lock None es \<and> list_all (rollback_event opts res) es \<and> None \<notin> set errs \<and>
    (errs = [] \<longrightarrow> instance_deleted opts es \<and> \<not> dropDb) \<and> (dropDb \<longrightarrow> created_database res) \<and>
    (\<exists>r. (DeleteInstance rollbackContext (opts_InstancePath opts), r) \<in> set es))"
  unfolding rollback_instance_def Let_def
  apply (rule ensures_if, simp, rule ensures_bind_invoke, rule ensures_option, rule ensures_return)
     apply (use assms in \<open>auto simp: event_simps rollback_event_def instance_deleted_def\<close>)[1]
    apply (rule ensures_if, rule ensures_bind [OF instanceStillExists_spec], rule ensures_prod, rule ensures_return)
      apply (use assms in \<open>auto simp: event_simps rollback_event_def split: option.splits\<close>)[1]
     apply (intro appends_intros)
    apply (rule ensures_return)
    apply (use assms in \<open>auto simp: event_simps rollback_event_def\<close>)[1]
   apply (intro appends_intros)
  done

lemma errors_Join_None: "None \<notin> set errs \<Longrightarrow> errors_Join errs = None \<longleftrightarrow> errs = []"
  by (cases errs) auto

lemma rollback_spec:
  "ensures (rollbackCreatedResources E True dbCli opts res) (\<lambda>r es. keeps_lock None es \<and>
     list_all (rollback_event opts res) es \<and>
     (created_instance res \<longrightarrow> (\<exists>x. (DeleteInstance rollbackContext (opts_InstancePath opts), x) \<in> set es)) \<and>
     (lock_errors_are_ctx_errors E \<and> r = None \<longrightarrow> cleaned E opts res es))"
proof (cases "created_instance res")
  case True
  have drop: "ensures (if b then rollback_drop E dbCli opts else State_Monad.return [])
      (\<lambda>errs es. keeps_lock None es \<and> list_all (rollback_event opts res) es \<and> None \<notin> set errs)"
    if "b \<longrightarrow> created_database res" for b
    using that by (auto intro!: ensures_return ensures_mono [OF rollback_drop_spec] keeps_lock.P_Nil)
  show ?thesis
    unfolding rollbackCreatedResources_def
    apply (simp only: True if_True, rule ensures_bind [OF rollback_instance_spec [OF True]], rule ensures_prod)
     apply (rule ensures_bind [OF drop])
       apply simp
      apply (rule ensures_return)
      apply (auto simp: keeps_lock.P_append errors_Join_None cleaned_def instance_deleted_def True simp del: errors_Join_None_iff)[1]
     apply (intro appends_intros)+
    done
next
  case False
  have drop: "ensures (if created_database res then rollback_drop E dbCli opts else State_Monad.return [])
      (\<lambda>errs es. keeps_lock None es \<and> list_all (rollback_event opts res) es \<and> None \<notin> set errs \<and>
        (lock_errors_are_ctx_errors E \<and> errs = [] \<and> created_database res \<longrightarrow> database_dropped E es))"
    by (auto intro!: ensures_return ensures_mono [OF rollback_drop_spec] keeps_lock.P_Nil)
  show ?thesis
    unfolding rollbackCreatedResources_def
    by (simp only: False if_False, rule ensures_bind [OF drop], rule ensures_return)
      (auto simp: False cleaned_def errors_Join_None simp del: errors_Join_None_iff intro!: appends_intros)
qed

subsection \<open>The whole setup\<close>

lemma rollback_event_facts:
  assumes "rollback_event opts res e"
  shows "opens e = None" "shuts e = None" "\<not> made_instance [e]" "\<not> made_database [e]"
  using assms
  by (auto simp: rollback_event_def drop_call_def opens_def shuts_def split: call.splits)

lemma rollback_events_facts:
  assumes "list_all (rollback_event opts res) es"
  shows "opened h es = 0" "closed h es = 0" "\<not> made_instance es" "\<not> made_database es"
proof -
  have "opened h es = 0 \<and> closed h es = 0 \<and> \<not> made_instance es \<and> \<not> made_database es"
    using assms
  proof (induction es)
    case (Cons e es)
    then show ?case using rollback_event_facts [of opts res e] by simp
  qed simp
  then show "opened h es = 0" "closed h es = 0" "\<not> made_instance es" "\<not> made_database es" by auto
qed

lemma setup_failed_spec:
  assumes "appends (rollbackCreatedResources E True (v_dbCli v) opts (v_created v))"
  shows "ensures (setup_failed E opts e0 v) (\<lambda>e es. keeps_lock None es \<and> \<not> made_instance es \<and> \<not> made_database es \<and>
    (\<forall>h. opened h es = 0) \<and> closed InstanceAdmin es = 1 \<and>
    closed DatabaseAdmin es = (if v_dbCli v then 1 else 0) \<and> closed DataClient es = (if v_client v then 1 else 0) \<and>
    list_all (\<lambda>x. removes x \<longrightarrow> rollback_event opts (v_created v) x) es \<and>
    (e = e0 \<or> (\<exists>r. e = Join [e0, r])) \<and>
    (lock_errors_are_ctx_errors E \<longrightarrow> cleaned E opts (v_created v) es \<or> (\<exists>r. e = Join [e0, r])))"
proof -
  let ?close = "\<lambda>b c. if b then do { _ \<leftarrow> invoke E c; State_Monad.return () } else State_Monad.return ()"
  have close: "ensures (?close b c) (\<lambda>x es. (b \<longrightarrow> (\<exists>r. es = [(c, r)])) \<and> (\<not> b \<longrightarrow> es = []))" for b c
    by (rule ensures_if, rule ensures_bind_invoke, rule ensures_return)
      (auto intro!: appends_intros ensures_return)
  have idel: "instance_deleted opts ys \<Longrightarrow> instance_deleted opts (xs @ ys @ zs)"
    "database_dropped E ys \<Longrightarrow> database_dropped E (xs @ ys @ zs)" for xs ys zs
    by (auto simp: instance_deleted_def database_dropped_def)
  then have clean: "cleaned E opts res ys \<Longrightarrow> cleaned E opts res (xs @ ys @ zs)" for res xs ys zs
    unfolding cleaned_def by blast
  have join: "errors_Join [Some e0, Some y] = Some (Join [e0, y])" for y
    by (simp add: errors_Join_def)
  show ?thesis
    unfolding setup_failed_def
    apply (rule ensures_bind [OF close], rule ensures_bind [OF rollback_spec], rule ensures_bind [OF close],
        rule ensures_bind_invoke, rule ensures_return)
    subgoal for x es r es' x' es'' r'
    proof -
      assume 1: "(v_client v \<longrightarrow> (\<exists>r. es = [(CloseSpannerClient, r)])) \<and> (\<not> v_client v \<longrightarrow> es = [])"
        and 2: "keeps_lock None es' \<and> list_all (rollback_event opts (v_created v)) es' \<and>
          (created_instance (v_created v) \<longrightarrow>
            (\<exists>x. (DeleteInstance rollbackContext (opts_InstancePath opts), x) \<in> set es')) \<and>
          (lock_errors_are_ctx_errors E \<and> r = None \<longrightarrow> cleaned E opts (v_created v) es')"
        and 3: "(v_dbCli v \<longrightarrow> (\<exists>r. es'' = [(CloseDatabaseAdminClient, r)])) \<and> (\<not> v_dbCli v \<longrightarrow> es'' = [])"
      note facts = rollback_events_facts [OF conjunct1 [OF conjunct2 [OF 2]]]
      note c = clean [of "v_created v" es' es "es'' @ [(CloseInstanceAdminClient, r')]"]
      have l: "keeps_lock None (es @ es' @ es'' @ [(CloseInstanceAdminClient, r')])"
        using 1 2 3 by (cases "v_client v"; cases "v_dbCli v") (auto simp: event_simps keeps_lock.P_append)
      have rm: "list_all (\<lambda>x. removes x \<longrightarrow> rollback_event opts (v_created v) x)
          (es @ es' @ es'' @ [(CloseInstanceAdminClient, r')])"
        using 1 2 3 by (cases "v_client v"; cases "v_dbCli v") (auto simp: event_simps list_all_iff)
      have counts: "\<forall>h. opened h (es @ es'') = 0" "closed DataClient es = (if v_client v then 1 else 0)"
        "closed DatabaseAdmin es = 0" "closed InstanceAdmin es = 0" "closed InstanceAdmin es'' = 0"
        "closed DataClient es'' = 0" "closed DatabaseAdmin es'' = (if v_dbCli v then 1 else 0)"
        "\<not> made_instance (es @ es'')" "\<not> made_database (es @ es'')"
        using 1 3 by (cases "v_client v"; cases "v_dbCli v"; auto simp: event_simps)+
      show ?thesis
        using l rm counts facts c 2 by (cases r) (auto simp: event_simps join)
    qed
    by (intro appends_intros assms)+
qed

lemma appends_setup [appends_intros]:
  "appends (setup_body E c opts co)" "appends (rollbackCreatedResources E True b opts res)"
  "appends (setup_failed E opts e v)"
  using ensures_appends [OF setup_body_spec] ensures_appends [OF rollback_spec]
    ensures_appends [OF setup_failed_spec [OF ensures_appends [OF rollback_spec]]] by blast+

lemma appends_bootstrapAndCreateClients [appends_intros]:
  "appends (bootstrapAndCreateClientsWithOptions E c uri opts co)"
  unfolding bootstrapAndCreateClientsWithOptions_def by (intro appends_intros)

text \<open>The resources that a history created.\<close>

definition created_by :: "event list \<Rightarrow> createdSchemaResources" where
  "created_by es = \<lparr>created_instance = made_instance es, created_database = made_database es\<rparr>"

text \<open>
  A failed setup: the error has a cause in the history, every client opened is closed, only
  what this call created is removed, and it is removed unless the error reports the failed
  rollback.
\<close>

definition setup_rolled_back :: "env \<Rightarrow> emulatorOptions \<Rightarrow> error \<Rightarrow> event list \<Rightarrow> bool" where
  "setup_rolled_back E opts e es \<longleftrightarrow>
     caused e es \<and> (\<forall>h. opened h es \<le> closed h es) \<and>
     list_all (\<lambda>x. removes x \<longrightarrow> rollback_event opts (created_by es) x) es \<and>
     (lock_errors_are_ctx_errors E \<longrightarrow>
        cleaned E opts (created_by es) es \<or> (\<exists>e0 r. e = Join [e0, r] \<and> caused e0 es))"

text \<open>A successful setup: three clients are open, nothing was removed, and the teardown flags are set.\<close>

definition setup_done :: "ctx \<Rightarrow> string \<Rightarrow> emulatorOptions \<Rightarrow> ClientOption list \<Rightarrow> Clients \<Rightarrow> event list \<Rightarrow> bool" where
  "setup_done c uri opts co cl es \<longleftrightarrow>
     (\<forall>h. opened h es = 1 \<and> closed h es = 0) \<and> list_all (\<lambda>x. \<not> removes x) es \<and>
     InstanceClient cl \<and> DatabaseClient cl \<and> SpannerClient cl \<and> cl_closeState cl = None \<and>
     cl_uri cl = uri \<and> clientOpts cl = co \<and>
     Clients_DatabasePath cl = opts_DatabasePath opts \<and> Clients_InstancePath cl = opts_InstancePath opts \<and>
     (dropDatabase cl \<longleftrightarrow> shouldDropDatabase opts \<and> (made_database es \<or> forceTeardown opts)) \<and>
     (dropInstance cl \<longleftrightarrow> shouldDropInstance opts \<and> (made_instance es \<or> forceTeardown opts))"

lemma caused_Join: "caused e es \<Longrightarrow> caused (Join [e, r]) es"
  unfolding caused_def by (meson error_Is_Join list.set_intros(1))

lemma all_handles: "(\<forall>h. P h) \<longleftrightarrow> P InstanceAdmin \<and> P DatabaseAdmin \<and> P DataClient"
  by (metis handle.exhaust)

lemma setup_done_intro:
  assumes "setup_post None v es"
  shows "setup_done c uri opts co
    \<lparr>InstanceClient = True, DatabaseClient = v_dbCli v, SpannerClient = v_client v,
     cl_ProjectID = projectID opts, cl_InstanceID = instanceID opts, cl_DatabaseID = databaseID opts,
     clientOpts = co, cl_uri = uri,
     dropDatabase = shouldDropDatabase opts \<and> (created_database (v_created v) \<or> forceTeardown opts),
     dropInstance = shouldDropInstance opts \<and> (created_instance (v_created v) \<or> forceTeardown opts),
     cl_closeState = None\<rparr> ((NewInstanceAdminClient c co, None) # es)"
  using assms
  by (simp add: setup_post_def setup_done_def event_simps Clients_DatabasePath_def all_handles
      Clients_InstancePath_def opts_DatabasePath_def opts_InstancePath_def)

lemma setup_rolled_back_intro:
  assumes "setup_post (Some e0) v xs"
    and ys: "\<not> made_instance ys" "\<not> made_database ys" "\<forall>h. opened h ys = 0" "closed InstanceAdmin ys = 1"
      "closed DatabaseAdmin ys = (if v_dbCli v then 1 else 0)" "closed DataClient ys = (if v_client v then 1 else 0)"
      "list_all (\<lambda>x. removes x \<longrightarrow> rollback_event opts (v_created v) x) ys"
      "e = e0 \<or> (\<exists>r. e = Join [e0, r])"
      "lock_errors_are_ctx_errors E \<longrightarrow> cleaned E opts (v_created v) ys \<or> (\<exists>r. e = Join [e0, r])"
  shows "setup_rolled_back E opts e ((NewInstanceAdminClient c co, None) # xs @ ys)"
proof -
  let ?es = "(NewInstanceAdminClient c co, None) # xs @ ys"
  note post = assms(1) [unfolded setup_post_def]
  have res: "created_by ?es = v_created v"
    using post ys(1,2) by (cases "v_created v") (simp add: created_by_def)
  have c0: "caused e0 ?es" using post by (simp add: caused_Cons)
  then have "caused e ?es" using ys(8) caused_Join by blast
  moreover have "\<forall>h. opened h ?es \<le> closed h ?es"
    using post ys(3-6) by (simp add: all_handles event_simps)
  moreover have "list_all (\<lambda>x. removes x \<longrightarrow> rollback_event opts (created_by ?es) x) ?es"
    using post ys(7) by (auto simp: res event_simps list_all_iff)
  moreover have "cleaned E opts (v_created v) ys \<Longrightarrow> cleaned E opts (created_by ?es) ?es"
    unfolding res by (auto simp: cleaned_def instance_deleted_def database_dropped_def)
  ultimately show ?thesis
    using ys(9) c0 by (auto simp: setup_rolled_back_def)
qed

lemma setup_spec:
  "ensures (bootstrapAndCreateClientsWithOptions E c uri opts co) (\<lambda>r es. keeps_lock None es \<and>
     (case r of Inl e \<Rightarrow> setup_rolled_back E opts e es | Inr cl \<Rightarrow> setup_done c uri opts co cl es))"
proof -
  have l: "setup_post err v es \<Longrightarrow> keeps_lock None es" for err v es
    by (simp add: setup_post_def)
  have refused: "setup_rolled_back E opts e [(NewInstanceAdminClient c co, Some e)]" for e
    by (simp add: setup_rolled_back_def event_simps cleaned_def created_by_def)
  show ?thesis
    unfolding bootstrapAndCreateClientsWithOptions_def
    apply (rule ensures_bind_construct, simp only: prod.case, rule ensures_option,
        rule ensures_bind [OF setup_body_spec], rule ensures_prod, rule ensures_option, rule ensures_return)
        apply (simp add: event_simps l setup_done_intro)
       apply (rule ensures_bind [OF setup_failed_spec], intro appends_intros, rule ensures_return)
        apply (auto simp: event_simps intro!: keeps_lock.P_append setup_rolled_back_intro dest: l)[1]
       apply (intro appends_intros)+
     apply (rule ensures_return)
     apply (simp add: event_simps refused)
    apply (intro appends_intros)
    done
qed

subsection \<open>The bootstraps that keep no client\<close>

definition boot_inv :: "error option \<Rightarrow> event list \<Rightarrow> bool" where
  "boot_inv err es \<longleftrightarrow>
     keeps_lock None es \<and> list_all (\<lambda>e. \<not> removes e) es \<and> (\<forall>h. opened h es = closed h es) \<and>
     (\<forall>e. err = Some e \<longrightarrow> caused e es)"

lemma boot_inv_None: "boot_inv None []"
  by (simp add: boot_inv_def keeps_lock.P_Nil)

lemma with_instance_client_inv:
  assumes "ensures rest boot_inv"
  shows "ensures (with_instance_client E c opts co rest) boot_inv"
proof -
  note a = ensures_appends [OF assms]
  show ?thesis
    unfolding with_instance_client_def
    apply (rule ensures_if [OF assms], rule ensures_bind_construct, simp only: prod.case, rule ensures_option,
        rule ensures_deferred_invoke, rule ensures_bind [OF bootstrapInstance_spec], rule ensures_prod,
        rule ensures_option, rule ensures_mono [OF assms])
        apply (auto simp: boot_inv_def event_simps quiet_facts all_handles keeps_lock.P_append caused_Cons)[1]
       apply (rule ensures_return)
       apply (auto simp: boot_inv_def event_simps quiet_facts all_handles keeps_lock.P_append caused_Cons)[1]
      apply (intro appends_intros a)
     apply (rule ensures_return)
     apply (auto simp: boot_inv_def event_simps all_handles)[1]
    apply (intro appends_intros a)
    done
qed

lemma with_database_client_inv:
  assumes "ensures rest boot_inv"
  shows "ensures (with_database_client E c opts co rest) boot_inv"
proof -
  note a = ensures_appends [OF assms]
  show ?thesis
    unfolding with_database_client_def
    apply (rule ensures_if [OF assms], rule ensures_bind_construct, simp only: prod.case, rule ensures_option,
        rule ensures_deferred_invoke, rule ensures_bind [OF bootstrapDatabase_spec], rule ensures_prod,
        rule ensures_option, rule ensures_mono [OF assms])
        apply (auto simp: boot_inv_def event_simps quiet_facts all_handles keeps_lock.P_append caused_Cons)[1]
       apply (rule ensures_return)
       apply (auto simp: boot_inv_def event_simps quiet_facts all_handles keeps_lock.P_append caused_Cons)[1]
      apply (intro appends_intros a)
     apply (rule ensures_return)
     apply (auto simp: boot_inv_def event_simps all_handles)[1]
    apply (intro appends_intros a)
    done
qed

text \<open>A data client that lives for one batch of statements.\<close>

lemma batch_client_inv:
  "ensures (do {
     (_, err) \<leftarrow> construct E (NewSpannerClient c db cfg co);
     case err of
       Some e \<Rightarrow> State_Monad.return (Some e)
     | None \<Rightarrow> deferred (invoke E CloseSpannerClient) (executeDMLsWithClient E c opts)
   }) boot_inv"
  apply (rule ensures_bind_construct, simp only: prod.case, rule ensures_option,
      rule ensures_deferred_invoke, rule ensures_mono [OF executeDMLsWithClient_spec])
    apply (auto simp: boot_inv_def event_simps quiet_facts all_handles keeps_lock.P_append caused_Cons)[1]
   apply (rule ensures_return)
   apply (auto simp: boot_inv_def event_simps all_handles)[1]
  apply (intro appends_intros)
  done

lemma executeDMLs_eq:
  "executeDMLs E c opts co = do {
     (_, err) \<leftarrow> construct E (NewSpannerClient c (opts_DatabasePath opts)
       (minimalBootstrapClientConfig (zeroClientConfig\<lparr>DisableNativeMetrics := True\<rparr>)) co);
     case err of
       Some e \<Rightarrow> State_Monad.return (Some e)
     | None \<Rightarrow> deferred (invoke E CloseSpannerClient) (executeDMLsWithClient E c opts)
   }"
  unfolding executeDMLs_def executeDMLsWithClient_def ..

lemma bootstrap_inv: "ensures (bootstrap E c opts co) boot_inv"
  unfolding bootstrap_def executeDMLs_eq
  by (intro with_instance_client_inv with_database_client_inv ensures_if batch_client_inv ensures_return boot_inv_None)

lemma bootstrapWithManagedClientConfig_inv: "ensures (bootstrapWithManagedClientConfig E c opts co) boot_inv"
  unfolding bootstrapWithManagedClientConfig_def
  by (intro with_instance_client_inv with_database_client_inv ensures_if batch_client_inv ensures_return boot_inv_None)

lemma appends_bootstraps [appends_intros]:
  "appends (bootstrap E c opts co)" "appends (bootstrapWithManagedClientConfig E c opts co)"
  using ensures_appends [OF bootstrap_inv] ensures_appends [OF bootstrapWithManagedClientConfig_inv] by blast+

end
