(* ===== verification/Files.thy ===== *)
theory Files
  imports World
begin

section \<open>Files, paths and the clock (packages os, path/filepath and time)\<close>

text \<open>
  The file operations the program uses, on the files of the world.  A failure of any kind other
  than a missing file is the environment's choice (\<open>os_fail\<close>).  The last group models
  \<open>filepath.Dir\<close> on Unix paths.
\<close>

definition os_step :: "env \<Rightarrow> call \<Rightarrow> (world \<Rightarrow> error option) \<Rightarrow> (world \<Rightarrow> string \<Rightarrow> os_file option) \<Rightarrow>
    (world \<Rightarrow> string \<Rightarrow> os_file option) \<Rightarrow> error option io" where
  "os_step E c check done failed = State (\<lambda>w.
     case os_fail E w c of
       Some n \<Rightarrow> (Some (External n), record_event (c, Some (External n)) (w\<lparr>files := failed w\<rparr>))
     | None \<Rightarrow>
         (case check w of
            Some e \<Rightarrow> (Some e, record_event (c, Some e) w)
          | None \<Rightarrow> (None, record_event (c, None) (w\<lparr>files := done w\<rparr>))))"

definition exists_check :: "string \<Rightarrow> world \<Rightarrow> error option" where
  "exists_check p w = (if files w p = None then Some (NotExist p) else None)"

definition no_check :: "world \<Rightarrow> error option" where
  "no_check w = None"

definition os_ReadFile :: "env \<Rightarrow> string \<Rightarrow> string result io" where
  "os_ReadFile E p = State (\<lambda>w.
     case run_state (os_step E (ReadFile p) (exists_check p) files files) w of
       (Some e, w') \<Rightarrow> (Inl e, w')
     | (None, w') \<Rightarrow> (Inr (case files w p of Some f \<Rightarrow> content f | None \<Rightarrow> []), w'))"

text \<open>An existing file keeps its mode.\<close>

definition written :: "world \<Rightarrow> string \<Rightarrow> string \<Rightarrow> nat \<Rightarrow> string \<Rightarrow> os_file option" where
  "written w p data m = (files w)(p \<mapsto> \<lparr>content = data,
     mode = (case files w p of Some f \<Rightarrow> mode f | None \<Rightarrow> m)\<rparr>)"

definition os_WriteFile :: "env \<Rightarrow> string \<Rightarrow> string \<Rightarrow> nat \<Rightarrow> error option io" where
  "os_WriteFile E p data m =
     (let c = WriteFile p data m
      in os_step E c no_check (\<lambda>w. written w p data m) (\<lambda>w. (files w)(p := left_behind E w c)))"

definition os_Remove :: "env \<Rightarrow> string \<Rightarrow> error option io" where
  "os_Remove E p = os_step E (RemoveFile p) (exists_check p) (\<lambda>w. (files w)(p := None)) files"

definition os_Stat :: "env \<Rightarrow> string \<Rightarrow> error option io" where
  "os_Stat E p = os_step E (StatFile p) (exists_check p) files files"

definition os_MkdirAll :: "env \<Rightarrow> string \<Rightarrow> nat \<Rightarrow> error option io" where
  "os_MkdirAll E p m = os_step E (MkdirAll p m) no_check files files"

text \<open>\<open>os.CreateTemp\<close>: the environment picks the name; a new empty file of mode 0600.\<close>

definition os_CreateTemp :: "env \<Rightarrow> string \<Rightarrow> string \<Rightarrow> string result io" where
  "os_CreateTemp E dir pattern = State (\<lambda>w.
     let c = CreateTemp dir pattern; name = string_at E w c
     in case run_state (os_step E c no_check (\<lambda>w. (files w)(name \<mapsto> \<lparr>content = [], mode = 384\<rparr>)) files) w of
          (Some e, w') \<Rightarrow> (Inl e, w')
        | (None, w') \<Rightarrow> (Inr name, w'))"

text \<open>Writing to, changing the mode of and closing the open temporary file.\<close>

definition tmp_Write :: "env \<Rightarrow> string \<Rightarrow> string \<Rightarrow> error option io" where
  "tmp_Write E name data =
     (let c = WriteTemp name data
      in os_step E c no_check (\<lambda>w. written w name data 384) (\<lambda>w. (files w)(name := left_behind E w c)))"

definition chmod :: "nat \<Rightarrow> os_file option \<Rightarrow> os_file option" where
  "chmod m f = (case f of None \<Rightarrow> None | Some g \<Rightarrow> Some (g\<lparr>mode := m\<rparr>))"

definition tmp_Chmod :: "env \<Rightarrow> string \<Rightarrow> nat \<Rightarrow> error option io" where
  "tmp_Chmod E name m =
     os_step E (ChmodTemp name m) no_check (\<lambda>w. (files w)(name := chmod m (files w name))) files"

definition tmp_Close :: "env \<Rightarrow> string \<Rightarrow> error option io" where
  "tmp_Close E name = os_step E (CloseTemp name) no_check files files"

definition os_Rename :: "env \<Rightarrow> string \<Rightarrow> string \<Rightarrow> error option io" where
  "os_Rename E a b =
     os_step E (RenameFile a b) (exists_check a) (\<lambda>w. (files w)(b := files w a, a := if a = b then files w a else None)) files"

subsection \<open>The clock and waiting\<close>

definition time_Now :: "int io" where
  "time_Now = State (\<lambda>w. (clock w, w))"

text \<open>A wait: the timer fires (None) or the context ends first; the world may have changed.\<close>

definition wait_for :: "env \<Rightarrow> ctx \<Rightarrow> Duration \<Rightarrow> error option io" where
  "wait_for E c d = State (\<lambda>w.
     let r = rpc E w (AwaitTimer c d)
     in (r, (record_event (AwaitTimer c d, r) w)\<lparr>files := files_after E w d, clock := clock_after E w d\<rparr>))"

text \<open>\<open>\<langle>-ctx.Done()\<close>: the error of the context; the time and the files after.\<close>

definition await_done :: "env \<Rightarrow> ctx \<Rightarrow> error option io" where
  "await_done E c = State (\<lambda>w.
     let r = rpc E w (AwaitCancel c)
     in (r, (record_event (AwaitCancel c, r) w)\<lparr>files := files_after E w 0, clock := clock_after E w 0\<rparr>))"

subsection \<open>What the operations do\<close>

lemma run_os_step:
  "run_state (os_step E c check done failed) w =
     (case os_fail E w c of
       Some n \<Rightarrow> (Some (External n), record_event (c, Some (External n)) (w\<lparr>files := failed w\<rparr>))
     | None \<Rightarrow>
         (case check w of
            Some e \<Rightarrow> (Some e, record_event (c, Some e) w)
          | None \<Rightarrow> (None, record_event (c, None) (w\<lparr>files := done w\<rparr>))))"
  by (simp add: os_step_def)

lemma appends_os_step [appends_intros]: "appends (os_step E c check done failed)"
  by (auto simp: appends_def world_after_def run_os_step record_event_def split: option.splits)

lemma appends_files [appends_intros]:
  "appends (os_ReadFile E p)" "appends (os_WriteFile E p data m)" "appends (os_Remove E p)"
  "appends (os_Stat E p)" "appends (os_MkdirAll E p m)" "appends (os_CreateTemp E dir pattern)"
  "appends (tmp_Write E name data)" "appends (tmp_Chmod E name m)" "appends (tmp_Close E name)"
  "appends (os_Rename E a b)" "appends time_Now" "appends (wait_for E c d)" "appends (await_done E c)"
  unfolding os_WriteFile_def os_Remove_def os_Stat_def os_MkdirAll_def tmp_Write_def tmp_Chmod_def
    tmp_Close_def os_Rename_def Let_def
  by (intro appends_intros | auto simp: appends_def world_after_def os_ReadFile_def os_CreateTemp_def
      time_Now_def wait_for_def await_done_def Let_def run_os_step record_event_def split: option.splits)+

subsection \<open>filepath.Dir\<close>

text \<open>The segments of a path; empty ones and dots are dropped, \<open>..\<close> removes the one before it.\<close>

fun split_path :: "string \<Rightarrow> string list" where
  "split_path [] = [[]]"
| "split_path (c # s) =
     (if c = CHR ''/'' then [] # split_path s
      else case split_path s of [] \<Rightarrow> [[c]] | x # xs \<Rightarrow> (c # x) # xs)"

fun clean_segments :: "bool \<Rightarrow> string list \<Rightarrow> string list \<Rightarrow> string list" where
  "clean_segments rooted acc [] = rev acc"
| "clean_segments rooted acc (x # xs) =
     (if x = [] \<or> x = ''.'' then clean_segments rooted acc xs
      else if x = ''..'' then
        (case acc of
           [] \<Rightarrow> clean_segments rooted (if rooted then [] else [''..'']) xs
         | y # ys \<Rightarrow> clean_segments rooted (if y = ''..'' then ''..'' # acc else ys) xs)
      else clean_segments rooted (x # acc) xs)"

fun join_path :: "string list \<Rightarrow> string" where
  "join_path [] = []"
| "join_path [x] = x"
| "join_path (x # xs) = x @ ''/'' @ join_path xs"

definition filepath_Clean :: "string \<Rightarrow> string" where
  "filepath_Clean p =
     (let rooted = (p \<noteq> [] \<and> hd p = CHR ''/'');
          s = join_path (clean_segments rooted [] (split_path p))
      in if rooted then CHR ''/'' # s else if s = [] then ''.'' else s)"

definition filepath_Dir :: "string \<Rightarrow> string" where
  "filepath_Dir p = filepath_Clean (take (nat (lastIndex p CHR ''/'' + 1)) p)"

end
