(* ===== verification/Provenance.thy ===== *)
theory Provenance
  imports Rollback_Facts Files
begin

section \<open>Image provenance (provenance.go)\<close>

text \<open>
  The evidence records and the functions that fill, convert and copy them.  A time is the number
  of nanoseconds of the clock.  An \<open>ImageProvenanceSource\<close> is a string in the code and here.
\<close>

type_synonym ImageProvenanceSource = string

definition ImageProvenanceUnverified :: ImageProvenanceSource where
  "ImageProvenanceUnverified = ''unverified''"
definition ImageProvenanceContainerInspect :: ImageProvenanceSource where
  "ImageProvenanceContainerInspect = ''container_inspect''"
definition ImageProvenanceEndpointFile :: ImageProvenanceSource where
  "ImageProvenanceEndpointFile = ''endpoint_file''"

lemmas provenance_sources =
  ImageProvenanceUnverified_def ImageProvenanceContainerInspect_def ImageProvenanceEndpointFile_def

definition dockerMediaTypeManifestList :: string where
  "dockerMediaTypeManifestList = ''application/vnd.docker.distribution.manifest.list.v2+json''"
definition dockerMediaTypeManifest :: string where
  "dockerMediaTypeManifest = ''application/vnd.docker.distribution.manifest.v2+json''"

record ImageProvenance =
  ip_RequestedImage :: string
  ip_ImageID :: string
  ip_IndexDigest :: string
  ip_ManifestDigest :: string
  ip_Platform :: string
  ip_ObservedAt :: int
  ip_Source :: ImageProvenanceSource
  ip_ObservedByThisProcess :: bool

record EndpointProvenance =
  ep_RequestedImage :: string
  ep_ImageID :: string
  ep_IndexDigest :: string
  ep_ManifestDigest :: string
  ep_Platform :: string
  ep_ObservedAt :: int

text \<open>The zero values; the zero time is the beginning of the year 1.\<close>

definition zeroTime :: int where
  "zeroTime = -62135596800000000000"

definition zeroImageProvenance :: ImageProvenance where
  "zeroImageProvenance = \<lparr>ip_RequestedImage = [], ip_ImageID = [], ip_IndexDigest = [],
     ip_ManifestDigest = [], ip_Platform = [], ip_ObservedAt = zeroTime, ip_Source = [],
     ip_ObservedByThisProcess = False\<rparr>"

text \<open>The index digest and the manifest digest of a descriptor.\<close>

definition classifyManifestDigest :: "env \<Rightarrow> Descriptor option \<Rightarrow> string \<times> string" where
  "classifyManifestDigest E desc =
     (case desc of
        None \<Rightarrow> ([], [])
      | Some d \<Rightarrow>
          if d_Digest d = [] then ([], [])
          else if d_MediaType d = MediaTypeImageIndex E \<or> d_MediaType d = dockerMediaTypeManifestList
            then (d_Digest d, [])
          else if d_MediaType d = MediaTypeImageManifest E \<or> d_MediaType d = dockerMediaTypeManifest
            then ([], d_Digest d)
          else ([], []))"

definition imageProvenanceFromInspect ::
    "env \<Rightarrow> InspectResponse option \<Rightarrow> string \<Rightarrow> int \<Rightarrow> ImageProvenance option" where
  "imageProvenanceFromInspect E info requestedImage observedAt =
     (case info of
        None \<Rightarrow> None
      | Some i \<Rightarrow> Some
          \<lparr>ip_RequestedImage = trimSpace requestedImage,
           ip_ImageID = trimSpace (i_Image i),
           ip_IndexDigest = fst (classifyManifestDigest E (i_Descriptor i)),
           ip_ManifestDigest = snd (classifyManifestDigest E (i_Descriptor i)),
           ip_Platform = (case inspectContainerPlatform (Some i) of Inl e \<Rightarrow> [] | Inr p \<Rightarrow> p),
           ip_ObservedAt = observedAt,
           ip_Source = ImageProvenanceContainerInspect,
           ip_ObservedByThisProcess = True\<rparr>)"

definition inspectTimeout :: Duration where "inspectTimeout = 10 * time_Second"

definition observeContainerImage :: "env \<Rightarrow> ctx \<Rightarrow> Container option \<Rightarrow> string \<Rightarrow> ImageProvenance option io" where
  "observeContainerImage E c container requestedImage =
     (case container of
        None \<Rightarrow> State_Monad.return None
      | Some ct \<Rightarrow> do {
          (info, err) \<leftarrow> inspect E (WithTimeout c inspectTimeout) ct;
          now \<leftarrow> time_Now;
          State_Monad.return (if err \<noteq> None then None else imageProvenanceFromInspect E info requestedImage now)
        })"

definition endpointSnapshot :: "ImageProvenance option \<Rightarrow> EndpointProvenance option" where
  "endpointSnapshot p =
     (case p of
        None \<Rightarrow> None
      | Some q \<Rightarrow>
          if ip_Source q \<noteq> ImageProvenanceContainerInspect then None
          else Some \<lparr>ep_RequestedImage = ip_RequestedImage q, ep_ImageID = ip_ImageID q,
                     ep_IndexDigest = ip_IndexDigest q, ep_ManifestDigest = ip_ManifestDigest q,
                     ep_Platform = ip_Platform q, ep_ObservedAt = ip_ObservedAt q\<rparr>)"

definition imageProvenanceFromEndpoint :: "EndpointProvenance \<Rightarrow> ImageProvenance" where
  "imageProvenanceFromEndpoint reported =
     \<lparr>ip_RequestedImage = ep_RequestedImage reported, ip_ImageID = ep_ImageID reported,
      ip_IndexDigest = ep_IndexDigest reported, ip_ManifestDigest = ep_ManifestDigest reported,
      ip_Platform = ep_Platform reported, ip_ObservedAt = ep_ObservedAt reported,
      ip_Source = ImageProvenanceEndpointFile, ip_ObservedByThisProcess = False\<rparr>"

definition cloneEndpointProvenance :: "EndpointProvenance option \<Rightarrow> EndpointProvenance option" where
  "cloneEndpointProvenance p = p"

subsection \<open>What the evidence says\<close>

text \<open>
  Well-formed evidence: observed here exactly when it comes from an inspection, at most one of
  the two digests, and no field that needs trimming.
\<close>

definition provenance_ok :: "ImageProvenance \<Rightarrow> bool" where
  "provenance_ok p \<longleftrightarrow>
     (ip_ObservedByThisProcess p \<longleftrightarrow> ip_Source p = ImageProvenanceContainerInspect) \<and>
     (ip_IndexDigest p = [] \<or> ip_ManifestDigest p = [])"

lemma classifyManifestDigest_exclusive:
  "fst (classifyManifestDigest E d) = [] \<or> snd (classifyManifestDigest E d) = []"
  by (auto simp: classifyManifestDigest_def split: option.splits)

lemma imageProvenanceFromInspect_ok:
  "imageProvenanceFromInspect E info img t = Some p \<Longrightarrow> provenance_ok p \<and> ip_Source p = ImageProvenanceContainerInspect"
  using classifyManifestDigest_exclusive [of E "i_Descriptor (the info)"]
  by (cases info) (auto simp: imageProvenanceFromInspect_def provenance_ok_def)

lemma appends_inspect [appends_intros]: "appends (inspect E c ct)"
  by (simp add: inspect_def appends_def world_after_def)

lemma appends_observe [appends_intros]: "appends (observeContainerImage E c container img)"
  unfolding observeContainerImage_def by (intro appends_intros)

lemma observeContainerImage_ok:
  assumes "result_of (observeContainerImage E c container img) w = Some p"
  shows "provenance_ok p \<and> ip_Source p = ImageProvenanceContainerInspect"
  using assms
  by (auto simp: observeContainerImage_def result_of_bind split_beta imageProvenanceFromInspect_ok
      split: option.splits if_splits)

text \<open>
  Evidence that goes through an endpoint file keeps every identifier and loses the claim of an
  observation.
\<close>

lemma provenance_through_endpoint:
  "endpointSnapshot (Some p) = Some q \<Longrightarrow>
   imageProvenanceFromEndpoint q = p\<lparr>ip_Source := ImageProvenanceEndpointFile, ip_ObservedByThisProcess := False\<rparr>"
  by (auto simp: endpointSnapshot_def imageProvenanceFromEndpoint_def split: if_splits)

end
