(* ===== verification/Go_Time.thy ===== *)
theory Go_Time
  imports Go_Prelude "HOL-Library.Monad_Syntax"
begin

section \<open>Instants and their text (package time)\<close>

text \<open>
  A time is its instant: the number of nanoseconds since 1970 in UTC.  The civil date of a day
  count and back, the two formats the program prints in UTC, and the parser of RFC 3339 that
  \<open>time.Time.UnmarshalJSON\<close> uses, with its leniencies (an hour of one digit, a comma before the
  fraction, digits of it beyond the ninth ignored).
\<close>

subsection \<open>Civil dates\<close>

definition is_leap :: "int \<Rightarrow> bool" where
  "is_leap y = (y mod 4 = 0 \<and> (y mod 100 \<noteq> 0 \<or> y mod 400 = 0))"

definition days_in :: "int \<Rightarrow> int \<Rightarrow> int" where
  "days_in y m =
     (if m = 2 then if is_leap y then 29 else 28
      else if m = 4 \<or> m = 6 \<or> m = 9 \<or> m = 11 then 30 else 31)"

text \<open>The year that begins in March and the day in it, by the cycles of 400, 100 and 4 years.\<close>

definition march_year :: "int \<Rightarrow> int \<times> int" where
  "march_year z =
     (let doe = z mod 146097;
          c = min (doe div 36524) 3; doc = doe - 36524 * c;
          q = doc div 1461; doq = doc - 1461 * q;
          a = min (doq div 365) 3
      in (400 * (z div 146097) + 100 * c + 4 * q + a, doq - 365 * a))"

definition civil_from_days :: "int \<Rightarrow> int \<times> int \<times> int" where
  "civil_from_days days =
     (let (y, doy) = march_year (days + 719468);
          mp = (5 * doy + 2) div 153;
          m = (if mp < 10 then mp + 3 else mp - 9)
      in (if m \<le> 2 then y + 1 else y, m, doy - (153 * mp + 2) div 5 + 1))"

definition days_from_civil :: "int \<Rightarrow> int \<Rightarrow> int \<Rightarrow> int" where
  "days_from_civil y m d =
     (let y' = (if m \<le> 2 then y - 1 else y);
          yoe = y' mod 400;
          doy = (153 * ((m + 9) mod 12) + 2) div 5 + d - 1
      in 146097 * (y' div 400) + 365 * yoe + yoe div 4 - yoe div 100 + doy - 719468)"

lemma march_year_bounds:
  assumes "march_year z = (y, doy)"
  obtains e c q a where
    "y = 400 * e + 100 * c + 4 * q + a" "z = 146097 * e + 36524 * c + 1461 * q + 365 * a + doy"
    "0 \<le> c" "c \<le> 3" "0 \<le> q" "q \<le> 24" "0 \<le> a" "a \<le> 3" "0 \<le> doy" "doy \<le> 365"
    "doy = 365 \<longrightarrow> a = 3 \<and> (q < 24 \<or> c = 3)"
proof -
  define doe where "doe = z mod 146097"
  define c where "c = min (doe div 36524) 3"
  define doc where "doc = doe - 36524 * c"
  define q where "q = doc div 1461"
  define doq where "doq = doc - 1461 * q"
  define a where "a = min (doq div 365) 3"
  have y: "y = 400 * (z div 146097) + 100 * c + 4 * q + a" and doy: "doy = doq - 365 * a"
    using assms by (simp_all add: march_year_def Let_def doe_def c_def doc_def q_def doq_def a_def)
  have doe: "0 \<le> doe" "doe \<le> 146096" "z = 146097 * (z div 146097) + doe"
    using pos_mod_bound [of 146097 z] pos_mod_sign [of 146097 z] by (simp_all add: doe_def)
  have c: "0 \<le> c" "c \<le> 3" "0 \<le> doc" "doc \<le> 36524" "c < 3 \<Longrightarrow> doc < 36524"
    using doe(1,2) by (auto simp: c_def doc_def min_def)
  have q: "0 \<le> q" "q \<le> 24" "0 \<le> doq" "doq \<le> 1460" "doc = 1461 * q + doq"
    using c(3,4) by (simp_all add: q_def doq_def)
  have a: "0 \<le> a" "a \<le> 3" "0 \<le> doy" "doy \<le> 365" "doy = 365 \<Longrightarrow> a = 3 \<and> doq = 1460"
    using q(3,4) by (auto simp: a_def doy min_def)
  have "q < 24 \<or> c = 3" if "doy = 365"
    using a(5) [OF that] q c by linarith
  with that [OF y] a c(1,2) q(1,2,5) doe(3) show thesis
    by (auto simp: doc_def doq_def doy)
qed

text \<open>A day of the March year lies in one month; the months have these lengths.\<close>

lemma march_month:
  fixes doy mp d :: int
  assumes "0 \<le> doy" "doy \<le> 365" and mp: "mp = (5 * doy + 2) div 153" and d: "d = doy - (153 * mp + 2) div 5 + 1"
  shows "0 \<le> mp" "mp \<le> 11" "1 \<le> d" "d \<le> (if mp = 11 then doy - 336 else if mp \<in> {1, 3, 6, 8} then 30 else 31)"
proof -
  show m: "0 \<le> mp" "mp \<le> 11" using assms(1,2) by (simp_all add: mp)
  have b: "153 * mp \<le> 5 * doy + 2" "5 * doy + 2 < 153 * mp + 153" by (simp_all add: mp)
  have "mp = 0 \<or> mp = 1 \<or> mp = 2 \<or> mp = 3 \<or> mp = 4 \<or> mp = 5 \<or> mp = 6 \<or> mp = 7 \<or> mp = 8 \<or>
    mp = 9 \<or> mp = 10 \<or> mp = 11" using m by presburger
  then show "1 \<le> d" "d \<le> (if mp = 11 then doy - 336 else if mp \<in> {1, 3, 6, 8} then 30 else 31)"
    unfolding d using b by (elim disjE; simp)+
qed

text \<open>The year in which a March year with 366 days ends is a leap year.\<close>

lemma leap_year_of_last_day:
  assumes y: "y = 400 * e + 100 * c + 4 * q + 3" and "q < 24 \<or> c = 3" "0 \<le> c" "c \<le> 3" "0 \<le> q" "q \<le> (24::int)"
  shows "is_leap (y + 1)"
proof -
  have "(y + 1) mod 4 = 0" unfolding y by presburger
  moreover have "(y + 1) mod 100 \<noteq> 0 \<or> (y + 1) mod 400 = 0"
  proof (cases "q < 24")
    case True
    have "y + 1 = (4 * q + 4) + (4 * e + c) * 100" unfolding y by simp
    then have "(y + 1) mod 100 = (4 * q + 4) mod 100" by (simp only: mod_mult_self1)
    also have "\<dots> = 4 * q + 4" using True assms(5) by simp
    finally show ?thesis using assms(5) by simp
  next
    case False
    with assms have "q = 24" "c = 3" by linarith+
    then show ?thesis unfolding y by simp
  qed
  ultimately show ?thesis by (simp add: is_leap_def)
qed

lemma days_from_civil_from_days:
  assumes "civil_from_days days = (y, m, d)"
  shows "days_from_civil y m d = days" "1 \<le> m" "m \<le> 12" "1 \<le> d" "d \<le> days_in y m"
proof -
  obtain y' doy where z: "march_year (days + 719468) = (y', doy)" by fastforce
  obtain e c q a where y0: "y' = 400 * e + 100 * c + 4 * q + a"
    and days: "days + 719468 = 146097 * e + 36524 * c + 1461 * q + 365 * a + doy"
    and b: "0 \<le> c" "c \<le> 3" "0 \<le> q" "q \<le> 24" "0 \<le> a" "a \<le> 3" "0 \<le> doy" "doy \<le> 365"
    and last: "doy = 365 \<longrightarrow> a = 3 \<and> (q < 24 \<or> c = 3)"
    using march_year_bounds [OF z] .
  have y': "y' = 400 * e + (100 * c + 4 * q + a)" using y0 by simp
  define mp where "mp = (5 * doy + 2) div 153"
  have eq: "m = (if mp < 10 then mp + 3 else mp - 9)" "d = doy - (153 * mp + 2) div 5 + 1"
    "y = (if m \<le> 2 then y' + 1 else y')"
    using assms z by (auto simp: civil_from_days_def mp_def Let_def)
  note mm = march_month [OF b(7,8) mp_def eq(2)]
  show m: "1 \<le> m" "m \<le> 12" using mm(1,2) eq(1) by (auto split: if_splits)
  show "1 \<le> d" by (rule mm(3))
  have yb: "(if m \<le> 2 then y - 1 else y) = y'" using eq(3) by simp
  have mb: "(m + 9) mod 12 = mp" using mm(1,2) eq(1) by (auto split: if_splits)
  let ?yoe = "100 * c + 4 * q + a"
  have yoe: "0 \<le> ?yoe" "?yoe < 400" "?yoe div 4 = 25 * c + q" "?yoe div 100 = c"
    using b(1-6) by linarith+
  then have y400: "y' div 400 = e" "y' mod 400 = ?yoe" unfolding y' by simp_all
  show "days_from_civil y m d = days"
    using days unfolding days_from_civil_def Let_def yb mb y400 yoe(3,4) eq(2) by simp
  have leap: "is_leap (y' + 1)" if "doy = 365"
    using last that b(1-6) by (intro leap_year_of_last_day [of y' e c q]) (simp_all add: y0)
  show "d \<le> days_in y m"
  proof (cases "mp = 11")
    case True
    then have "m = 2" "y = y' + 1" using eq by auto
    with mm(4) True b(8) leap show ?thesis by (cases "doy = 365") (auto simp: days_in_def)
  next
    case False
    with mm(1,2,4) show ?thesis by (auto simp: eq(1) days_in_def split: if_splits)
  qed
qed


subsection \<open>Numbers of a fixed width\<close>

text \<open>A number with leading zeros; below \<open>10 ^ width\<close> it has exactly these digits.\<close>

definition show_padded :: "nat \<Rightarrow> int \<Rightarrow> string" where
  "show_padded width i =
     (let s = show_nat (nat i) in replicate (width - length s) CHR ''0'' @ s)"

fun pad :: "nat \<Rightarrow> nat \<Rightarrow> string" where
  "pad 0 n = []"
| "pad (Suc w) n = pad w (n div 10) @ [digit (n mod 10)]"

lemma digit_0: "digit 0 = CHR ''0''"
  by code_simp

lemma length_pad [simp]: "length (pad w n) = w"
  by (induction w arbitrary: n) simp_all

lemma pad_digits: "list_all is_digit (pad w n)"
  by (induction w arbitrary: n) simp_all

lemma pad_0: "pad w 0 = replicate w CHR ''0''"
  by (induction w) (simp_all add: digit_0 replicate_append_same)

lemma show_padded_pad: "n < 10 ^ w \<Longrightarrow> 0 < w \<Longrightarrow> show_padded w (int n) = pad w n"
proof (induction w arbitrary: n)
  case 0
  then show ?case by simp
next
  case (Suc w)
  show ?case
  proof (cases "n < 10")
    case True
    then show ?thesis by (simp add: show_padded_def show_nat.simps [of n] pad_0)
  next
    case False
    then have w: "0 < w" using Suc.prems(1) by (cases w) auto
    have n: "n div 10 < 10 ^ w" using Suc.prems(1) by (simp add: less_mult_imp_div_less mult.commute)
    from Suc.IH [OF n w] show ?thesis
      by (simp add: show_padded_def show_nat.simps [of n] False Let_def del: replicate.simps)
  qed
qed

lemma read_pad: "n < 10 ^ w \<Longrightarrow> read_digits 0 (pad w n) = Some n"
proof (induction w arbitrary: n)
  case 0
  then show ?case by simp
next
  case (Suc w)
  have "n div 10 < 10 ^ w" using Suc.prems by (simp add: less_mult_imp_div_less mult.commute)
  with Suc.IH [of "n div 10"] show ?case by (simp add: read_digits_append)
qed

lemma show_padded_int: "0 \<le> i \<Longrightarrow> nat i < 10 ^ w \<Longrightarrow> 0 < w \<Longrightarrow> show_padded w i = pad w (nat i)"
  using show_padded_pad [of "nat i" w] by simp

subsection \<open>Formats\<close>

definition civil_text :: "int \<Rightarrow> string" where
  "civil_text secs =
     (let (y, m, d) = civil_from_days (secs div 86400); t = secs mod 86400
      in show_padded 4 y @ ''-'' @ show_padded 2 m @ ''-'' @ show_padded 2 d @ ''T'' @
         show_padded 2 (t div 3600) @ '':'' @ show_padded 2 (t mod 3600 div 60) @ '':'' @
         show_padded 2 (t mod 60))"

text \<open>\<open>Format(time.RFC3339)\<close> and \<open>Format(time.RFC3339Nano)\<close> in UTC, for years from 0.\<close>

definition format_RFC3339 :: "int \<Rightarrow> string" where
  "format_RFC3339 ns = civil_text (ns div 1000000000) @ ''Z''"

definition fraction_text :: "int \<Rightarrow> string" where
  "fraction_text f =
     (if f = 0 then [] else ''.'' @ rev (dropWhile (\<lambda>c. c = CHR ''0'') (rev (show_padded 9 f))))"

definition format_RFC3339Nano :: "int \<Rightarrow> string" where
  "format_RFC3339Nano ns =
     civil_text (ns div 1000000000) @ fraction_text (ns mod 1000000000) @ ''Z''"

definition year_of :: "int \<Rightarrow> int" where
  "year_of ns = fst (civil_from_days (ns div 1000000000 div 86400))"

subsection \<open>The parser\<close>

definition skip_char :: "char \<Rightarrow> string \<Rightarrow> string option" where
  "skip_char c s = (case s of [] \<Rightarrow> None | x # r \<Rightarrow> if x = c then Some r else None)"

text \<open>One or two digits; with \<open>fixed\<close> exactly two.\<close>

definition getnum :: "bool \<Rightarrow> string \<Rightarrow> (nat \<times> string) option" where
  "getnum fixed s =
     (case s of
        [] \<Rightarrow> None
      | a # r \<Rightarrow>
          if \<not> is_digit a then None
          else case r of
            [] \<Rightarrow> if fixed then None else Some (digit_value a, r)
          | b # r' \<Rightarrow>
              if is_digit b then Some (10 * digit_value a + digit_value b, r')
              else if fixed then None else Some (digit_value a, r))"

definition get_year :: "string \<Rightarrow> (nat \<times> string) option" where
  "get_year s =
     (if length s < 4 then None
      else case read_digits 0 (take 4 s) of None \<Rightarrow> None | Some y \<Rightarrow> Some (y, drop 4 s))"

text \<open>The fraction of a second in nanoseconds: at most nine digits count.\<close>

definition get_fraction :: "string \<Rightarrow> nat \<times> string" where
  "get_fraction s =
     (case s of
        x # a # r \<Rightarrow>
          if (x = CHR ''.'' \<or> x = CHR '','') \<and> is_digit a then
            let ds = take 9 (takeWhile is_digit (a # r))
            in (the (read_digits 0 ds) * 10 ^ (9 - length ds), dropWhile is_digit (a # r))
          else (0, s)
      | _ \<Rightarrow> (0, s))"

text \<open>The zone to the end of the text: the offset in seconds.\<close>

definition get_zone :: "string \<Rightarrow> int option" where
  "get_zone s =
     (if s = ''Z'' then Some 0
      else if length s \<noteq> 6 \<or> s ! 3 \<noteq> CHR '':'' then None
      else do {
        (h, _) \<leftarrow> getnum True (take 2 (drop 1 s));
        (m, _) \<leftarrow> getnum True (drop 4 s);
        if 24 < h \<or> 60 < m then None
        else if hd s = CHR ''+'' then Some (int (h * 60 + m) * 60)
        else if hd s = CHR ''-'' then Some (- (int (h * 60 + m) * 60))
        else None
      })"

definition parse_RFC3339 :: "string \<Rightarrow> int option" where
  "parse_RFC3339 s = do {
     (y, s) \<leftarrow> get_year s;
     s \<leftarrow> skip_char CHR ''-'' s;
     (m, s) \<leftarrow> getnum True s;
     s \<leftarrow> skip_char CHR ''-'' s;
     (d, s) \<leftarrow> getnum True s;
     s \<leftarrow> skip_char CHR ''T'' s;
     (h, s) \<leftarrow> getnum False s;
     s \<leftarrow> skip_char CHR '':'' s;
     (mi, s) \<leftarrow> getnum True s;
     s \<leftarrow> skip_char CHR '':'' s;
     (sec, s) \<leftarrow> getnum True s;
     let (f, s) = get_fraction s;
     z \<leftarrow> get_zone s;
     if m < 1 \<or> 12 < m \<or> 24 \<le> h \<or> 60 \<le> mi \<or> 60 \<le> sec \<or> d < 1 \<or> days_in (int y) (int m) < int d then None
     else Some ((days_from_civil (int y) (int m) (int d) * 86400 + int ((h * 60 + mi) * 60 + sec) - z) * 1000000000 + int f)
   }"

subsection \<open>Reading what was printed\<close>

lemma pad_2: "pad 2 n = [digit (n div 10 mod 10), digit (n mod 10)]"
  by (simp add: numeral_2_eq_2)

lemma getnum_pad [simp]: "n < 100 \<Longrightarrow> getnum fixed (pad 2 n @ r) = Some (n, r)"
  by (simp add: pad_2 getnum_def)

lemma get_year_pad [simp]: "n < 10000 \<Longrightarrow> get_year (pad 4 n @ r) = Some (n, r)"
  using read_pad [of n 4] by (simp add: get_year_def)

lemma skip_char_Cons [simp]: "skip_char c (c # r) = Some r"
  by (simp add: skip_char_def)

lemma trailing_zeros: "\<exists>k. s = rev (dropWhile (\<lambda>c. c = x) (rev s)) @ replicate k x"
proof -
  have "s = rev (dropWhile (\<lambda>c. c = x) (rev s)) @ rev (takeWhile (\<lambda>c. c = x) (rev s))"
    by (metis rev_append rev_rev_ident takeWhile_dropWhile_id)
  moreover have "rev (takeWhile (\<lambda>c. c = x) (rev s)) = replicate (length (takeWhile (\<lambda>c. c = x) (rev s))) x"
    by (metis (mono_tags) rev_replicate replicate_eqI set_takeWhileD)
  ultimately show ?thesis by metis
qed

lemma read_zeros: "read_digits k (replicate j CHR ''0'') = Some (k * 10 ^ j)"
  by (induction j arbitrary: k) (simp_all add: is_digit_def digit_value_def)

lemma read_append: "read_digits k (xs @ ys) = Option.bind (read_digits k xs) (\<lambda>n. read_digits n ys)"
  by (induction xs arbitrary: k) auto

lemma get_fraction_text:
  assumes "0 \<le> f" "f < 1000000000"
  shows "get_fraction (fraction_text f @ ''Z'') = (nat f, ''Z'')"
proof (cases "f = 0")
  case True
  then show ?thesis by (simp add: fraction_text_def get_fraction_def)
next
  case False
  have n: "nat f < 10 ^ 9" using assms by simp
  have shown: "show_padded 9 f = pad 9 (nat f)"
    using show_padded_int [OF assms(1) n] by simp
  define ds where "ds = rev (dropWhile (\<lambda>c. c = CHR ''0'') (rev (pad 9 (nat f))))"
  have "\<exists>j. pad 9 (nat f) = ds @ replicate j CHR ''0''" unfolding ds_def by (rule trailing_zeros)
  then obtain j where j: "pad 9 (nat f) = ds @ replicate j CHR ''0''" by (elim exE)
  then have len: "length ds + j = 9" by (metis length_append length_pad length_replicate)
  have digits: "list_all is_digit ds" using pad_digits [of 9 "nat f"] unfolding j by simp
  obtain k where k: "read_digits 0 ds = Some k" "k * 10 ^ j = nat f"
    using read_pad [OF n] unfolding j read_append by (auto simp: read_zeros bind_eq_Some_conv)
  have le: "length ds \<le> 9" and "j = 9 - length ds" using len by simp_all
  then have kj: "k * 10 ^ (9 - length ds) = nat f" using k(2) by (simp only:)
  have "ds \<noteq> []"
  proof
    assume "ds = []"
    with k have "nat f = 0" by simp
    with False assms show False by simp
  qed
  then obtain a r where ar: "ds = a # r" by (cases ds) auto
  have tw: "takeWhile is_digit (a # r @ ''Z'') = a # r" "dropWhile is_digit (a # r @ ''Z'') = ''Z''"
    using digits ar by (simp_all add: list_all_iff is_digit_def takeWhile_append2)
  show ?thesis
    using False k(1) le kj digits tw by (simp add: fraction_text_def shown ds_def [symmetric] ar get_fraction_def Let_def)
qed

lemma parse_civil:
  assumes "y < 10000" "m < 100" "d < 100" "h < 24" "mi < 60" "sec < 60"
    and "1 \<le> m" "m \<le> 12" "1 \<le> d" "int d \<le> days_in (int y) (int m)"
    and "get_fraction rest = (f, s)" "get_zone s = Some z"
  shows "parse_RFC3339 (pad 4 y @ CHR ''-'' # pad 2 m @ CHR ''-'' # pad 2 d @ CHR ''T'' # pad 2 h @ CHR '':'' # pad 2 mi @
      CHR '':'' # pad 2 sec @ rest) =
    Some ((days_from_civil (int y) (int m) (int d) * 86400 + int ((h * 60 + mi) * 60 + sec) - z) * 1000000000 + int f)"
  using assms by (simp add: parse_RFC3339_def)

lemma parse_format:
  assumes "0 \<le> year_of ns" "year_of ns \<le> 9999"
  shows "parse_RFC3339 (format_RFC3339Nano ns) = Some ns"
proof -
  define secs where "secs = ns div 1000000000"
  define t where "t = secs mod 86400"
  obtain y m d where c: "civil_from_days (secs div 86400) = (y, m, d)" by (metis prod_cases3)
  note date = days_from_civil_from_days [OF c]
  have y: "0 \<le> y" "y \<le> 9999" using assms c by (simp_all add: year_of_def secs_def)
  have dm: "d \<le> 31" using date(5) by (auto simp: days_in_def split: if_splits)
  have t: "0 \<le> t" "t < 86400" by (simp_all add: t_def)
  define h mi sec where "h = t div 3600" and "mi = t mod 3600 div 60" and "sec = t mod 60"
  have hms: "0 \<le> h" "h < 24" "0 \<le> mi" "mi < 60" "0 \<le> sec" "sec < 60"
    using t by (simp_all add: h_def mi_def sec_def)
  have sum: "(h * 60 + mi) * 60 + sec = t"
  proof -
    have "sec = t mod 3600 mod 60" by (simp add: sec_def mod_mod_cancel)
    then have "mi * 60 + sec = t mod 3600" by (simp only: mi_def div_mult_mod_eq)
    moreover have "h * 3600 + t mod 3600 = t" by (simp only: h_def div_mult_mod_eq)
    moreover have "(h * 60 + mi) * 60 + sec = h * 3600 + (mi * 60 + sec)" by simp
    ultimately show ?thesis by (simp only:)
  qed
  have shown: "show_padded 4 y = pad 4 (nat y)" "show_padded 2 m = pad 2 (nat m)" "show_padded 2 d = pad 2 (nat d)"
    "show_padded 2 h = pad 2 (nat h)" "show_padded 2 mi = pad 2 (nat mi)" "show_padded 2 sec = pad 2 (nat sec)"
    by (rule show_padded_int; use y date(2-4) dm hms in simp)+
  have civil: "civil_text secs = pad 4 (nat y) @ CHR ''-'' # pad 2 (nat m) @ CHR ''-'' # pad 2 (nat d) @ CHR ''T'' #
      pad 2 (nat h) @ CHR '':'' # pad 2 (nat mi) @ CHR '':'' # pad 2 (nat sec)"
    unfolding civil_text_def c t_def [symmetric] Let_def prod.case h_def [symmetric] mi_def [symmetric] sec_def [symmetric] shown
    by simp
  have f: "0 \<le> ns mod 1000000000" "ns mod 1000000000 < 1000000000" by simp_all
  have "parse_RFC3339 (format_RFC3339Nano ns) =
      Some ((days_from_civil (int (nat y)) (int (nat m)) (int (nat d)) * 86400 + int ((nat h * 60 + nat mi) * 60 + nat sec) - 0) *
        1000000000 + int (nat (ns mod 1000000000)))"
    unfolding format_RFC3339Nano_def secs_def [symmetric] civil append_assoc append_Cons
    by (rule parse_civil) (use y date(2-5) dm hms in \<open>auto simp: get_fraction_text [OF f] get_zone_def\<close>)
  also have "int ((nat h * 60 + nat mi) * 60 + nat sec) = t" using sum hms by simp
  also have "days_from_civil (int (nat y)) (int (nat m)) (int (nat d)) * 86400 + t = secs"
    using date(1-4) y unfolding t_def by simp
  finally show ?thesis by (simp add: secs_def)
qed

end
