(* ===== verification/Go_JSON.thy ===== *)
theory Go_JSON
  imports Go_Time
begin

section \<open>JSON text (package encoding/json)\<close>

text \<open>
  The parts of encoding/json that the program uses: \<open>MarshalIndent\<close> with the indent of two blanks,
  and the syntax that \<open>Unmarshal\<close> accepts.  Strings are byte sequences; inside a value a string
  is kept as it stands between the quotes, escapes included, which is how the decoder hands it
  to \<open>UnmarshalJSON\<close> methods.  The decoder's scanner, a machine with a stack of open objects and
  arrays, is modelled as a lexer and a stack machine over its tokens.
\<close>

subsection \<open>UTF-8\<close>

abbreviation byte :: "char \<Rightarrow> nat" where "byte c \<equiv> of_char c"

definition in_bytes :: "nat \<Rightarrow> nat \<Rightarrow> char \<Rightarrow> bool" where
  "in_bytes l u c = (l \<le> byte c \<and> byte c \<le> u)"

abbreviation continuation :: "char \<Rightarrow> bool" where "continuation \<equiv> in_bytes 0x80 0xBF"

text \<open>For a first byte: how many continuation bytes follow, and the range of the second byte.\<close>

definition first_byte :: "char \<Rightarrow> (nat \<times> nat \<times> nat) option" where
  "first_byte a =
     (if in_bytes 0 0x7F a then Some (0, 0x80, 0xBF)
      else if in_bytes 0xC2 0xDF a then Some (1, 0x80, 0xBF)
      else if byte a = 0xE0 then Some (2, 0xA0, 0xBF)
      else if byte a = 0xED then Some (2, 0x80, 0x9F)
      else if in_bytes 0xE1 0xEF a then Some (2, 0x80, 0xBF)
      else if byte a = 0xF0 then Some (3, 0x90, 0xBF)
      else if in_bytes 0xF1 0xF3 a then Some (3, 0x80, 0xBF)
      else if byte a = 0xF4 then Some (3, 0x80, 0x8F)
      else None)"

text \<open>The length of the valid encoding of a character at the head, or 0 (\<open>utf8.DecodeRune\<close>).\<close>

definition rune_len :: "string \<Rightarrow> nat" where
  "rune_len s =
     (case s of
        [] \<Rightarrow> 0
      | a # t \<Rightarrow>
          (case first_byte a of
             None \<Rightarrow> 0
           | Some (n, lo, hi) \<Rightarrow>
               if n = 0 then 1
               else if n \<le> length t \<and> in_bytes lo hi (hd t) \<and> list_all continuation (take n t) then Suc n
               else 0))"

lemma rune_len_le: "rune_len s \<le> length s"
  by (auto simp: rune_len_def split: list.splits option.splits)

text \<open>Only the bytes of the character matter.\<close>

lemma rune_len_take:
  assumes "rune_len s \<noteq> 0"
  shows "rune_len (take (rune_len s) s @ r) = rune_len s"
proof -
  obtain a t n lo hi where s: "s = a # t" and f: "first_byte a = Some (n, lo, hi)"
    using assms by (auto simp: rune_len_def split: list.splits option.splits)
  show ?thesis
  proof (cases "n = 0")
    case True
    then show ?thesis by (simp add: s rune_len_def f)
  next
    case False
    with assms s f have n: "n \<le> length t" "in_bytes lo hi (hd t)" "list_all continuation (take n t)" "rune_len s = Suc n"
      by (auto simp: rune_len_def split: if_splits)
    then obtain b u where t: "t = b # u" using False by (cases t) auto
    obtain k where "n = Suc k" using False by (cases n) auto
    with n t f show ?thesis by (simp add: s rune_len_def min_def)
  qed
qed

lemma rune_len_ascii [simp]: "in_bytes 0 0x7F a \<Longrightarrow> rune_len (a # t) = 1"
  by (simp add: rune_len_def first_byte_def)

lemma first_byte_ascii: "first_byte a = Some (0, lo, hi) \<Longrightarrow> in_bytes 0 0x7F a"
  by (auto simp: first_byte_def split: if_splits)

text \<open>The bytes of a longer character are not ASCII.\<close>

lemma rune_not_ascii:
  assumes "rune_len s \<noteq> 0" "\<not> in_bytes 0 0x7F (hd s)"
  shows "list_all (\<lambda>c. \<not> in_bytes 0 0x7F c) (take (rune_len s) s)"
  using assms
  by (auto simp: rune_len_def in_bytes_def list_all_iff split: list.splits option.splits if_splits dest: first_byte_ascii)

text \<open>\<open>utf8.AppendRune\<close>, for a code point that is not a surrogate.\<close>

definition encode_rune :: "nat \<Rightarrow> string" where
  "encode_rune r =
     (if r < 0x80 then [char_of r]
      else if r < 0x800 then [char_of (0xC0 + r div 0x40), char_of (0x80 + r mod 0x40)]
      else if r < 0x10000 then
        [char_of (0xE0 + r div 0x1000), char_of (0x80 + r div 0x40 mod 0x40), char_of (0x80 + r mod 0x40)]
      else
        [char_of (0xF0 + r div 0x40000), char_of (0x80 + r div 0x1000 mod 0x40),
         char_of (0x80 + r div 0x40 mod 0x40), char_of (0x80 + r mod 0x40)])"

definition replacementChar :: string where "replacementChar = [CHR 0xEF, CHR 0xBF, CHR 0xBD]"

fun valid_utf8 :: "string \<Rightarrow> bool" where
  "valid_utf8 [] = True"
| "valid_utf8 (c # s) =
     (if rune_len (c # s) = 0 then False else valid_utf8 (drop (rune_len (c # s)) (c # s)))"

subsection \<open>Strings\<close>

definition hex_digit :: "nat \<Rightarrow> char" where
  "hex_digit n = (if n < 10 then char_of (48 + n) else char_of (87 + n))"

text \<open>The escape of an ASCII byte; HTML characters are escaped too.\<close>

definition escape_byte :: "char \<Rightarrow> string" where
  "escape_byte c =
     (if c = CHR 0x22 \<or> c = CHR 0x5C then [CHR 0x5C, c]
      else if c = CHR 0x08 then [CHR 0x5C, CHR ''b'']
      else if c = CHR 0x0C then [CHR 0x5C, CHR ''f'']
      else if c = CHR 0x0A then [CHR 0x5C, CHR ''n'']
      else if c = CHR 0x0D then [CHR 0x5C, CHR ''r'']
      else if c = CHR 0x09 then [CHR 0x5C, CHR ''t'']
      else if byte c < 0x20 \<or> c = CHR ''<'' \<or> c = CHR ''>'' \<or> c = CHR ''&'' then
        [CHR 0x5C, CHR ''u'', CHR ''0'', CHR ''0'', hex_digit (byte c div 16), hex_digit (byte c mod 16)]
      else [c])"

text \<open>A longer character stands for itself, but for the two line separators.\<close>

definition escape_rune :: "string \<Rightarrow> string" where
  "escape_rune x =
     (if x = [CHR 0xE2, CHR 0x80, CHR 0xA8] then CHR 0x5C # ''u2028''
      else if x = [CHR 0xE2, CHR 0x80, CHR 0xA9] then CHR 0x5C # ''u2029''
      else x)"

fun escape :: "string \<Rightarrow> string" where
  "escape [] = []"
| "escape (c # s) =
     (if in_bytes 0 0x7F c then escape_byte c @ escape s
      else if rune_len (c # s) = 0 then CHR 0x5C # ''ufffd'' @ escape s
      else escape_rune (take (rune_len (c # s)) (c # s)) @ escape (drop (rune_len (c # s)) (c # s)))"

definition hex_value :: "char \<Rightarrow> nat option" where
  "hex_value c =
     (if is_digit c then Some (digit_value c)
      else if in_bytes 97 102 c then Some (byte c - 87)
      else if in_bytes 65 70 c then Some (byte c - 55)
      else None)"

definition hex4 :: "string \<Rightarrow> nat option" where
  "hex4 s =
     (case s of
        a # b # c # d # r \<Rightarrow> do {
          a \<leftarrow> hex_value a; b \<leftarrow> hex_value b; c \<leftarrow> hex_value c; d \<leftarrow> hex_value d;
          Some (((a * 16 + b) * 16 + c) * 16 + d)
        }
      | _ \<Rightarrow> None)"

text \<open>What the scanner accepts between quotes.\<close>

fun raw_ok :: "string \<Rightarrow> bool" where
  "raw_ok [] = True"
| "raw_ok (c # s) =
     (if c = CHR 0x5C then
        (case s of
           [] \<Rightarrow> False
         | e # r \<Rightarrow>
             if e = CHR ''u'' then if hex4 r = None then False else raw_ok (drop 4 r)
             else if e \<in> set [CHR 0x22, CHR 0x5C, CHR ''/'', CHR ''b'', CHR ''f'', CHR ''n'', CHR ''r'', CHR ''t''] then raw_ok r
             else False)
      else if c = CHR 0x22 \<or> byte c < 0x20 then False
      else raw_ok s)"

definition unescape_char :: "char \<Rightarrow> char" where
  "unescape_char e =
     (if e = CHR ''b'' then CHR 0x08 else if e = CHR ''f'' then CHR 0x0C else if e = CHR ''n'' then CHR 0x0A
      else if e = CHR ''r'' then CHR 0x0D else if e = CHR ''t'' then CHR 0x09 else e)"

text \<open>
  The character of the four hex digits at the head, after which \<open>r\<close> follows, and how many bytes of
  \<open>r\<close> it takes as well: the second half of a surrogate pair.
\<close>

definition unicode_escape :: "nat \<Rightarrow> string \<Rightarrow> string \<times> nat" where
  "unicode_escape rr r =
     (if 0xD800 \<le> rr \<and> rr < 0xE000 then
        (case (if take 2 r = [CHR 0x5C, CHR ''u''] then hex4 (drop 2 r) else None) of
           None \<Rightarrow> (replacementChar, 0)
         | Some rr1 \<Rightarrow>
             if rr < 0xDC00 \<and> 0xDC00 \<le> rr1 \<and> rr1 < 0xE000
             then (encode_rune ((rr - 0xD800) * 0x400 + (rr1 - 0xDC00) + 0x10000), 6)
             else (replacementChar, 0))
      else (encode_rune rr, 0))"

text \<open>\<open>unquote\<close>, of the text between the quotes.\<close>

fun unescape :: "string \<Rightarrow> string" where
  "unescape [] = []"
| "unescape (c # s) =
     (if c = CHR 0x5C then
        (case s of
           [] \<Rightarrow> []
         | e # r \<Rightarrow>
             if e = CHR ''u'' then
               (case hex4 r of
                  None \<Rightarrow> []
                | Some rr \<Rightarrow> fst (unicode_escape rr (drop 4 r)) @ unescape (drop (4 + snd (unicode_escape rr (drop 4 r))) r))
             else unescape_char e # unescape r)
      else if in_bytes 0 0x7F c then c # unescape s
      else if rune_len (c # s) = 0 then replacementChar @ unescape s
      else take (rune_len (c # s)) (c # s) @ unescape (drop (rune_len (c # s)) (c # s)))"

declare escape.simps(2) [simp del] raw_ok.simps(2) [simp del] unescape.simps(2) [simp del]

lemma hex_value_digit: "n < 16 \<Longrightarrow> hex_value (hex_digit n) = Some n"
  by (auto simp: hex_digit_def hex_value_def in_bytes_def is_digit_def digit_value_def)

lemma not_ascii: "\<not> in_bytes 0 0x7F c \<Longrightarrow> c \<noteq> CHR 0x5C \<and> c \<noteq> CHR 0x22 \<and> \<not> byte c < 0x20"
  by (auto simp: in_bytes_def)

lemma hex4_byte: "byte c < 0x80 \<Longrightarrow>
    hex4 (CHR ''0'' # CHR ''0'' # hex_digit (byte c div 16) # hex_digit (byte c mod 16) # r) = Some (byte c)"
proof -
  have "hex_value CHR ''0'' = Some 0" by code_simp
  then show "byte c < 0x80 \<Longrightarrow> ?thesis" by (simp add: hex4_def hex_value_digit less_mult_imp_div_less)
qed

lemma raw_ok_escape_byte:
  assumes "in_bytes 0 0x7F c"
  shows "raw_ok (escape_byte c @ r) = raw_ok r"
proof -
  have "byte c < 0x80" using assms by (simp add: in_bytes_def)
  from hex4_byte [OF this] show ?thesis
    by (auto simp: escape_byte_def raw_ok.simps(2))
qed

lemma unescape_escape_byte:
  assumes "in_bytes 0 0x7F c"
  shows "unescape (escape_byte c @ r) = c # unescape r"
proof -
  have b: "byte c < 0x80" using assms by (simp add: in_bytes_def)
  have "unicode_escape (byte c) r = ([c], 0)"
    using b by (simp add: unicode_escape_def encode_rune_def)
  with hex4_byte [OF b] assms show ?thesis
    by (auto simp: escape_byte_def unescape.simps(2) unescape_char_def)
qed

lemma raw_ok_rune: "list_all (\<lambda>c. \<not> in_bytes 0 0x7F c) xs \<Longrightarrow> raw_ok (xs @ r) = raw_ok r"
  by (induction xs) (auto simp: raw_ok.simps(2) dest!: not_ascii)

lemma unescape_rune:
  assumes "rune_len (c # s) \<noteq> 0" "\<not> in_bytes 0 0x7F c"
  shows "unescape (take (rune_len (c # s)) (c # s) @ r) = take (rune_len (c # s)) (c # s) @ unescape r"
proof -
  let ?n = "rune_len (c # s)"
  obtain u where u: "take ?n (c # s) = c # u" using assms(1) by (cases ?n) auto
  then have "rune_len (c # u @ r) = ?n" using rune_len_take [OF assms(1), of r] by simp
  moreover have "length (take ?n (c # s)) = ?n" using rune_len_le [of "c # s"] by (simp only: length_take min.absorb2)
  ultimately have "rune_len (c # u @ r) = length (c # u)" by (simp only: u)
  then show ?thesis
    using assms(2) not_ascii [OF assms(2)] unfolding u by (simp add: unescape.simps(2))
qed

lemma hex4_texts:
  "hex4 (CHR ''f'' # CHR ''f'' # CHR ''f'' # CHR ''d'' # r) = Some 0xFFFD"
  "hex4 (CHR ''2'' # CHR ''0'' # CHR ''2'' # CHR ''8'' # r) = Some 0x2028"
  "hex4 (CHR ''2'' # CHR ''0'' # CHR ''2'' # CHR ''9'' # r) = Some 0x2029"
  by (simp_all add: hex4_def hex_value_def is_digit_def digit_value_def in_bytes_def)

lemma unicode_escape_separators:
  "unicode_escape 0x2028 r = ([CHR 0xE2, CHR 0x80, CHR 0xA8], 0)"
  "unicode_escape 0x2029 r = ([CHR 0xE2, CHR 0x80, CHR 0xA9], 0)"
proof -
  have "encode_rune 0x2028 = [CHR 0xE2, CHR 0x80, CHR 0xA8]" "encode_rune 0x2029 = [CHR 0xE2, CHR 0x80, CHR 0xA9]"
    by (simp_all add: encode_rune_def char_of_eq_iff take_bit_eq_mod)
  then show "unicode_escape 0x2028 r = ([CHR 0xE2, CHR 0x80, CHR 0xA8], 0)"
    "unicode_escape 0x2029 r = ([CHR 0xE2, CHR 0x80, CHR 0xA9], 0)" by (simp_all add: unicode_escape_def)
qed

lemma unescape_escape_rune:
  assumes "rune_len (c # s) \<noteq> 0" "\<not> in_bytes 0 0x7F c"
  shows "unescape (escape_rune (take (rune_len (c # s)) (c # s)) @ r) = take (rune_len (c # s)) (c # s) @ unescape r"
  using unescape_rune [OF assms, of r]
  by (simp add: escape_rune_def unescape.simps(2) [of "CHR 0x5C"] hex4_texts unicode_escape_separators
      del: take_Suc_Cons)

lemma raw_ok_escape_rune:
  assumes "rune_len (c # s) \<noteq> 0" "\<not> in_bytes 0 0x7F c"
  shows "raw_ok (escape_rune (take (rune_len (c # s)) (c # s)) @ r) = raw_ok r"
  using raw_ok_rune [OF rune_not_ascii [of "c # s"], of r] assms
  by (simp add: escape_rune_def raw_ok.simps(2) [of "CHR 0x5C"] hex4_texts del: take_Suc_Cons)

text \<open>Every string is escaped to one that the scanner accepts; valid UTF-8 is read back.\<close>

lemma raw_ok_ufffd: "raw_ok (CHR 0x5C # ''ufffd'' @ r) = raw_ok r"
  by (simp add: raw_ok.simps(2) [of "CHR 0x5C"] hex4_texts)

lemma valid_utf8_ascii: "in_bytes 0 0x7F c \<Longrightarrow> valid_utf8 (c # s) = valid_utf8 s"
  by simp

lemma raw_ok_escape: "raw_ok (escape s)"
proof (induction s rule: escape.induct)
  case (2 c s)
  then show ?case
    using raw_ok_escape_byte [of c] raw_ok_escape_rune [of c s] raw_ok_ufffd [of "escape s"]
    unfolding escape.simps(2) by (cases "in_bytes 0 0x7F c"; cases "rune_len (c # s) = 0") simp_all
qed simp

lemma unescape_escape: "valid_utf8 s \<Longrightarrow> unescape (escape s) = s"
proof (induction s rule: escape.induct)
  case (2 c s)
  show ?case
  proof (cases "in_bytes 0 0x7F c")
    case True
    with 2 show ?thesis by (simp add: escape.simps(2) unescape_escape_byte valid_utf8_ascii del: valid_utf8.simps)
  next
    case False
    with "2.prems" have n: "rune_len (c # s) \<noteq> 0" "valid_utf8 (drop (rune_len (c # s)) (c # s))"
      by (auto split: if_splits)
    have "unescape (escape (c # s)) = take (rune_len (c # s)) (c # s) @ unescape (escape (drop (rune_len (c # s)) (c # s)))"
      using unescape_escape_rune [OF n(1) False] False n(1) unfolding escape.simps(2) by (simp only: if_False)
    also have "unescape (escape (drop (rune_len (c # s)) (c # s))) = drop (rune_len (c # s)) (c # s)"
      by (rule "2.IH"(3) [OF False n])
    finally show ?thesis by (simp only: append_take_drop_id)
  qed
qed simp

end
