(* ===== verification/Go_JSON_Values.thy ===== *)
theory Go_JSON_Values
  imports Go_JSON
begin

section \<open>JSON values: printing and parsing (package encoding/json)\<close>

text \<open>
  Values with their strings as they stand between the quotes and their numbers as text; the
  indented text of a value; the lexer and the stack machine that read a text; and the proof
  that the text of a value is read back as the value.
\<close>

datatype json =
    JNull
  | JBool bool
  | JNumber string
  | JString string
  | JArray "json list"
  | JObject "(string \<times> json) list"

subsection \<open>Printing\<close>

definition quoted :: "string \<Rightarrow> string" where
  "quoted raw = CHR 0x22 # raw @ [CHR 0x22]"

definition newline :: "nat \<Rightarrow> string" where
  "newline d = CHR 0x0A # replicate (2 * d) CHR '' ''"

text \<open>Elements and members at depth \<open>d\<close>, each on a line of its own, the first without a comma.\<close>

fun indent :: "nat \<Rightarrow> json \<Rightarrow> string"
and indent_elements :: "nat \<Rightarrow> json list \<Rightarrow> string"
and indent_members :: "nat \<Rightarrow> (string \<times> json) list \<Rightarrow> string" where
  "indent d JNull = ''null''"
| "indent d (JBool b) = (if b then ''true'' else ''false'')"
| "indent d (JNumber s) = s"
| "indent d (JString raw) = quoted raw"
| "indent d (JArray []) = ''[]''"
| "indent d (JArray (v # vs)) =
     ''['' @ newline (Suc d) @ indent (Suc d) v @ indent_elements (Suc d) vs @ newline d @ '']''"
| "indent d (JObject []) = ''{}''"
| "indent d (JObject ((k, v) # ms)) =
     ''{'' @ newline (Suc d) @ quoted k @ '': '' @ indent (Suc d) v @ indent_members (Suc d) ms @ newline d @ ''}''"
| "indent_elements d [] = []"
| "indent_elements d (v # vs) = '','' @ newline d @ indent d v @ indent_elements d vs"
| "indent_members d [] = []"
| "indent_members d ((k, v) # ms) = '','' @ newline d @ quoted k @ '': '' @ indent d v @ indent_members d ms"

subsection \<open>Numbers and words\<close>

definition exponent_ok :: "string \<Rightarrow> bool" where
  "exponent_ok s =
     (case s of
        [] \<Rightarrow> True
      | c # r \<Rightarrow>
          (c = CHR ''e'' \<or> c = CHR ''E'') \<and>
          (let ds = (if r \<noteq> [] \<and> (hd r = CHR ''+'' \<or> hd r = CHR ''-'') then tl r else r)
           in ds \<noteq> [] \<and> list_all is_digit ds))"

definition fraction_ok :: "string \<Rightarrow> bool" where
  "fraction_ok s =
     (if s \<noteq> [] \<and> hd s = CHR ''.'' then
        tl s \<noteq> [] \<and> is_digit (hd (tl s)) \<and> exponent_ok (dropWhile is_digit (tl s))
      else exponent_ok s)"

definition number_ok :: "string \<Rightarrow> bool" where
  "number_ok s =
     (let u = (if s \<noteq> [] \<and> hd s = CHR ''-'' then tl s else s)
      in u \<noteq> [] \<and> is_digit (hd u) \<and>
         fraction_ok (if hd u = CHR ''0'' then tl u else dropWhile is_digit u))"

definition word_char :: "char \<Rightarrow> bool" where
  "word_char c =
     (is_digit c \<or> in_bytes 65 90 c \<or> in_bytes 97 122 c \<or> c = CHR ''+'' \<or> c = CHR ''-'' \<or> c = CHR ''.'')"

subsection \<open>The lexer\<close>

datatype token =
    Open_Brace | Close_Brace | Open_Bracket | Close_Bracket | Comma | Colon
  | Text string
  | Atom json

definition punctuation :: "char \<Rightarrow> token option" where
  "punctuation c =
     (if c = CHR ''{'' then Some Open_Brace else if c = CHR ''}'' then Some Close_Brace
      else if c = CHR ''['' then Some Open_Bracket else if c = CHR '']'' then Some Close_Bracket
      else if c = CHR '','' then Some Comma else if c = CHR '':'' then Some Colon else None)"

definition space :: "char \<Rightarrow> bool" where
  "space c = (c = CHR '' '' \<or> c = CHR 0x09 \<or> c = CHR 0x0D \<or> c = CHR 0x0A)"

definition word_token :: "string \<Rightarrow> token option" where
  "word_token s =
     (if s = ''null'' then Some (Atom JNull)
      else if s = ''true'' then Some (Atom (JBool True))
      else if s = ''false'' then Some (Atom (JBool False))
      else if number_ok s then Some (Atom (JNumber s))
      else None)"

text \<open>Between tokens, inside a string (after a backslash or not), or inside a number or word.\<close>

datatype lex_mode = Between | In_String string bool | In_Word string

function lexer :: "lex_mode \<Rightarrow> string \<Rightarrow> token list option" where
  "lexer Between [] = Some []"
| "lexer Between (c # s) =
     (if space c then lexer Between s
      else if c = CHR 0x22 then lexer (In_String [] False) s
      else if word_char c then lexer (In_Word [c]) s
      else case punctuation c of None \<Rightarrow> None | Some t \<Rightarrow> map_option (Cons t) (lexer Between s))"
| "lexer (In_String acc esc) [] = None"
| "lexer (In_String acc esc) (c # s) =
     (if esc then lexer (In_String (acc @ [c]) False) s
      else if c = CHR 0x22 then if raw_ok acc then map_option (Cons (Text acc)) (lexer Between s) else None
      else lexer (In_String (acc @ [c]) (c = CHR 0x5C)) s)"
| "lexer (In_Word acc) [] = (case word_token acc of None \<Rightarrow> None | Some t \<Rightarrow> Some [t])"
| "lexer (In_Word acc) (c # s) =
     (if word_char c then lexer (In_Word (acc @ [c])) s
      else case word_token acc of None \<Rightarrow> None | Some t \<Rightarrow> map_option (Cons t) (lexer Between (c # s)))"
  by pat_completeness auto
termination
  by (relation "measure (\<lambda>(m, s). 2 * length s + (case m of In_Word acc \<Rightarrow> 1 | _ \<Rightarrow> 0))") auto

subsection \<open>The stack machine\<close>

text \<open>
  An open array with its elements so far, or an open object with its members so far and the key
  whose value is being read.  Lists grow at the end.
\<close>

datatype frame = In_Array "json list" | In_Object "(string \<times> json) list" string

datatype expect =
    Value
  | Value_Or_End
  | Key_Or_End
  | Key "(string \<times> json) list"
  | Colon_After "(string \<times> json) list" string
  | After json

definition maxNestingDepth :: nat where "maxNestingDepth = 10000"

text \<open>A token where a value is expected.\<close>

definition begin_value :: "frame list \<Rightarrow> token \<Rightarrow> (frame list \<times> expect) option" where
  "begin_value st t =
     (case t of
        Text raw \<Rightarrow> Some (st, After (JString raw))
      | Atom v \<Rightarrow> Some (st, After v)
      | Open_Brace \<Rightarrow> if length st < maxNestingDepth then Some (st, Key_Or_End) else None
      | Open_Bracket \<Rightarrow> if length st < maxNestingDepth then Some (In_Array [] # st, Value_Or_End) else None
      | _ \<Rightarrow> None)"

definition end_value :: "frame list \<Rightarrow> json \<Rightarrow> token \<Rightarrow> (frame list \<times> expect) option" where
  "end_value st v t =
     (case st of
        [] \<Rightarrow> None
      | In_Array vs # st' \<Rightarrow>
          (case t of
             Comma \<Rightarrow> Some (In_Array (vs @ [v]) # st', Value)
           | Close_Bracket \<Rightarrow> Some (st', After (JArray (vs @ [v])))
           | _ \<Rightarrow> None)
      | In_Object ms k # st' \<Rightarrow>
          (case t of
             Comma \<Rightarrow> Some (st', Key (ms @ [(k, v)]))
           | Close_Brace \<Rightarrow> Some (st', After (JObject (ms @ [(k, v)])))
           | _ \<Rightarrow> None))"

fun machine :: "frame list \<times> expect \<Rightarrow> token \<Rightarrow> (frame list \<times> expect) option" where
  "machine (st, Value) t = begin_value st t"
| "machine (st, Value_Or_End) t = (if t = Close_Bracket then Some (tl st, After (JArray [])) else begin_value st t)"
| "machine (st, Key_Or_End) t =
     (case t of Close_Brace \<Rightarrow> Some (st, After (JObject [])) | Text k \<Rightarrow> Some (st, Colon_After [] k) | _ \<Rightarrow> None)"
| "machine (st, Key ms) t = (case t of Text k \<Rightarrow> Some (st, Colon_After ms k) | _ \<Rightarrow> None)"
| "machine (st, Colon_After ms k) t = (if t = Colon then Some (In_Object ms k # st, Value) else None)"
| "machine (st, After v) t = end_value st v t"

fun machine_run :: "frame list \<times> expect \<Rightarrow> token list \<Rightarrow> (frame list \<times> expect) option" where
  "machine_run q [] = Some q"
| "machine_run q (t # ts) = (case machine q t of None \<Rightarrow> None | Some q \<Rightarrow> machine_run q ts)"

text \<open>The value of a text, if it is valid JSON.\<close>

definition parse_json :: "string \<Rightarrow> json option" where
  "parse_json s =
     (case lexer Between s of
        None \<Rightarrow> None
      | Some ts \<Rightarrow> (case machine_run ([], Value) ts of Some ([], After v) \<Rightarrow> Some v | _ \<Rightarrow> None))"

subsection \<open>Well-formed values\<close>

fun json_ok :: "json \<Rightarrow> bool"
and elements_ok :: "json list \<Rightarrow> bool"
and members_ok :: "(string \<times> json) list \<Rightarrow> bool" where
  "json_ok JNull = True"
| "json_ok (JBool b) = True"
| "json_ok (JNumber s) = number_ok s"
| "json_ok (JString raw) = raw_ok raw"
| "json_ok (JArray vs) = elements_ok vs"
| "json_ok (JObject ms) = members_ok ms"
| "elements_ok [] = True"
| "elements_ok (v # vs) = (json_ok v \<and> elements_ok vs)"
| "members_ok [] = True"
| "members_ok ((k, v) # ms) = (raw_ok k \<and> json_ok v \<and> members_ok ms)"

fun nesting :: "json \<Rightarrow> nat"
and nesting_elements :: "json list \<Rightarrow> nat"
and nesting_members :: "(string \<times> json) list \<Rightarrow> nat" where
  "nesting (JArray vs) = Suc (nesting_elements vs)"
| "nesting (JObject ms) = Suc (nesting_members ms)"
| "nesting v = 0"
| "nesting_elements [] = 0"
| "nesting_elements (v # vs) = max (nesting v) (nesting_elements vs)"
| "nesting_members [] = 0"
| "nesting_members ((k, v) # ms) = max (nesting v) (nesting_members ms)"

fun tokens :: "json \<Rightarrow> token list"
and element_tokens :: "json list \<Rightarrow> token list"
and member_tokens :: "(string \<times> json) list \<Rightarrow> token list" where
  "tokens (JString raw) = [Text raw]"
| "tokens (JArray []) = [Open_Bracket, Close_Bracket]"
| "tokens (JArray (v # vs)) = Open_Bracket # tokens v @ element_tokens vs @ [Close_Bracket]"
| "tokens (JObject []) = [Open_Brace, Close_Brace]"
| "tokens (JObject ((k, v) # ms)) = Open_Brace # Text k # Colon # tokens v @ member_tokens ms @ [Close_Brace]"
| "tokens v = [Atom v]"
| "element_tokens [] = []"
| "element_tokens (v # vs) = Comma # tokens v @ element_tokens vs"
| "member_tokens [] = []"
| "member_tokens ((k, v) # ms) = Comma # Text k # Colon # tokens v @ member_tokens ms"

subsection \<open>The machine reads the tokens of a value\<close>

lemma machine_value_or_end:
  "machine_run (st, Value_Or_End) (tokens v @ ts) = machine_run (st, Value) (tokens v @ ts)"
  by (cases v rule: tokens.cases) (auto split: list.splits)

lemma machine_tokens:
  "length st + nesting v \<le> maxNestingDepth \<Longrightarrow>
     machine_run (st, Value) (tokens v @ ts) = machine_run (st, After v) ts"
  "Suc (length st) + nesting_elements vs \<le> maxNestingDepth \<Longrightarrow>
     machine_run (In_Array acc # st, After v) (element_tokens vs @ Close_Bracket # ts) =
     machine_run (st, After (JArray (acc @ v # vs))) ts"
  "Suc (length st) + nesting_members ms \<le> maxNestingDepth \<Longrightarrow>
     machine_run (In_Object macc k # st, After v) (member_tokens ms @ Close_Brace # ts) =
     machine_run (st, After (JObject (macc @ (k, v) # ms))) ts"
proof (induction v and vs and ms arbitrary: st ts and st ts acc v and st ts macc k v
    rule: tokens_element_tokens_member_tokens.induct)
qed (simp_all add: begin_value_def end_value_def machine_value_or_end)

subsection \<open>The lexer reads the text of a value\<close>

definition boundary :: "string \<Rightarrow> bool" where
  "boundary s = (s = [] \<or> \<not> word_char (hd s))"

lemma boundary_Cons [simp]: "boundary (c # s) = (\<not> word_char c)"
  by (simp add: boundary_def)

lemma word_char_not: "word_char c \<Longrightarrow> \<not> space c \<and> c \<noteq> CHR 0x22"
  by (auto simp: word_char_def space_def is_digit_def in_bytes_def)

lemma not_word [simp]:
  "\<not> word_char CHR '',''" "\<not> word_char CHR '':''" "\<not> word_char CHR '']''" "\<not> word_char CHR ''}''"
  "\<not> word_char CHR ''[''" "\<not> word_char CHR ''{''" "\<not> word_char CHR 0x0A" "\<not> word_char CHR 0x22"
  by (simp_all add: word_char_def is_digit_def in_bytes_def)

lemma lex_in_word:
  "list_all word_char w \<Longrightarrow> boundary rest \<Longrightarrow>
   lexer (In_Word acc) (w @ rest) =
     (case word_token (acc @ w) of None \<Rightarrow> None | Some t \<Rightarrow> map_option (Cons t) (lexer Between rest))"
proof (induction w arbitrary: acc)
  case Nil
  then show ?case by (cases rest) (auto split: option.splits)
qed simp

lemma lex_word:
  assumes "list_all word_char w" "w \<noteq> []" "word_token w = Some t" "boundary rest"
  shows "lexer Between (w @ rest) = map_option (Cons t) (lexer Between rest)"
proof -
  obtain c u where w: "w = c # u" using assms(2) by (cases w) auto
  then show ?thesis
    using assms lex_in_word [of u rest "[c]"] word_char_not [of c] by simp
qed

lemma lex_spaces [simp]: "lexer Between (newline d @ s) = lexer Between s"
proof -
  have "lexer Between (replicate n CHR '' '' @ s) = lexer Between s" for n
    by (induction n) (simp_all add: space_def)
  then show ?thesis by (simp add: newline_def space_def)
qed

lemma hex_value_plain: "hex_value c = Some n \<Longrightarrow> c \<noteq> CHR 0x22 \<and> c \<noteq> CHR 0x5C"
  by (auto simp: hex_value_def is_digit_def in_bytes_def split: if_splits)

lemma lex_in_string:
  "raw_ok raw \<Longrightarrow> lexer (In_String acc False) (raw @ CHR 0x22 # rest) =
     (if raw_ok (acc @ raw) then map_option (Cons (Text (acc @ raw))) (lexer Between rest) else None)"
proof (induction raw arbitrary: acc rule: raw_ok.induct)
  case 1
  then show ?case by simp
next
  case (2 c s)
  show ?case
  proof (cases "c = CHR 0x5C")
    case True
    with "2.prems" obtain e r where s: "s = e # r" by (auto simp: raw_ok.simps(2) split: list.splits)
    show ?thesis
    proof (cases "e = CHR ''u''")
      case u: True
      with "2.prems" True s have "hex4 r \<noteq> None" by (auto simp: raw_ok.simps(2) split: if_splits)
      then obtain x y z w t where r: "r = x # y # z # w # t" "hex_value x \<noteq> None" "hex_value y \<noteq> None"
          "hex_value z \<noteq> None" "hex_value w \<noteq> None"
        by (auto simp: hex4_def bind_eq_Some_conv split: list.splits)
      have "raw_ok t" using "2.prems" True s u r by (auto simp: raw_ok.simps(2) [of "CHR 0x5C"] split: if_splits)
      then have ih: "lexer (In_String a False) (t @ CHR 0x22 # rest) =
          (if raw_ok (a @ t) then map_option (Cons (Text (a @ t))) (lexer Between rest) else None)" for a
        using "2.IH"(1) [OF True s u] \<open>hex4 r \<noteq> None\<close> by (simp add: r(1))
      have "x \<noteq> CHR 0x22 \<and> x \<noteq> CHR 0x5C" "y \<noteq> CHR 0x22 \<and> y \<noteq> CHR 0x5C" "z \<noteq> CHR 0x22 \<and> z \<noteq> CHR 0x5C"
        "w \<noteq> CHR 0x22 \<and> w \<noteq> CHR 0x5C"
        using r(2-) hex_value_plain by blast+
      then show ?thesis by (simp add: True s u r(1) ih)
    next
      case False
      with "2.prems" True s have e: "raw_ok r" "e \<in> set [CHR 0x22, CHR 0x5C, CHR ''/'', CHR ''b'', CHR ''f'', CHR ''n'', CHR ''r'', CHR ''t'']"
        by (auto simp: raw_ok.simps(2) [of "CHR 0x5C"] split: if_splits)
      with "2.IH"(2) [OF True s False] True s show ?thesis by simp
    qed
  next
    case False
    with "2.prems" have "c \<noteq> CHR 0x22" "\<not> byte c < 32" "raw_ok s" by (auto simp: raw_ok.simps(2) [of c] split: if_splits)
    with "2.IH"(3) [OF False] False show ?thesis by simp
  qed
qed

lemma lex_quoted: "raw_ok raw \<Longrightarrow> lexer Between (quoted raw @ rest) = map_option (Cons (Text raw)) (lexer Between rest)"
  using lex_in_string [of raw "[]" rest] by (simp add: quoted_def space_def)

lemma digit_word: "is_digit c \<Longrightarrow> word_char c"
  by (simp add: word_char_def)

lemma digits_words: "list_all is_digit s \<Longrightarrow> list_all word_char s"
  by (simp add: list_all_iff digit_word)

lemma exponent_words: "exponent_ok s \<Longrightarrow> list_all word_char s"
proof (cases s)
  case (Cons c r)
  assume "exponent_ok s"
  then have c: "c = CHR ''e'' \<or> c = CHR ''E''"
    and ds: "list_all is_digit (if r \<noteq> [] \<and> (hd r = CHR ''+'' \<or> hd r = CHR ''-'') then tl r else r)"
    unfolding exponent_ok_def Cons list.case Let_def by blast+
  have "list_all word_char r"
  proof (cases "r \<noteq> [] \<and> (hd r = CHR ''+'' \<or> hd r = CHR ''-'')")
    case True
    then obtain x u where "r = x # u" "x = CHR ''+'' \<or> x = CHR ''-''" by (cases r) auto
    with ds digits_words [of u] show ?thesis by (auto simp: word_char_def)
  next
    case False
    with ds digits_words [of r] show ?thesis by (simp only: if_False)
  qed
  moreover have "word_char c" using c by (auto simp: word_char_def in_bytes_def)
  ultimately show ?thesis by (simp add: Cons)
qed simp

lemma split_digits: "list_all word_char (dropWhile is_digit s) \<Longrightarrow> list_all word_char s"
  by (metis (no_types, lifting) digit_word list_all_append list_all_iff set_takeWhileD takeWhile_dropWhile_id)

lemma fraction_words: "fraction_ok s \<Longrightarrow> list_all word_char s"
proof (cases "s \<noteq> [] \<and> hd s = CHR ''.''")
  case True
  then obtain r where s: "s = CHR ''.'' # r" by (cases s) auto
  assume "fraction_ok s"
  then have "exponent_ok (dropWhile is_digit r)" by (simp add: s fraction_ok_def)
  from split_digits [OF exponent_words [OF this]] show ?thesis by (simp add: s word_char_def)
next
  case False
  assume "fraction_ok s"
  with False have "exponent_ok s" unfolding fraction_ok_def by (simp only: if_False)
  then show ?thesis by (rule exponent_words)
qed

lemma number_words:
  assumes "number_ok s"
  shows "list_all word_char s" "s \<noteq> []" "word_token s = Some (Atom (JNumber s))"
proof -
  obtain m u where s: "s = m @ u" "m = [] \<or> m = ''-''" and u: "u \<noteq> []" "is_digit (hd u)"
      "fraction_ok (if hd u = CHR ''0'' then tl u else dropWhile is_digit u)"
    using assms that [of "[]" s] that [of "''-''" "tl s"] by (cases s) (auto simp: number_ok_def Let_def split: if_splits)
  have "list_all word_char u"
  proof (cases "hd u = CHR ''0''")
    case True
    with u fraction_words [of "tl u"] show ?thesis by (cases u) (auto simp: digit_word)
  next
    case False
    with u show ?thesis by (simp add: split_digits fraction_words)
  qed
  with s(2) show "list_all word_char s" by (auto simp: s(1) word_char_def)
  show "s \<noteq> []" using s u by auto
  have "\<not> is_digit CHR ''n''" "\<not> is_digit CHR ''t''" "\<not> is_digit CHR ''f''" by (simp_all add: is_digit_def)
  with s u have "s \<noteq> ''null''" "s \<noteq> ''true''" "s \<noteq> ''false''" by auto
  with assms show "word_token s = Some (Atom (JNumber s))" by (simp add: word_token_def)
qed

lemma lex_punctuation [simp]:
  "lexer Between (CHR ''{'' # s) = map_option (Cons Open_Brace) (lexer Between s)"
  "lexer Between (CHR ''}'' # s) = map_option (Cons Close_Brace) (lexer Between s)"
  "lexer Between (CHR ''['' # s) = map_option (Cons Open_Bracket) (lexer Between s)"
  "lexer Between (CHR '']'' # s) = map_option (Cons Close_Bracket) (lexer Between s)"
  "lexer Between (CHR '','' # s) = map_option (Cons Comma) (lexer Between s)"
  "lexer Between (CHR '':'' # s) = map_option (Cons Colon) (lexer Between s)"
  "lexer Between (CHR '' '' # s) = lexer Between s"
  by (simp_all add: space_def punctuation_def)

declare lexer.simps(2-) [simp del]

lemma lex_atoms:
  assumes "boundary rest"
  shows "lexer Between (CHR ''n'' # CHR ''u'' # CHR ''l'' # CHR ''l'' # rest) = map_option (Cons (Atom JNull)) (lexer Between rest)"
    and "lexer Between (CHR ''t'' # CHR ''r'' # CHR ''u'' # CHR ''e'' # rest) =
      map_option (Cons (Atom (JBool True))) (lexer Between rest)"
    and "lexer Between (CHR ''f'' # CHR ''a'' # CHR ''l'' # CHR ''s'' # CHR ''e'' # rest) =
      map_option (Cons (Atom (JBool False))) (lexer Between rest)"
  using lex_word [of "''null''" _ rest] lex_word [of "''true''" _ rest] lex_word [of "''false''" _ rest] assms
  by (simp_all add: word_char_def is_digit_def in_bytes_def word_token_def)

lemma append_fun:
  "(@) [] = (\<lambda>x. x)" "(@) (t # ts) = (\<lambda>x. t # ts @ x)" "(@) (us @ ts) = (\<lambda>x. us @ ts @ x)"
  by (simp_all add: fun_eq_iff)

lemma boundary_newline [simp]: "boundary (newline d @ s)"
  by (simp add: newline_def)

lemma boundary_members [simp]:
  "boundary rest \<Longrightarrow> boundary (indent_elements d vs @ rest)"
  "boundary rest \<Longrightarrow> boundary (indent_members d ms @ rest)"
  by (cases "(d, vs)" rule: indent_elements.cases; simp) (cases "(d, ms)" rule: indent_members.cases; simp)

lemma lex_indent:
  "json_ok v \<Longrightarrow> boundary rest \<Longrightarrow> lexer Between (indent d v @ rest) = map_option (append (tokens v)) (lexer Between rest)"
  "elements_ok vs \<Longrightarrow> boundary rest \<Longrightarrow>
     lexer Between (indent_elements d vs @ rest) = map_option (append (element_tokens vs)) (lexer Between rest)"
  "members_ok ms \<Longrightarrow> boundary rest \<Longrightarrow>
     lexer Between (indent_members d ms @ rest) = map_option (append (member_tokens ms)) (lexer Between rest)"
proof (induction d v and d vs and d ms arbitrary: rest and rest and rest
    rule: indent_indent_elements_indent_members.induct)
qed (simp_all add: lex_quoted lex_atoms lex_word [OF number_words] append_fun option.map_comp comp_def option.map_ident)

theorem parse_indent:
  assumes "json_ok v" "nesting v \<le> maxNestingDepth" and "rest = [] \<or> rest = [CHR 0x0A]"
  shows "parse_json (indent d v @ rest) = Some v"
proof -
  have "boundary rest" "lexer Between rest = Some []"
    using assms(3) by (auto simp: boundary_def space_def word_char_def is_digit_def in_bytes_def lexer.simps(2))
  then have "lexer Between (indent d v @ rest) = Some (tokens v)"
    using lex_indent(1) [OF assms(1)] by simp
  then show ?thesis
    using machine_tokens(1) [of "[]" v "[]"] assms(2) by (simp add: parse_json_def)
qed

end
