(* ===== verification/Endpoint_JSON.thy ===== *)
theory Endpoint_JSON
  imports Provenance Go_JSON_Values
begin

section \<open>The JSON text of an endpoint (the struct tags of endpoint.go and provenance.go)\<close>

text \<open>
  The struct \<open>Endpoint\<close>, its value as JSON by the tags of its fields, and the value read into the
  struct.  Omitted when empty are the fields with \<open>omitempty\<close>, but a time, which is a struct,
  never is.  An error of the decoder is one value: the program only passes it on.
\<close>

type_synonym Backend = string

record Endpoint =
  en_Backend :: Backend
  en_URI :: string
  en_ProjectID :: string
  en_InstanceID :: string
  en_ManagedBy :: string
  en_PID :: int
  en_StartedAt :: string
  en_Provenance :: "EndpointProvenance option"

text \<open>An endpoint without the lifecycle metadata, as the literals of the code leave it.\<close>

definition plainEndpoint :: "Backend \<Rightarrow> string \<Rightarrow> string \<Rightarrow> string \<Rightarrow> Endpoint" where
  "plainEndpoint backend uri project inst =
     \<lparr>en_Backend = backend, en_URI = uri, en_ProjectID = project, en_InstanceID = inst,
      en_ManagedBy = [], en_PID = 0, en_StartedAt = [], en_Provenance = None\<rparr>"

definition zeroEndpointProvenance :: EndpointProvenance where
  "zeroEndpointProvenance = \<lparr>ep_RequestedImage = [], ep_ImageID = [], ep_IndexDigest = [],
     ep_ManifestDigest = [], ep_Platform = [], ep_ObservedAt = zeroTime\<rparr>"

subsection \<open>Encoding\<close>

definition text_field :: "string \<Rightarrow> string \<Rightarrow> (string \<times> json) list" where
  "text_field name s = [(name, JString (escape s))]"

definition omitempty :: "string \<Rightarrow> string \<Rightarrow> (string \<times> json) list" where
  "omitempty name s = (if s = [] then [] else text_field name s)"

definition provenance_json :: "EndpointProvenance \<Rightarrow> (string \<times> json) list" where
  "provenance_json p =
     omitempty ''requested_image'' (ep_RequestedImage p) @ omitempty ''image_id'' (ep_ImageID p) @
     omitempty ''index_digest'' (ep_IndexDigest p) @ omitempty ''manifest_digest'' (ep_ManifestDigest p) @
     omitempty ''platform'' (ep_Platform p) @ [(''observed_at'', JString (format_RFC3339Nano (ep_ObservedAt p)))]"

definition endpoint_json :: "Endpoint \<Rightarrow> (string \<times> json) list" where
  "endpoint_json e =
     text_field ''backend'' (en_Backend e) @ text_field ''uri'' (en_URI e) @
     text_field ''project_id'' (en_ProjectID e) @ text_field ''instance_id'' (en_InstanceID e) @
     omitempty ''managed_by'' (en_ManagedBy e) @
     (if en_PID e = 0 then [] else [(''pid'', JNumber (show_int (en_PID e)))]) @
     omitempty ''started_at'' (en_StartedAt e) @
     (case en_Provenance e of None \<Rightarrow> [] | Some p \<Rightarrow> [(''provenance'', JObject (provenance_json p))])"

definition printable_time :: "int \<Rightarrow> bool" where
  "printable_time t = (0 \<le> year_of t \<and> year_of t \<le> 9999)"

definition MarshalIndent :: "Endpoint \<Rightarrow> string result" where
  "MarshalIndent e =
     (case en_Provenance e of
        Some p \<Rightarrow>
          if printable_time (ep_ObservedAt p) then Inr (indent 0 (JObject (endpoint_json e)))
          else Inl (New ''json: error calling MarshalJSON for type time.Time: Time.MarshalJSON: year outside of range [0,9999]'')
      | None \<Rightarrow> Inr (indent 0 (JObject (endpoint_json e))))"

subsection \<open>Decoding\<close>

definition jsonError :: error where
  "jsonError = New ''json: the input does not fit''"

text \<open>
  Keys match without regard to case, under Unicode's simple folding: two characters outside of
  ASCII fold to ASCII letters.
\<close>

fun fold_name :: "string \<Rightarrow> string" where
  "fold_name [] = []"
| "fold_name (c # s) =
     (if strip [CHR 0xC5, CHR 0xBF] (c # s) \<noteq> None then CHR ''S'' # fold_name (drop 1 s)
      else if strip [CHR 0xE2, CHR 0x84, CHR 0xAA] (c # s) \<noteq> None then CHR ''K'' # fold_name (drop 2 s)
      else (if in_bytes 97 122 c then char_of (byte c - 32) else c) # fold_name s)"

definition find_field :: "string list \<Rightarrow> string \<Rightarrow> string option" where
  "find_field names key = find (\<lambda>name. fold_name (unescape key) = fold_name name) names"

text \<open>A JSON null leaves a field as it is.\<close>

definition decode_string :: "json \<Rightarrow> string \<Rightarrow> string result" where
  "decode_string v s =
     (case v of JNull \<Rightarrow> Inr s | JString raw \<Rightarrow> Inr (unescape raw) | _ \<Rightarrow> Inl jsonError)"

definition decode_int :: "json \<Rightarrow> int \<Rightarrow> int result" where
  "decode_int v i =
     (case v of
        JNull \<Rightarrow> Inr i
      | JNumber s \<Rightarrow> (case atoi s of None \<Rightarrow> Inl jsonError | Some n \<Rightarrow> Inr n)
      | _ \<Rightarrow> Inl jsonError)"

definition decode_time :: "json \<Rightarrow> int \<Rightarrow> int result" where
  "decode_time v t =
     (case v of
        JNull \<Rightarrow> Inr t
      | JString raw \<Rightarrow> (case parse_RFC3339 raw of None \<Rightarrow> Inl jsonError | Some t \<Rightarrow> Inr t)
      | _ \<Rightarrow> Inl jsonError)"

text \<open>An update of a field with a result that may be an error.\<close>

definition updated :: "('b \<Rightarrow> 'a) \<Rightarrow> 'b result \<Rightarrow> 'a result" where
  "updated f x = (case x of Inl e \<Rightarrow> Inl e | Inr y \<Rightarrow> Inr (f y))"

definition provenanceFields :: "string list" where
  "provenanceFields = [''requested_image'', ''image_id'', ''index_digest'', ''manifest_digest'', ''platform'', ''observed_at'']"

definition decode_provenance_field :: "string \<times> json \<Rightarrow> EndpointProvenance \<Rightarrow> EndpointProvenance result" where
  "decode_provenance_field m p =
     (let v = snd m in
      case find_field provenanceFields (fst m) of
        None \<Rightarrow> Inr p
      | Some f \<Rightarrow>
          if f = ''requested_image'' then updated (\<lambda>s. p\<lparr>ep_RequestedImage := s\<rparr>) (decode_string v (ep_RequestedImage p))
          else if f = ''image_id'' then updated (\<lambda>s. p\<lparr>ep_ImageID := s\<rparr>) (decode_string v (ep_ImageID p))
          else if f = ''index_digest'' then updated (\<lambda>s. p\<lparr>ep_IndexDigest := s\<rparr>) (decode_string v (ep_IndexDigest p))
          else if f = ''manifest_digest'' then updated (\<lambda>s. p\<lparr>ep_ManifestDigest := s\<rparr>) (decode_string v (ep_ManifestDigest p))
          else if f = ''platform'' then updated (\<lambda>s. p\<lparr>ep_Platform := s\<rparr>) (decode_string v (ep_Platform p))
          else updated (\<lambda>t. p\<lparr>ep_ObservedAt := t\<rparr>) (decode_time v (ep_ObservedAt p)))"

definition decode_provenance :: "json \<Rightarrow> EndpointProvenance option \<Rightarrow> EndpointProvenance option result" where
  "decode_provenance v p =
     (case v of
        JNull \<Rightarrow> Inr None
      | JObject ms \<Rightarrow>
          updated Some (fold_result (map decode_provenance_field ms) (case p of None \<Rightarrow> zeroEndpointProvenance | Some q \<Rightarrow> q))
      | _ \<Rightarrow> Inl jsonError)"

definition endpointFields :: "string list" where
  "endpointFields = [''backend'', ''uri'', ''project_id'', ''instance_id'', ''managed_by'', ''pid'', ''started_at'', ''provenance'']"

definition decode_endpoint_field :: "string \<times> json \<Rightarrow> Endpoint \<Rightarrow> Endpoint result" where
  "decode_endpoint_field m e =
     (let v = snd m in
      case find_field endpointFields (fst m) of
        None \<Rightarrow> Inr e
      | Some f \<Rightarrow>
          if f = ''backend'' then updated (\<lambda>s. e\<lparr>en_Backend := s\<rparr>) (decode_string v (en_Backend e))
          else if f = ''uri'' then updated (\<lambda>s. e\<lparr>en_URI := s\<rparr>) (decode_string v (en_URI e))
          else if f = ''project_id'' then updated (\<lambda>s. e\<lparr>en_ProjectID := s\<rparr>) (decode_string v (en_ProjectID e))
          else if f = ''instance_id'' then updated (\<lambda>s. e\<lparr>en_InstanceID := s\<rparr>) (decode_string v (en_InstanceID e))
          else if f = ''managed_by'' then updated (\<lambda>s. e\<lparr>en_ManagedBy := s\<rparr>) (decode_string v (en_ManagedBy e))
          else if f = ''pid'' then updated (\<lambda>i. e\<lparr>en_PID := i\<rparr>) (decode_int v (en_PID e))
          else if f = ''started_at'' then updated (\<lambda>s. e\<lparr>en_StartedAt := s\<rparr>) (decode_string v (en_StartedAt e))
          else updated (\<lambda>p. e\<lparr>en_Provenance := p\<rparr>) (decode_provenance v (en_Provenance e)))"

text \<open>
  \<open>json.Unmarshal\<close> into a zero \<open>Endpoint\<close>: the endpoint, or an error.  A value of
  the wrong type does not stop the decoder, but it fails in the end.
\<close>

definition Unmarshal :: "string \<Rightarrow> Endpoint result" where
  "Unmarshal data =
     (case parse_json data of
        None \<Rightarrow> Inl jsonError
      | Some JNull \<Rightarrow> Inr (plainEndpoint [] [] [] [])
      | Some (JObject ms) \<Rightarrow> fold_result (map decode_endpoint_field ms) (plainEndpoint [] [] [] [])
      | Some _ \<Rightarrow> Inl jsonError)"

subsection \<open>Reading what was written\<close>

lemma raw_ok_plain:
  "list_all (\<lambda>c. 0x20 \<le> byte c \<and> c \<noteq> CHR 0x22 \<and> c \<noteq> CHR 0x5C) s \<Longrightarrow> raw_ok s"
  by (induction s) (auto simp: raw_ok.simps(2))

lemma digits_plain:
  "list_all is_digit s \<Longrightarrow> list_all (\<lambda>c. 0x20 \<le> byte c \<and> c \<noteq> CHR 0x22 \<and> c \<noteq> CHR 0x5C) s"
  by (auto simp: list_all_iff is_digit_def)

lemma show_padded_digits: "list_all is_digit (show_padded w i)"
  using show_nat_digits by (auto simp: show_padded_def Let_def list_all_iff is_digit_def)

lemma fraction_digits: "list_all (\<lambda>c. is_digit c \<or> c = CHR ''.'') (fraction_text f)"
  using show_padded_digits [of 9 f]
  by (auto simp: fraction_text_def list_all_iff dest!: set_dropWhileD)

lemma raw_ok_time: "raw_ok (format_RFC3339Nano t)"
proof (rule raw_ok_plain)
  have f: "list_all (\<lambda>c. 0x20 \<le> byte c \<and> c \<noteq> CHR 0x22 \<and> c \<noteq> CHR 0x5C) (fraction_text u)" for u
    using fraction_digits [of u] by (auto simp: list_all_iff is_digit_def)
  show "list_all (\<lambda>c. 0x20 \<le> byte c \<and> c \<noteq> CHR 0x22 \<and> c \<noteq> CHR 0x5C) (format_RFC3339Nano t)"
    by (simp add: format_RFC3339Nano_def civil_text_def Let_def split_beta f digits_plain [OF show_padded_digits])
qed

lemma hd_show_nat_0: "n \<noteq> 0 \<Longrightarrow> hd (show_nat n) \<noteq> CHR ''0''"
proof (induction n rule: show_nat.induct)
  case (1 n)
  show ?case
  proof (cases "n < 10")
    case True
    with "1.prems" of_char_digit [of n] show ?thesis by (auto simp: show_nat.simps [of n])
  next
    case False
    with "1.IH" show ?thesis by (simp add: show_nat.simps [of n])
  qed
qed

lemma number_ok_show_nat: "number_ok (show_nat n)" "number_ok (CHR ''-'' # show_nat n)"
proof -
  have "fraction_ok (if hd (show_nat n) = CHR ''0'' then tl (show_nat n) else dropWhile is_digit (show_nat n))"
  proof (cases "n = 0")
    case True
    then show ?thesis by (simp add: show_nat.simps [of 0] digit_0 fraction_ok_def exponent_ok_def)
  next
    case False
    have "dropWhile is_digit (show_nat n) = []" using show_nat_digits [of _ n] by (simp add: dropWhile_eq_Nil_conv)
    with hd_show_nat_0 [OF False] have "(if hd (show_nat n) = CHR ''0'' then tl (show_nat n) else dropWhile is_digit (show_nat n)) = []"
      by (simp only: if_False)
    then show ?thesis by (simp only: fraction_ok_def exponent_ok_def) simp
  qed
  then show "number_ok (show_nat n)" "number_ok (CHR ''-'' # show_nat n)"
    using hd_show_nat [of n] digit_not_sign [OF hd_show_nat, of n] by (simp_all add: number_ok_def)
qed

lemma number_ok_show_int: "number_ok (show_int i)"
  by (simp add: show_int_def number_ok_show_nat)

lemma atoi_show_int:
  assumes "minInt \<le> i" "i \<le> maxInt"
  shows "atoi (show_int i) = Some i"
proof (cases "i < 0")
  case True
  with assms show ?thesis by (simp add: show_int_def atoi_def read_show_nat in_int_range_def)
next
  case False
  with assms atoi_show_nat [of "nat i"] show ?thesis by (simp add: show_int_def)
qed

text \<open>Texts that survive: valid UTF-8 and a PID that an int holds.\<close>

definition provenance_text_ok :: "EndpointProvenance \<Rightarrow> bool" where
  "provenance_text_ok p \<longleftrightarrow>
     list_all valid_utf8 [ep_RequestedImage p, ep_ImageID p, ep_IndexDigest p, ep_ManifestDigest p, ep_Platform p]"

definition endpoint_text_ok :: "Endpoint \<Rightarrow> bool" where
  "endpoint_text_ok e \<longleftrightarrow>
     list_all valid_utf8 [en_Backend e, en_URI e, en_ProjectID e, en_InstanceID e, en_ManagedBy e, en_StartedAt e] \<and>
     minInt \<le> en_PID e \<and> en_PID e \<le> maxInt \<and>
     (case en_Provenance e of None \<Rightarrow> True | Some p \<Rightarrow> provenance_text_ok p)"

lemma field_keys:
  "raw_ok ''backend''" "raw_ok ''uri''" "raw_ok ''project_id''" "raw_ok ''instance_id''" "raw_ok ''managed_by''"
  "raw_ok ''pid''" "raw_ok ''started_at''" "raw_ok ''provenance''" "raw_ok ''requested_image''" "raw_ok ''image_id''"
  "raw_ok ''index_digest''" "raw_ok ''manifest_digest''" "raw_ok ''platform''" "raw_ok ''observed_at''"
  by (rule raw_ok_plain; simp)+

lemma members_ok_append: "members_ok (xs @ ys) = (members_ok xs \<and> members_ok ys)"
  by (induction xs) auto

lemma members_ok_endpoint: "members_ok (provenance_json p)" "members_ok (endpoint_json e)"
proof -
  show p: "members_ok (provenance_json p)" for p
    by (simp add: provenance_json_def text_field_def omitempty_def members_ok_append raw_ok_escape raw_ok_time field_keys)
  show "members_ok (endpoint_json e)"
    by (simp add: endpoint_json_def text_field_def omitempty_def members_ok_append raw_ok_escape field_keys p
        number_ok_show_int split: option.splits)
qed

lemma nesting_append: "nesting_members (xs @ ys) = max (nesting_members xs) (nesting_members ys)"
  by (induction xs) auto

lemma nesting_endpoint: "nesting_members (endpoint_json e) \<le> 1"
proof -
  have "nesting_members (provenance_json p) = 0" for p
    by (simp add: provenance_json_def text_field_def omitempty_def nesting_append)
  then show ?thesis
    by (simp add: endpoint_json_def text_field_def omitempty_def nesting_append split: option.splits)
qed

lemma endpoint_keys:
  "find_field endpointFields ''backend'' = Some ''backend''" "find_field endpointFields ''uri'' = Some ''uri''"
  "find_field endpointFields ''project_id'' = Some ''project_id''"
  "find_field endpointFields ''instance_id'' = Some ''instance_id''"
  "find_field endpointFields ''managed_by'' = Some ''managed_by''" "find_field endpointFields ''pid'' = Some ''pid''"
  "find_field endpointFields ''started_at'' = Some ''started_at''"
  "find_field endpointFields ''provenance'' = Some ''provenance''"
  by code_simp+

lemma provenance_keys:
  "find_field provenanceFields ''requested_image'' = Some ''requested_image''"
  "find_field provenanceFields ''image_id'' = Some ''image_id''"
  "find_field provenanceFields ''index_digest'' = Some ''index_digest''"
  "find_field provenanceFields ''manifest_digest'' = Some ''manifest_digest''"
  "find_field provenanceFields ''platform'' = Some ''platform''"
  "find_field provenanceFields ''observed_at'' = Some ''observed_at''"
  by code_simp+

lemma decode_provenance_json:
  assumes "provenance_text_ok p" "printable_time (ep_ObservedAt p)"
  shows "fold_result (map decode_provenance_field (provenance_json p)) zeroEndpointProvenance = Inr p"
  using assms
  by (simp add: provenance_json_def text_field_def omitempty_def fold_result_append decode_provenance_field_def provenance_keys
      decode_string_def decode_time_def updated_def unescape_escape parse_format printable_time_def provenance_text_ok_def
      zeroEndpointProvenance_def)

lemma decode_endpoint_json:
  assumes "endpoint_text_ok e" "\<And>p. en_Provenance e = Some p \<Longrightarrow> printable_time (ep_ObservedAt p)"
  shows "fold_result (map decode_endpoint_field (endpoint_json e)) (plainEndpoint [] [] [] []) = Inr e"
  using assms
  by (cases "en_Provenance e")
    (simp_all add: endpoint_json_def text_field_def omitempty_def fold_result_append decode_endpoint_field_def endpoint_keys
      decode_string_def decode_int_def decode_provenance_def decode_provenance_json updated_def unescape_escape atoi_show_int
      endpoint_text_ok_def plainEndpoint_def)

theorem Unmarshal_MarshalIndent:
  assumes "endpoint_text_ok e" and "MarshalIndent e = Inr data"
  shows "Unmarshal (data @ [CHR 0x0A]) = Inr e"
proof -
  have data: "data = indent 0 (JObject (endpoint_json e))" and t: "\<And>p. en_Provenance e = Some p \<Longrightarrow> printable_time (ep_ObservedAt p)"
    using assms(2) by (auto simp: MarshalIndent_def split: option.splits if_splits)
  have "parse_json (data @ [CHR 0x0A]) = Some (JObject (endpoint_json e))"
    unfolding data by (rule parse_indent) (use members_ok_endpoint nesting_endpoint [of e] in \<open>simp_all add: maxNestingDepth_def\<close>)
  with decode_endpoint_json [OF assms(1) t] show ?thesis by (simp add: Unmarshal_def)
qed

end
