(* ===== verification/Endpoint.thy ===== *)
theory Endpoint
  imports Endpoint_JSON
begin

section \<open>Endpoints (endpoint.go)\<close>

text \<open>
  The validation of an endpoint, the environment variables that configure one, and the endpoint
  file.
\<close>

definition BackendEmulator :: Backend where "BackendEmulator = ''emulator''"
definition BackendOmni :: Backend where "BackendOmni = ''omni''"

lemma backends_distinct [simp]: "BackendEmulator \<noteq> BackendOmni" "BackendOmni \<noteq> BackendEmulator"
  by (simp_all add: BackendEmulator_def BackendOmni_def)

definition endpointFileEnv :: string where "endpointFileEnv = ''SPANEMUBOOST_ENDPOINT_FILE''"
definition omniURIEnv :: string where "omniURIEnv = ''SPANEMUBOOST_OMNI_URI''"
definition omniProjectIDEnv :: string where "omniProjectIDEnv = ''SPANEMUBOOST_OMNI_PROJECT_ID''"
definition omniInstanceIDEnv :: string where "omniInstanceIDEnv = ''SPANEMUBOOST_OMNI_INSTANCE_ID''"
definition emulatorURIEnv :: string where "emulatorURIEnv = ''SPANEMUBOOST_EMULATOR_URI''"
definition emulatorProjectEnv :: string where "emulatorProjectEnv = ''SPANEMUBOOST_EMULATOR_PROJECT_ID''"
definition emulatorInstanceEnv :: string where "emulatorInstanceEnv = ''SPANEMUBOOST_EMULATOR_INSTANCE_ID''"

definition Endpoint_validate :: "Endpoint \<Rightarrow> error option" where
  "Endpoint_validate e =
     (if en_Backend e \<noteq> BackendEmulator \<and> en_Backend e \<noteq> BackendOmni then
        Some (Errorf ''spanemuboost: endpoint backend %q is unsupported'' [AStr (en_Backend e)])
      else if trimSpace (en_URI e) = [] then Some (New ''spanemuboost: endpoint URI is required'')
      else if trimSpace (en_ProjectID e) = [] then Some (New ''spanemuboost: endpoint project_id is required'')
      else if trimSpace (en_InstanceID e) = [] then Some (New ''spanemuboost: endpoint instance_id is required'')
      else None)"

text \<open>\<open>return endpoint, endpoint.validate()\<close>, for callers that look at the error first.\<close>

definition validated :: "Endpoint \<Rightarrow> Endpoint result" where
  "validated e = (case Endpoint_validate e of Some err \<Rightarrow> Inl err | None \<Rightarrow> Inr e)"

subsection \<open>The environment\<close>

definition cmpOrEnv :: "(string \<Rightarrow> string) \<Rightarrow> string \<Rightarrow> string \<Rightarrow> string" where
  "cmpOrEnv genv key fallback =
     (let value = trimSpace (genv key) in if value \<noteq> [] then value else fallback)"

definition EndpointConfiguredForBackend :: "(string \<Rightarrow> string) \<Rightarrow> Backend \<Rightarrow> bool" where
  "EndpointConfiguredForBackend genv backend =
     (if trimSpace (genv endpointFileEnv) \<noteq> [] then True
      else if backend = BackendOmni then trimSpace (genv omniURIEnv) \<noteq> []
      else if backend = BackendEmulator then trimSpace (genv emulatorURIEnv) \<noteq> []
      else False)"

definition endpointEnvConfigured :: "(string \<Rightarrow> string) \<Rightarrow> bool" where
  "endpointEnvConfigured genv =
     (if trimSpace (genv endpointFileEnv) \<noteq> [] then True
      else if trimSpace (genv omniURIEnv) \<noteq> [] then True
      else if trimSpace (genv emulatorURIEnv) \<noteq> [] then True
      else False)"

definition EndpointConfigured :: "(string \<Rightarrow> string) \<Rightarrow> bool" where
  "EndpointConfigured genv = endpointEnvConfigured genv"

definition omniEnvEndpoint :: "(string \<Rightarrow> string) \<Rightarrow> Endpoint" where
  "omniEnvEndpoint genv = plainEndpoint BackendOmni (trimSpace (genv omniURIEnv))
     (cmpOrEnv genv omniProjectIDEnv defaultOmniProjectID) (cmpOrEnv genv omniInstanceIDEnv defaultOmniInstanceID)"

definition emulatorEnvEndpoint :: "(string \<Rightarrow> string) \<Rightarrow> Endpoint" where
  "emulatorEnvEndpoint genv = plainEndpoint BackendEmulator (trimSpace (genv emulatorURIEnv))
     (cmpOrEnv genv emulatorProjectEnv DefaultProjectID) (cmpOrEnv genv emulatorInstanceEnv DefaultInstanceID)"

subsection \<open>Files\<close>

definition ReadEndpointFile :: "env \<Rightarrow> string \<Rightarrow> Endpoint result io" where
  "ReadEndpointFile E path = do {
     data \<leftarrow> os_ReadFile E path;
     State_Monad.return (case data of
       Inl e \<Rightarrow> Inl (Wrapf ''spanemuboost: read endpoint file %q: %w'' [AStr path] e)
     | Inr bytes \<Rightarrow>
         (case Unmarshal bytes of
            Inl e \<Rightarrow> Inl (Wrapf ''spanemuboost: parse endpoint file %q: %w'' [AStr path] e)
          | Inr endpoint \<Rightarrow> validated endpoint))
   }"

definition LoadEndpoint :: "env \<Rightarrow> Endpoint result io" where
  "LoadEndpoint E =
     (let path = trimSpace (getenv E endpointFileEnv)
      in if path \<noteq> [] then ReadEndpointFile E path
         else if trimSpace (getenv E omniURIEnv) \<noteq> [] then
           State_Monad.return (validated (omniEnvEndpoint (getenv E)))
         else if trimSpace (getenv E emulatorURIEnv) \<noteq> [] then
           State_Monad.return (validated (emulatorEnvEndpoint (getenv E)))
         else State_Monad.return (Inl (Errorf
           ''spanemuboost: no external endpoint configured; set %s, %s, or %s''
           [AStr endpointFileEnv, AStr omniURIEnv, AStr emulatorURIEnv])))"

definition LoadEndpointForBackend :: "env \<Rightarrow> Backend \<Rightarrow> Endpoint result io" where
  "LoadEndpointForBackend E backend =
     (let path = trimSpace (getenv E endpointFileEnv);
          missing = Inl (Errorf ''spanemuboost: no external endpoint configured for backend %q'' [AStr backend])
      in if path \<noteq> [] then do {
           endpoint \<leftarrow> ReadEndpointFile E path;
           State_Monad.return (case endpoint of
             Inl e \<Rightarrow> Inl e
           | Inr ep \<Rightarrow>
               if en_Backend ep \<noteq> backend then Inl (Errorf
                 ''spanemuboost: configured endpoint backend %q does not match requested backend %q''
                 [AStr (en_Backend ep), AStr backend])
               else Inr ep)
         }
         else if backend = BackendOmni then
           State_Monad.return (if trimSpace (getenv E omniURIEnv) \<noteq> []
             then validated (omniEnvEndpoint (getenv E)) else missing)
         else if backend = BackendEmulator then
           State_Monad.return (if trimSpace (getenv E emulatorURIEnv) \<noteq> []
             then validated (emulatorEnvEndpoint (getenv E)) else missing)
         else State_Monad.return (Inl (Errorf ''spanemuboost: unsupported backend %q'' [AStr backend])))"

text \<open>The part of \<open>SaveEndpoint\<close> with the deferred removal of the temporary file: the steps until the rename.\<close>

definition save_temp :: "env \<Rightarrow> string \<Rightarrow> string \<Rightarrow> string \<Rightarrow> error option io" where
  "save_temp E path tmpPath data = do {
     err \<leftarrow> tmp_Write E tmpPath data;
     case err of
       Some e \<Rightarrow> do {
         _ \<leftarrow> tmp_Close E tmpPath;
         State_Monad.return (Some (Wrapf ''spanemuboost: write temp endpoint file %q: %w'' [AStr tmpPath] e))
       }
     | None \<Rightarrow> do {
         err \<leftarrow> tmp_Chmod E tmpPath 384;
         case err of
           Some e \<Rightarrow> do {
             _ \<leftarrow> tmp_Close E tmpPath;
             State_Monad.return (Some (Wrapf ''spanemuboost: chmod temp endpoint file %q: %w'' [AStr tmpPath] e))
           }
         | None \<Rightarrow> do {
             err \<leftarrow> tmp_Close E tmpPath;
             case err of
               Some e \<Rightarrow> State_Monad.return (Some (Wrapf ''spanemuboost: close temp endpoint file %q: %w'' [AStr tmpPath] e))
             | None \<Rightarrow> do {
                 err \<leftarrow> os_Rename E tmpPath path;
                 State_Monad.return (case err of
                   Some e \<Rightarrow> Some (Wrapf ''spanemuboost: write endpoint file %q: %w'' [AStr path] e)
                 | None \<Rightarrow> None)
               }
           }
       }
   }"

definition SaveEndpoint :: "env \<Rightarrow> string \<Rightarrow> Endpoint \<Rightarrow> error option io" where
  "SaveEndpoint E path endpoint =
     (case Endpoint_validate endpoint of
        Some e \<Rightarrow> State_Monad.return (Some e)
      | None \<Rightarrow>
     (case MarshalIndent endpoint of
        Inl e \<Rightarrow> State_Monad.return (Some (Wrapf ''spanemuboost: marshal endpoint: %w'' [] e))
      | Inr data \<Rightarrow> do {
          let dir = filepath_Dir path;
          err \<leftarrow> os_MkdirAll E dir 493;
          case err of
            Some e \<Rightarrow> State_Monad.return (Some (Wrapf ''spanemuboost: create endpoint directory %q: %w'' [AStr dir] e))
          | None \<Rightarrow> do {
              tmp \<leftarrow> os_CreateTemp E dir ''.endpoint-*.json'';
              case tmp of
                Inl e \<Rightarrow> State_Monad.return (Some (Wrapf ''spanemuboost: create temp endpoint file in %q: %w'' [AStr dir] e))
              | Inr tmpPath \<Rightarrow> do {
                  err \<leftarrow> save_temp E path tmpPath (data @ [CHR 0x0A]);
                  _ \<leftarrow> (if err \<noteq> None then do { _ \<leftarrow> os_Remove E tmpPath; State_Monad.return () }
                        else State_Monad.return ());
                  State_Monad.return err
                }
            }
        }))"

subsection \<open>Configured and loaded\<close>

lemma Endpoint_validate_None_iff:
  "Endpoint_validate e = None \<longleftrightarrow> en_Backend e \<in> {BackendEmulator, BackendOmni} \<and> trimSpace (en_URI e) \<noteq> [] \<and>
     trimSpace (en_ProjectID e) \<noteq> [] \<and> trimSpace (en_InstanceID e) \<noteq> []"
  by (auto simp: Endpoint_validate_def)

lemma validated_Inr_iff: "validated e = Inr e' \<longleftrightarrow> e' = e \<and> Endpoint_validate e = None"
  by (auto simp: validated_def split: option.splits)

lemma cmpOrEnv_trimmed: "trimSpace fallback = fallback \<Longrightarrow> trimSpace (cmpOrEnv genv key fallback) = cmpOrEnv genv key fallback"
  by (simp add: cmpOrEnv_def Let_def)

lemma cmpOrEnv_nonempty: "fallback \<noteq> [] \<Longrightarrow> cmpOrEnv genv key fallback \<noteq> []"
  by (simp add: cmpOrEnv_def Let_def)

lemma default_IDs_trimmed:
  "trimSpace defaultOmniProjectID = defaultOmniProjectID" "trimSpace defaultOmniInstanceID = defaultOmniInstanceID"
  "trimSpace DefaultProjectID = DefaultProjectID" "trimSpace DefaultInstanceID = DefaultInstanceID"
  "defaultOmniProjectID \<noteq> []" "defaultOmniInstanceID \<noteq> []" "DefaultProjectID \<noteq> []" "DefaultInstanceID \<noteq> []"
  by (auto intro!: trimSpace_plain simp: omni_defaults emulator_defaults plain_byte_def spaces_def)

lemma env_endpoints_valid:
  "trimSpace (genv omniURIEnv) \<noteq> [] \<Longrightarrow> Endpoint_validate (omniEnvEndpoint genv) = None"
  "trimSpace (genv emulatorURIEnv) \<noteq> [] \<Longrightarrow> Endpoint_validate (emulatorEnvEndpoint genv) = None"
  by (simp_all add: Endpoint_validate_None_iff omniEnvEndpoint_def emulatorEnvEndpoint_def plainEndpoint_def
      cmpOrEnv_trimmed cmpOrEnv_nonempty default_IDs_trimmed)

subsection \<open>The endpoint file\<close>

text \<open>
  What \<open>os.CreateTemp\<close> is documented to do: the name it picks is that of no file; and the
  endpoint file itself does not get the name of a temporary file.
\<close>

definition temp_name :: "env \<Rightarrow> string \<Rightarrow> world \<Rightarrow> string" where
  "temp_name E path w =
     string_at E (world_after (os_MkdirAll E (filepath_Dir path) 493) w)
       (CreateTemp (filepath_Dir path) ''.endpoint-*.json'')"

definition temp_name_new :: "env \<Rightarrow> string \<Rightarrow> world \<Rightarrow> bool" where
  "temp_name_new E path w \<longleftrightarrow> files w (temp_name E path w) = None \<and> temp_name E path w \<noteq> path"

lemma run_save_temp:
  assumes "tmp \<noteq> path" and "files w tmp = Some f"
  shows "case run_state (save_temp E path tmp data) w of
    (None, w') \<Rightarrow> files w' = (files w)(path \<mapsto> \<lparr>content = data, mode = 384\<rparr>, tmp := None)
  | (Some e, w') \<Rightarrow> \<exists>x. files w' = (files w)(tmp := x)"
  using assms
  by (auto simp: save_temp_def tmp_Write_def tmp_Chmod_def tmp_Close_def os_Rename_def run_os_step
      no_check_def exists_check_def written_def chmod_def record_event_def fun_eq_iff Let_def
      split: option.splits prod.splits)

text \<open>The files after the deferred removal.\<close>

lemma run_cleanup:
  assumes "files w tmp = None" and "\<exists>x. files w1 = (files w)(tmp := x)"
  shows "\<exists>x. files (world_after (os_Remove E tmp) w1) = (files w)(tmp := x)"
    and "\<forall>w. os_fail E w (RemoveFile tmp) = None \<Longrightarrow> files (world_after (os_Remove E tmp) w1) = files w"
  using assms
  by (auto simp: world_after_def os_Remove_def run_os_step exists_check_def record_event_def fun_eq_iff
      split: option.splits)

definition saved :: "env \<Rightarrow> string \<Rightarrow> Endpoint \<Rightarrow> world \<Rightarrow> error option \<Rightarrow> world \<Rightarrow> bool" where
  "saved E path ep w r w' \<longleftrightarrow>
     (case r of
        None \<Rightarrow> Endpoint_validate ep = None \<and> (\<exists>data. MarshalIndent ep = Inr data \<and>
          files w' = (files w)(path \<mapsto> \<lparr>content = data @ [CHR 0x0A], mode = 384\<rparr>))
      | Some e \<Rightarrow> files w' path = files w path \<and>
          (\<exists>tmp x. files w tmp = None \<and> files w' = (files w)(tmp := x) \<and>
            ((\<forall>w. os_fail E w (RemoveFile tmp) = None) \<longrightarrow> files w' = files w)))"

lemma saved_unchanged: "files w' = files w \<Longrightarrow> files w t = None \<Longrightarrow> saved E path ep w (Some e) w'"
  by (auto simp: saved_def fun_eq_iff intro!: exI [of _ t] exI [of _ None])

lemma saved_temp:
  assumes "\<exists>x. files w' = (files w)(t := x)" and "\<forall>w. os_fail E w (RemoveFile t) = None \<Longrightarrow> files w' = files w"
    and "files w t = None" and "t \<noteq> path"
  shows "saved E path ep w (Some e) w'"
proof -
  from assms(1) obtain x where x: "files w' = (files w)(t := x)" by blast
  with assms(4) have "files w' path = files w path" by simp
  with x assms(2,3) show ?thesis unfolding saved_def by auto
qed

text \<open>The first two file operations: the directory, and the temporary file, empty and new.\<close>

lemma MkdirAll_files: "run_state (os_MkdirAll E d m) w = (r, w') \<Longrightarrow> files w' = files w"
  by (auto simp: os_MkdirAll_def run_os_step no_check_def record_event_def split: option.splits)

lemma CreateTemp_files:
  assumes "run_state (os_CreateTemp E d pattern) w = (r, w')"
  shows "case r of Inl e \<Rightarrow> files w' = files w
    | Inr tmp \<Rightarrow> tmp = string_at E w (CreateTemp d pattern) \<and> files w' = (files w)(tmp \<mapsto> \<lparr>content = [], mode = 384\<rparr>)"
  using assms by (auto simp: os_CreateTemp_def run_os_step no_check_def record_event_def Let_def split: option.splits)

text \<open>The rest, from the empty temporary file on; when it fails the temporary file is removed.\<close>

lemma save_temp_saved:
  assumes "files w tmp = None" "tmp \<noteq> path" and w2: "files w2 = (files w)(tmp \<mapsto> \<lparr>content = [], mode = 384\<rparr>)"
    and "Endpoint_validate ep = None" "MarshalIndent ep = Inr data"
    and run: "run_state (save_temp E path tmp (data @ [CHR 0x0A])) w2 = (r3, w3)"
  shows "case r3 of None \<Rightarrow> saved E path ep w None w3 | Some e \<Rightarrow> saved E path ep w (Some e) (world_after (os_Remove E tmp) w3)"
proof -
  have s: "case r3 of
      None \<Rightarrow> files w3 = (files w2)(path \<mapsto> \<lparr>content = data @ [CHR 0x0A], mode = 384\<rparr>, tmp := None)
    | Some e \<Rightarrow> \<exists>x. files w3 = (files w2)(tmp := x)"
    using run_save_temp [OF assms(2), where w = w2 and E = E and data = "data @ [CHR 0x0A]" and f = "\<lparr>content = [], mode = 384\<rparr>"]
      run w2 by (cases r3) simp_all
  show ?thesis
  proof (cases r3)
    case None
    have "files w3 = (files w)(path \<mapsto> \<lparr>content = data @ [CHR 0x0A], mode = 384\<rparr>)"
      using s None assms(1,2) by (simp add: w2 fun_eq_iff)
    with None assms(4,5) show ?thesis by (simp add: saved_def)
  next
    case (Some e)
    with s have "\<exists>x. files w3 = (files w)(tmp := x)" by (simp add: w2)
    with run_cleanup [OF assms(1) this, of E] Some assms(1,2) show ?thesis by (auto intro: saved_temp)
  qed
qed

lemma SaveEndpoint_saved:
  assumes "temp_name_new E path w"
  shows "saved E path ep w (result_of (SaveEndpoint E path ep) w) (world_after (SaveEndpoint E path ep) w)"
proof -
  let ?dir = "filepath_Dir path"
  obtain t where t: "files w t = None" using assms by (auto simp: temp_name_new_def)
  note failed = saved_unchanged [OF _ t, where E = E and path = path and ep = ep]
  note run_defs = SaveEndpoint_def Let_def result_of_def world_after_def
  consider (invalid) e where "Endpoint_validate ep = Some e"
    | (unprintable) e where "Endpoint_validate ep = None" "MarshalIndent ep = Inl e"
    | (data) data where "Endpoint_validate ep = None" "MarshalIndent ep = Inr data"
    by (cases "Endpoint_validate ep"; cases "MarshalIndent ep") auto
  then show ?thesis
  proof cases
    case invalid
    then show ?thesis by (simp add: SaveEndpoint_def failed)
  next
    case unprintable
    then show ?thesis by (simp add: SaveEndpoint_def failed)
  next
    case data
    obtain r1 w1 where mk: "run_state (os_MkdirAll E ?dir 493) w = (r1, w1)" by fastforce
    obtain r2 w2 where cr: "run_state (os_CreateTemp E ?dir ''.endpoint-*.json'') w1 = (r2, w2)" by fastforce
    note f1 = MkdirAll_files [OF mk] and f2 = CreateTemp_files [OF cr]
    show ?thesis
    proof (cases "r1 = None \<and> (\<exists>tmp. r2 = Inr tmp)")
      case False
      with data mk cr f1 f2 show ?thesis by (cases r1; cases r2) (simp_all add: run_defs failed)
    next
      case True
      then obtain tmp where r: "r1 = None" "r2 = Inr tmp" by blast
      have new: "files w tmp = None" "tmp \<noteq> path"
        using assms mk f2 r by (simp_all add: temp_name_new_def temp_name_def world_after_def)
      have w2: "files w2 = (files w)(tmp \<mapsto> \<lparr>content = [], mode = 384\<rparr>)" using f1 f2 r by simp
      obtain r3 w3 where sv: "run_state (save_temp E path tmp (data @ [CHR 0x0A])) w2 = (r3, w3)" by fastforce
      obtain r4 w4 where "run_state (os_Remove E tmp) w3 = (r4, w4)" by fastforce
      with save_temp_saved [OF new w2 data sv] data mk cr r sv show ?thesis by (cases r3) (simp_all add: run_defs)
    qed
  qed
qed

text \<open>Reading back what was saved.\<close>

lemma ReadEndpointFile_present:
  assumes "files w path = Some f" and "os_fail E w (ReadFile path) = None" and "Unmarshal (content f) = Inr ep"
  shows "result_of (ReadEndpointFile E path) w = validated ep"
  using assms
  by (simp add: ReadEndpointFile_def result_of_bind os_ReadFile_def run_os_step exists_check_def)
    (simp add: result_of_def run_os_step exists_check_def)

lemma SaveEndpoint_then_Read:
  assumes "temp_name_new E path w" and "endpoint_text_ok ep"
    and "result_of (SaveEndpoint E path ep) w = None"
    and "files w' path = files (world_after (SaveEndpoint E path ep) w) path" and "os_fail E' w' (ReadFile path) = None"
  shows "result_of (ReadEndpointFile E' path) w' = Inr ep"
proof -
  from SaveEndpoint_saved [OF assms(1), of ep] assms(3)
  obtain data where v: "Endpoint_validate ep = None" and d: "MarshalIndent ep = Inr data"
    and f: "files (world_after (SaveEndpoint E path ep) w) path = Some \<lparr>content = data @ [CHR 0x0A], mode = 384\<rparr>"
    by (auto simp: saved_def)
  have "Unmarshal (data @ [CHR 0x0A]) = Inr ep" by (rule Unmarshal_MarshalIndent [OF assms(2) d])
  with ReadEndpointFile_present [of w' path _ E' ep] assms(4,5) f v show ?thesis
    by (simp add: validated_def)
qed

end
