(* ===== verification/Runtimes.thy ===== *)
theory Runtimes
  imports Endpoint
begin

section \<open>The three runtimes (emulator.go, omni.go, attached.go, runtime.go)\<close>

text \<open>
  The structs \<open>Emulator\<close>, \<open>omniRuntime\<close> and \<open>AttachedRuntime\<close>, how they are started, closed and
  reopened.  A pointer that may be nil is an option.
\<close>

text \<open>Options are resolved in the process environment with the next random numbers.\<close>

definition with_process :: "env \<Rightarrow> ((string \<Rightarrow> string) \<Rightarrow> rng \<Rightarrow> 'a) \<Rightarrow> 'a io" where
  "with_process E f = State (\<lambda>w. (f (getenv E) (random E w), w))"

lemma appends_with_process [appends_intros]: "appends (with_process E f)"
  by (simp add: with_process_def appends_def world_after_def)

subsection \<open>What a runtime hands down to its clients\<close>

definition inheritedRuntimeOptions :: "emulatorOptions \<Rightarrow> emulatorOptions" where
  "inheritedRuntimeOptions opts = zeroOptions\<lparr>projectID := projectID opts, instanceID := instanceID opts,
     databaseID := databaseID opts, databaseDialect := databaseDialect opts, disableCreateInstance := True,
     disableCreateDatabase := True, reuseExistingDatabase := True, clientConfig := clientConfig opts\<rparr>"

subsection \<open>The emulator\<close>

record Emulator =
  e_container :: "Container option"
  e_opts :: "emulatorOptions option"
  e_closeState :: "closeState option"
  e_provenance :: "ImageProvenance option"

definition Emulator_URI :: "Emulator \<Rightarrow> string" where
  "Emulator_URI e = container_URI (the (e_container e))"

definition Emulator_ClientOptions :: "Emulator \<Rightarrow> ClientOption list" where
  "Emulator_ClientOptions e = defaultClientOpts (the (e_container e))"

definition Emulator_Container :: "Emulator \<Rightarrow> Container option" where
  "Emulator_Container e = e_container e"

definition Emulator_ProjectID :: "Emulator \<Rightarrow> string" where
  "Emulator_ProjectID e = projectID (the (e_opts e))"

definition Emulator_InstanceID :: "Emulator \<Rightarrow> string" where
  "Emulator_InstanceID e = instanceID (the (e_opts e))"

definition Emulator_DatabaseID :: "Emulator \<Rightarrow> string" where
  "Emulator_DatabaseID e = databaseID (the (e_opts e))"

definition Emulator_ProjectPath :: "Emulator \<Rightarrow> string" where
  "Emulator_ProjectPath e = projectPath (projectID (the (e_opts e)))"

definition Emulator_InstancePath :: "Emulator \<Rightarrow> string" where
  "Emulator_InstancePath e = instancePath (projectID (the (e_opts e))) (instanceID (the (e_opts e)))"

definition Emulator_DatabasePath :: "Emulator \<Rightarrow> string" where
  "Emulator_DatabasePath e =
     databasePath (projectID (the (e_opts e))) (instanceID (the (e_opts e))) (databaseID (the (e_opts e)))"

definition Emulator_runtimePlatform :: "env \<Rightarrow> ctx \<Rightarrow> Emulator \<Rightarrow> string result io" where
  "Emulator_runtimePlatform E c e = containerPlatform E c (e_container e)"

definition Emulator_imageProvenance :: "Emulator \<Rightarrow> ImageProvenance result" where
  "Emulator_imageProvenance e =
     (case e_provenance e of
        None \<Rightarrow> Inl (New ''spanemuboost: emulator image provenance is unavailable'')
      | Some p \<Rightarrow> Inr p)"

definition Emulator_captureImageProvenance :: "env \<Rightarrow> ctx \<Rightarrow> Emulator \<Rightarrow> Emulator io" where
  "Emulator_captureImageProvenance E c e =
     (if e_container e = None \<or> e_opts e = None then State_Monad.return e
      else do {
        p \<leftarrow> observeContainerImage E c (e_container e) (emulatorImage (the (e_opts e)));
        State_Monad.return (e\<lparr>e_provenance := p\<rparr>)
      })"

text \<open>The closure of both \<open>Close\<close> methods that own a container.\<close>

definition terminate_owned :: "env \<Rightarrow> Container option \<Rightarrow> error option io" where
  "terminate_owned E container =
     (case container of
        None \<Rightarrow> State_Monad.return None
      | Some ct \<Rightarrow> invoke E (TerminateContainer newCloseContext ct))"

definition Emulator_Close :: "env \<Rightarrow> Emulator \<Rightarrow> (error option \<times> Emulator) io" where
  "Emulator_Close E e = do {
     (err, s, _) \<leftarrow> close_slot (e_closeState e)
       (do { err \<leftarrow> terminate_owned E (e_container e); State_Monad.return (err, ()) }) ();
     State_Monad.return (err, e\<lparr>e_closeState := s\<rparr>)
   }"

definition Emulator_inheritedOptions :: "(string \<Rightarrow> string) \<Rightarrow> rng \<Rightarrow> Emulator \<Rightarrow> Option list \<Rightarrow> emulatorOptions result" where
  "Emulator_inheritedOptions genv r e options =
     applyOptionsWithBase genv r (inheritedRuntimeOptions (the (e_opts e))) options"

definition RunEmulator :: "env \<Rightarrow> ctx \<Rightarrow> Option list \<Rightarrow> Emulator result io" where
  "RunEmulator E c options = do {
     applied \<leftarrow> with_process E (\<lambda>genv r. applyOptions genv r options);
     case applied of
       Inl e \<Rightarrow> State_Monad.return (Inl e)
     | Inr opts \<Rightarrow> do {
         started \<leftarrow> newEmulator E c opts;
         case started of
           Inl e \<Rightarrow> State_Monad.return (Inl e)
         | Inr container \<Rightarrow> do {
             emu \<leftarrow> Emulator_captureImageProvenance E c
               \<lparr>e_container = Some container, e_opts = Some opts, e_closeState = None, e_provenance = None\<rparr>;
             err \<leftarrow> bootstrap E c opts (Emulator_ClientOptions emu);
             case err of
               Some e \<Rightarrow> do { _ \<leftarrow> Emulator_Close E emu; State_Monad.return (Inl e) }
             | None \<Rightarrow> State_Monad.return (Inr emu)
           }
       }
   }"

subsection \<open>Omni\<close>

record omniRuntime =
  o_container :: "Container option"
  o_opts :: "emulatorOptions option"
  o_uri :: string
  o_closeState :: closeState
  o_provenance :: "ImageProvenance option"

definition omniGRPCPort :: string where "omniGRPCPort = ''15000/tcp''"

definition omni_URI :: "omniRuntime \<Rightarrow> string" where
  "omni_URI o' = o_uri o'"

definition omni_ClientOptions :: "omniRuntime \<Rightarrow> ClientOption list" where
  "omni_ClientOptions o' =
     [WithEndpoint (''passthrough:///'' @ omni_URI o'), WithoutAuthentication, WithInsecureCredentials,
      SkipDialSettingsValidation]"

definition omni_ProjectID :: "omniRuntime \<Rightarrow> string" where
  "omni_ProjectID o' = projectID (the (o_opts o'))"

definition omni_InstanceID :: "omniRuntime \<Rightarrow> string" where
  "omni_InstanceID o' = instanceID (the (o_opts o'))"

definition omni_DatabaseID :: "omniRuntime \<Rightarrow> string" where
  "omni_DatabaseID o' = databaseID (the (o_opts o'))"

definition omni_ProjectPath :: "omniRuntime \<Rightarrow> string" where
  "omni_ProjectPath o' = opts_ProjectPath (the (o_opts o'))"

definition omni_InstancePath :: "omniRuntime \<Rightarrow> string" where
  "omni_InstancePath o' = opts_InstancePath (the (o_opts o'))"

definition omni_DatabasePath :: "omniRuntime \<Rightarrow> string" where
  "omni_DatabasePath o' = opts_DatabasePath (the (o_opts o'))"

definition omni_runtimePlatform :: "env \<Rightarrow> ctx \<Rightarrow> omniRuntime \<Rightarrow> string result io" where
  "omni_runtimePlatform E c o' = containerPlatform E c (o_container o')"

definition omni_imageProvenance :: "omniRuntime \<Rightarrow> ImageProvenance result" where
  "omni_imageProvenance o' =
     (case o_provenance o' of
        None \<Rightarrow> Inl (New ''spanemuboost: omni image provenance is unavailable'')
      | Some p \<Rightarrow> Inr p)"

definition omni_Close :: "env \<Rightarrow> omniRuntime \<Rightarrow> (error option \<times> omniRuntime) io" where
  "omni_Close E o' = do {
     (err, s, _) \<leftarrow> closeState_close (o_closeState o')
       (do { err \<leftarrow> terminate_owned E (o_container o'); State_Monad.return (err, ()) }) ();
     State_Monad.return (err, o'\<lparr>o_closeState := s\<rparr>)
   }"

definition omni_captureImageProvenance :: "env \<Rightarrow> ctx \<Rightarrow> omniRuntime \<Rightarrow> omniRuntime io" where
  "omni_captureImageProvenance E c o' =
     (if o_container o' = None \<or> o_opts o' = None then State_Monad.return o'
      else do {
        p \<leftarrow> observeContainerImage E c (o_container o') (emulatorImage (the (o_opts o')));
        State_Monad.return (o'\<lparr>o_provenance := p\<rparr>)
      })"

definition omni_inheritedOptions :: "(string \<Rightarrow> string) \<Rightarrow> rng \<Rightarrow> omniRuntime \<Rightarrow> Option list \<Rightarrow> emulatorOptions result" where
  "omni_inheritedOptions genv r o' options =
     applyOmniOptionsWithBase genv r
       ((inheritedRuntimeOptions (the (o_opts o')))
         \<lparr>disableBackendGuardrails := disableBackendGuardrails (the (o_opts o'))\<rparr>) options"

text \<open>
  The customizers, applied in order.  While no customizer has changed the command, a change of
  the image recomputes it.
\<close>

definition omniCmd :: "string \<Rightarrow> string list" where
  "omniCmd img = [''start-single-server''] @ defaultOmniStartArgs img"

fun customizeOmni :: "env \<Rightarrow> bool \<Rightarrow> ContainerRequest \<Rightarrow> ContainerCustomizer list \<Rightarrow> ContainerRequest result" where
  "customizeOmni E automaticCmd req [] = Inr req"
| "customizeOmni E automaticCmd req (customizer # rest) =
     (case customize E customizer req of
        Inl e \<Rightarrow> Inl e
      | Inr req' \<Rightarrow>
          let automaticCmd = (if req_Cmd req' \<noteq> req_Cmd req then False else automaticCmd);
              req' = (if automaticCmd \<and> req_Image req' \<noteq> req_Image req
                      then req'\<lparr>req_Cmd := omniCmd (req_Image req')\<rparr> else req')
          in customizeOmni E automaticCmd req' rest)"

definition omniRequest :: "emulatorOptions \<Rightarrow> ContainerRequest" where
  "omniRequest opts =
     \<lparr>req_Image = emulatorImage opts, req_ExposedPorts = [omniGRPCPort], req_Cmd = omniCmd (emulatorImage opts),
      req_WaitingFor = ForAll [ForLog ''Spanner is ready'' omniStartupTimeout, ForExposedPort True omniStartupTimeout]
        omniStartupTimeout omniStartupTimeout,
      req_Started = True, req_Provider = ProviderDefault\<rparr>"

definition newOmni :: "env \<Rightarrow> ctx \<Rightarrow> emulatorOptions \<Rightarrow> (Container option \<times> error option) io" where
  "newOmni E c opts =
     (case customizeOmni E True (omniRequest opts) (containerCustomizers opts) of
        Inl e \<Rightarrow> State_Monad.return (None, Some e)
      | Inr req \<Rightarrow> run_container E (RunGenericContainer c req))"

definition startOmni :: "env \<Rightarrow> ctx \<Rightarrow> emulatorOptions \<Rightarrow> omniRuntime result io" where
  "startOmni E c opts = do {
     (container, err) \<leftarrow> newOmni E c opts;
     case err of
       Some e \<Rightarrow> do {
         err \<leftarrow> terminateContainerAfterStartupError E container err;
         State_Monad.return (Inl (the err))
       }
     | None \<Rightarrow> do {
         let call = PortEndpoint c (the container) omniGRPCPort;
         uri \<leftarrow> State (\<lambda>w. (string_at E w call, w));
         err \<leftarrow> invoke E call;
         case err of
           Some e \<Rightarrow> do {
             _ \<leftarrow> invoke E (TerminateContainer newCloseContext (the container));
             State_Monad.return (Inl e)
           }
         | None \<Rightarrow> do {
             o' \<leftarrow> omni_captureImageProvenance E c
               \<lparr>o_container = container, o_opts = Some opts, o_uri = uri,
                o_closeState = ensureCloseState None, o_provenance = None\<rparr>;
             State_Monad.return (Inr o')
           }
       }
   }"

definition wrapOmniBootstrapError :: "env \<Rightarrow> error \<Rightarrow> error" where
  "wrapOmniBootstrapError E err =
     (if status_Code E err = CodeDeadlineExceeded \<or> status_Code E err = Unavailable then
        Wrapf ''spanemuboost: bootstrap omni backend: %w; verify that the environment satisfies the Spanner Omni software requirements: https://docs.cloud.google.com/spanner-omni/system-requirements#software-requirements'' [] err
      else Wrapf ''spanemuboost: bootstrap omni backend: %w'' [] err)"

definition bootstrapOmni :: "env \<Rightarrow> ctx \<Rightarrow> omniRuntime \<Rightarrow> emulatorOptions \<Rightarrow> error option io" where
  "bootstrapOmni E c o' opts = bootstrapWithManagedClientConfig E c opts (omni_ClientOptions o')"

text \<open>What both Omni starts do when the bootstrap fails.\<close>

definition omni_bootstrap_failed :: "env \<Rightarrow> omniRuntime \<Rightarrow> error \<Rightarrow> error io" where
  "omni_bootstrap_failed E o' err = do {
     (closeErr, _) \<leftarrow> omni_Close E o';
     State_Monad.return (case closeErr of
       Some e \<Rightarrow> the (errors_Join [Some (wrapOmniBootstrapError E err), Some e])
     | None \<Rightarrow> wrapOmniBootstrapError E err)
   }"

definition runOmni :: "env \<Rightarrow> ctx \<Rightarrow> Option list \<Rightarrow> omniRuntime result io" where
  "runOmni E c options = do {
     applied \<leftarrow> with_process E (\<lambda>genv r. applyOmniOptions genv r options);
     case applied of
       Inl e \<Rightarrow> State_Monad.return (Inl e)
     | Inr opts \<Rightarrow> do {
         started \<leftarrow> startOmni E c opts;
         case started of
           Inl e \<Rightarrow> State_Monad.return (Inl e)
         | Inr o' \<Rightarrow> do {
             err \<leftarrow> bootstrapOmni E c o' opts;
             case err of
               Some e \<Rightarrow> do { e \<leftarrow> omni_bootstrap_failed E o' e; State_Monad.return (Inl e) }
             | None \<Rightarrow> State_Monad.return (Inr o')
           }
       }
   }"

subsection \<open>Attached runtimes\<close>

record AttachedRuntime =
  a_backend :: Backend
  a_opts :: "emulatorOptions option"
  a_uri :: string
  a_reportedProvenance :: "EndpointProvenance option"

definition finalizeAttachedOptions ::
    "(string \<Rightarrow> string) \<Rightarrow> rng \<Rightarrow> Endpoint \<Rightarrow> Option list \<Rightarrow> emulatorOptions result" where
  "finalizeAttachedOptions genv r endpoint options =
     (let base = zeroOptions\<lparr>projectID := en_ProjectID endpoint, instanceID := en_InstanceID endpoint,
        disableCreateInstance := True\<rparr>
      in if en_Backend endpoint = BackendOmni then applyOmniOptionsWithBase genv r base options
         else if en_Backend endpoint = BackendEmulator then applyOptionsWithBase genv r base options
         else Inl (Errorf ''unsupported backend %q'' [AStr (en_Backend endpoint)]))"

definition NewAttachedRuntime ::
    "(string \<Rightarrow> string) \<Rightarrow> rng \<Rightarrow> Endpoint \<Rightarrow> Option list \<Rightarrow> AttachedRuntime result" where
  "NewAttachedRuntime genv r endpoint options =
     (case Endpoint_validate endpoint of
        Some e \<Rightarrow> Inl e
      | None \<Rightarrow>
     (case finalizeAttachedOptions genv r endpoint options of
        Inl e \<Rightarrow> Inl e
      | Inr opts \<Rightarrow> Inr
          \<lparr>a_backend = en_Backend endpoint, a_opts = Some opts, a_uri = en_URI endpoint,
           a_reportedProvenance = cloneEndpointProvenance (en_Provenance endpoint)\<rparr>))"

definition NewAttachedRuntimeFromEnv :: "env \<Rightarrow> Option list \<Rightarrow> AttachedRuntime result io" where
  "NewAttachedRuntimeFromEnv E options = do {
     endpoint \<leftarrow> LoadEndpoint E;
     case endpoint of
       Inl e \<Rightarrow> State_Monad.return (Inl e)
     | Inr ep \<Rightarrow> with_process E (\<lambda>genv r. NewAttachedRuntime genv r ep options)
   }"

definition Attached_ClientOptions :: "AttachedRuntime option \<Rightarrow> ClientOption list" where
  "Attached_ClientOptions a =
     (case a of
        None \<Rightarrow> []
      | Some a \<Rightarrow>
          if a_backend a = BackendOmni then [WithEndpoint (a_uri a), WithoutAuthentication, WithInsecureCredentials]
          else [WithEndpoint (''passthrough:///'' @ a_uri a), WithInsecureCredentials, WithoutAuthentication,
                SkipDialSettingsValidation])"

definition Attached_URI :: "AttachedRuntime option \<Rightarrow> string" where
  "Attached_URI a = (case a of None \<Rightarrow> [] | Some a \<Rightarrow> a_uri a)"

text \<open>The accessors of the options are nil-safe: the empty string without options.\<close>

definition Attached_get :: "(emulatorOptions \<Rightarrow> string) \<Rightarrow> AttachedRuntime option \<Rightarrow> string" where
  "Attached_get f a =
     (case a of None \<Rightarrow> [] | Some a \<Rightarrow> (case a_opts a of None \<Rightarrow> [] | Some opts \<Rightarrow> f opts))"

definition Attached_ProjectID :: "AttachedRuntime option \<Rightarrow> string" where
  "Attached_ProjectID = Attached_get projectID"

definition Attached_InstanceID :: "AttachedRuntime option \<Rightarrow> string" where
  "Attached_InstanceID = Attached_get instanceID"

definition Attached_DatabaseID :: "AttachedRuntime option \<Rightarrow> string" where
  "Attached_DatabaseID = Attached_get databaseID"

definition Attached_ProjectPath :: "AttachedRuntime option \<Rightarrow> string" where
  "Attached_ProjectPath = Attached_get opts_ProjectPath"

definition Attached_InstancePath :: "AttachedRuntime option \<Rightarrow> string" where
  "Attached_InstancePath = Attached_get opts_InstancePath"

definition Attached_DatabasePath :: "AttachedRuntime option \<Rightarrow> string" where
  "Attached_DatabasePath = Attached_get opts_DatabasePath"

text \<open>Closing an attached runtime does nothing: it does not own the backend.\<close>

definition Attached_Close :: "AttachedRuntime \<Rightarrow> (error option \<times> AttachedRuntime) io" where
  "Attached_Close a = State_Monad.return (None, a)"

definition Attached_runtimePlatform :: "AttachedRuntime \<Rightarrow> string result io" where
  "Attached_runtimePlatform a = State_Monad.return (Inr ''attached'')"

definition Attached_imageProvenance :: "AttachedRuntime option \<Rightarrow> ImageProvenance result" where
  "Attached_imageProvenance a =
     (case Option.bind a a_reportedProvenance of
        None \<Rightarrow> Inr (zeroImageProvenance\<lparr>ip_Source := ImageProvenanceUnverified\<rparr>)
      | Some q \<Rightarrow> Inr (imageProvenanceFromEndpoint q))"

text \<open>Slices and byte slices are copied only when they are not empty, which leaves equal values.\<close>

definition preserveAttachedBootstrapOptions :: "emulatorOptions \<Rightarrow> emulatorOptions \<Rightarrow> emulatorOptions" where
  "preserveAttachedBootstrapOptions base source =
     (let base = (if \<not> disableCreateDatabase source then base\<lparr>disableCreateDatabase := False\<rparr> else base);
          base = base\<lparr>randomDatabaseID := randomDatabaseID source,
            randomDatabaseIDResolved := randomDatabaseIDResolved source,
            schemaTeardown := schemaTeardown source,
            disableBackendGuardrails := disableBackendGuardrails source\<rparr>;
          base = (if length (clientOptionsForClient source) > 0
            then base\<lparr>clientOptionsForClient := clientOptionsForClient source\<rparr> else base);
          base = (if length (setupDDLs source) > 0 then base\<lparr>setupDDLs := setupDDLs source\<rparr> else base);
          base = (if length (setupFileDescriptorSet source) > 0
            then base\<lparr>setupFileDescriptorSet := setupFileDescriptorSet source\<rparr> else base);
          base = (if length (setupDMLs source) > 0 then base\<lparr>setupDMLs := setupDMLs source\<rparr> else base)
      in base)"

definition Attached_inheritedOptions ::
    "(string \<Rightarrow> string) \<Rightarrow> rng \<Rightarrow> AttachedRuntime option \<Rightarrow> Option list \<Rightarrow> emulatorOptions result" where
  "Attached_inheritedOptions genv r a options =
     (case a of
        None \<Rightarrow> Inl (Errorf ''spanemuboost: attached runtime or options is nil'' [])
      | Some a \<Rightarrow>
     (case a_opts a of
        None \<Rightarrow> Inl (Errorf ''spanemuboost: attached runtime or options is nil'' [])
      | Some opts \<Rightarrow>
          let base = preserveAttachedBootstrapOptions (inheritedRuntimeOptions opts) opts
          in if length options = 0 then Inr base
             else if a_backend a = BackendOmni then applyOmniOptionsWithBase genv r base options
             else applyOptionsWithBase genv r base options))"

subsection \<open>What is inherited\<close>

text \<open>The base of an attached runtime in one update, for the proofs.\<close>

lemma preserve_eq:
  "preserveAttachedBootstrapOptions (inheritedRuntimeOptions opts) opts =
     (inheritedRuntimeOptions opts)\<lparr>disableCreateDatabase := disableCreateDatabase opts,
       randomDatabaseID := randomDatabaseID opts, randomDatabaseIDResolved := randomDatabaseIDResolved opts,
       schemaTeardown := schemaTeardown opts, disableBackendGuardrails := disableBackendGuardrails opts,
       clientOptionsForClient := clientOptionsForClient opts, setupDDLs := setupDDLs opts,
       setupFileDescriptorSet := setupFileDescriptorSet opts, setupDMLs := setupDMLs opts\<rparr>"
  by (simp add: preserveAttachedBootstrapOptions_def inheritedRuntimeOptions_def zeroOptions_def Let_def)

end
