(* ===== verification/Lazy_State.thy ===== *)
theory Lazy_State
  imports Close_State
begin

section \<open>Starting and closing lazily (lazy.go)\<close>

text \<open>
  \<open>lazyRuntimeState\<close> for any type of runtime, with the function that starts one and the \<open>Close\<close>
  of a started one as arguments.  A start that panics is an outcome of its own, as is the panic
  that \<open>get\<close> raises again.  A nil runtime, typed or not, is None.  The two methods are run one
  after the other here; \<open>Lazy_Concurrency\<close> interleaves their steps.
\<close>

datatype 'r outcome = Returned "'r option" "error option" | Panicked nat

record 'r lazyRuntimeState =
  lz_once :: bool
  lz_runtime :: "'r option"
  lz_err :: "error option"
  lz_panicked :: bool
  lz_panicValue :: nat
  lz_closeOnce :: bool
  lz_closeErr :: "error option"

definition zeroLazyState :: "'r lazyRuntimeState" where
  "zeroLazyState = \<lparr>lz_once = False, lz_runtime = None, lz_err = None, lz_panicked = False,
     lz_panicValue = 0, lz_closeOnce = False, lz_closeErr = None\<rparr>"

text \<open>The function given to \<open>once.Do\<close>: a panic is recorded before it goes on.\<close>

definition lazy_start :: "'r outcome io \<Rightarrow> 'r lazyRuntimeState \<Rightarrow> 'r lazyRuntimeState io" where
  "lazy_start start s = do {
     out \<leftarrow> start;
     State_Monad.return (case out of
       Returned r e \<Rightarrow> s\<lparr>lz_once := True, lz_runtime := r, lz_err := e\<rparr>
     | Panicked v \<Rightarrow> s\<lparr>lz_once := True, lz_panicked := True, lz_panicValue := v\<rparr>)
   }"

definition lazy_result :: "string \<Rightarrow> 'r lazyRuntimeState \<Rightarrow> 'r outcome" where
  "lazy_result missingMessage s =
     (if lz_panicked s then Panicked (lz_panicValue s)
      else if lz_runtime s = None \<and> lz_err s = None then Returned None (Some (New missingMessage))
      else if lz_runtime s = None then Returned None (lz_err s)
      else Returned (lz_runtime s) (lz_err s))"

definition lazy_get ::
    "'r outcome io \<Rightarrow> string \<Rightarrow> 'r lazyRuntimeState \<Rightarrow> ('r outcome \<times> 'r lazyRuntimeState) io" where
  "lazy_get start missingMessage s = do {
     s \<leftarrow> (if lz_once s then State_Monad.return s else lazy_start start s);
     State_Monad.return (lazy_result missingMessage s, s)
   }"

definition lazy_close ::
    "('r \<Rightarrow> (error option \<times> 'r) io) \<Rightarrow> 'r lazyRuntimeState \<Rightarrow> (error option \<times> 'r lazyRuntimeState) io" where
  "lazy_close close s = do {
     let s = s\<lparr>lz_once := True\<rparr>;
     s \<leftarrow> (if lz_closeOnce s then State_Monad.return s
           else case lz_runtime s of
             None \<Rightarrow> State_Monad.return (s\<lparr>lz_closeOnce := True\<rparr>)
           | Some r \<Rightarrow> do {
               (err, r) \<leftarrow> close r;
               State_Monad.return (s\<lparr>lz_closeOnce := True, lz_runtime := Some r, lz_closeErr := err\<rparr>)
             });
     State_Monad.return (lz_closeErr s, s)
   }"

subsection \<open>Get is stable\<close>

text \<open>After the first \<open>get\<close> or \<open>close\<close> nothing is started, and every \<open>get\<close> has the same result.\<close>

lemma lazy_get_once:
  "lz_once s \<Longrightarrow> lazy_get start m s = State_Monad.return (lazy_result m s, s)"
  by (simp add: lazy_get_def)

lemma lazy_get_sets_once: "lz_once (snd (result_of (lazy_get start m s) w))"
  by (cases "result_of start w") (auto simp: lazy_get_def lazy_start_def result_of_bind)

lemma lazy_get_result:
  "fst (result_of (lazy_get start m s) w) = lazy_result m (snd (result_of (lazy_get start m s) w))"
  by (simp add: lazy_get_def result_of_bind)

lemma lazy_get_again:
  "result_of (lazy_get start' m (snd (result_of (lazy_get start m s) w))) w' = result_of (lazy_get start m s) w"
  "events (lazy_get start' m (snd (result_of (lazy_get start m s) w))) w' = []"
  by (simp_all add: lazy_get_once lazy_get_sets_once lazy_get_result [symmetric])

lemma lazy_close_sets_once: "lz_once (snd (result_of (lazy_close close s) w))"
  by (auto simp: lazy_close_def result_of_bind Let_def split: option.splits prod.splits)

text \<open>A handle closed before its first use: never started, and a message instead.\<close>

lemma lazy_closed_unused:
  assumes "\<not> lz_once s" "lz_runtime s = None" "lz_err s = None" "\<not> lz_panicked s" "\<not> lz_closeOnce s" "lz_closeErr s = None"
  shows "run_state (lazy_close close s) w = ((None, s\<lparr>lz_once := True, lz_closeOnce := True\<rparr>), w)"
    and "lazy_get start m (s\<lparr>lz_once := True, lz_closeOnce := True\<rparr>) =
      State_Monad.return (Returned None (Some (New m)), s\<lparr>lz_once := True, lz_closeOnce := True\<rparr>)"
  using assms by (simp_all add: lazy_close_def lazy_get_def lazy_result_def Let_def)

text \<open>The lazy handle as a closer: the slot is closed when \<open>closeOnce\<close> has run.\<close>

definition lazy_slot :: "'r lazyRuntimeState \<Rightarrow> closeState option" where
  "lazy_slot s =
     (if lz_once s \<and> lz_closeOnce s then Some \<lparr>once_done = True, close_err = lz_closeErr s\<rparr> else None)"

lemma lazy_close_closed:
  assumes "closed_with (lazy_slot s) e"
  shows "lazy_close close s = State_Monad.return (e, s)"
proof -
  have s: "lz_once s" "lz_closeOnce s" "lz_closeErr s = e"
    using assms by (auto simp: closed_with_def lazy_slot_def split: if_splits)
  then show ?thesis by (cases s) (simp add: lazy_close_def Let_def)
qed

lemma lazy_close_closes:
  "closed_with (lazy_slot (snd (result_of (lazy_close close s) w))) (fst (result_of (lazy_close close s) w))"
  by (auto simp: lazy_close_def result_of_bind Let_def closed_with_def lazy_slot_def split: option.splits prod.splits)

lemma appends_lazy_close [appends_intros]: "(\<And>r. appends (close r)) \<Longrightarrow> appends (lazy_close close s)"
  unfolding lazy_close_def Let_def by (intro appends_intros)

lemma appends_lazy_get [appends_intros]: "appends start \<Longrightarrow> appends (lazy_get start m s)"
  unfolding lazy_get_def lazy_start_def by (intro appends_intros)

lemma lazy_closer:
  assumes "\<And>E r. appends (close E r)"
  shows "closer (\<lambda>E. lazy_close (close E)) lazy_slot"
  by unfold_locales (auto intro: lazy_close_closes lazy_close_closed appends_lazy_close assms)

end
