(* ===== verification/Handles.thy ===== *)
theory Handles
  imports Runtimes Lazy_State
begin

section \<open>Handles, environments and the public entry points (runtime.go, lazy.go, emulator.go, spanemuboost.go)\<close>

subsection \<open>Runtimes as one type\<close>

text \<open>The three implementations of \<open>runtimeInstance\<close>; a value of this type is not nil.\<close>

datatype runtimeInstance = RI_Emulator Emulator | RI_Omni omniRuntime | RI_Attached AttachedRuntime

fun rt_URI :: "runtimeInstance \<Rightarrow> string" where
  "rt_URI (RI_Emulator e) = Emulator_URI e"
| "rt_URI (RI_Omni o') = omni_URI o'"
| "rt_URI (RI_Attached a) = Attached_URI (Some a)"

fun rt_ClientOptions :: "runtimeInstance \<Rightarrow> ClientOption list" where
  "rt_ClientOptions (RI_Emulator e) = Emulator_ClientOptions e"
| "rt_ClientOptions (RI_Omni o') = omni_ClientOptions o'"
| "rt_ClientOptions (RI_Attached a) = Attached_ClientOptions (Some a)"

fun rt_ProjectID :: "runtimeInstance \<Rightarrow> string" where
  "rt_ProjectID (RI_Emulator e) = Emulator_ProjectID e"
| "rt_ProjectID (RI_Omni o') = omni_ProjectID o'"
| "rt_ProjectID (RI_Attached a) = Attached_ProjectID (Some a)"

fun rt_InstanceID :: "runtimeInstance \<Rightarrow> string" where
  "rt_InstanceID (RI_Emulator e) = Emulator_InstanceID e"
| "rt_InstanceID (RI_Omni o') = omni_InstanceID o'"
| "rt_InstanceID (RI_Attached a) = Attached_InstanceID (Some a)"

fun rt_DatabaseID :: "runtimeInstance \<Rightarrow> string" where
  "rt_DatabaseID (RI_Emulator e) = Emulator_DatabaseID e"
| "rt_DatabaseID (RI_Omni o') = omni_DatabaseID o'"
| "rt_DatabaseID (RI_Attached a) = Attached_DatabaseID (Some a)"

fun rt_inheritedOptions ::
    "(string \<Rightarrow> string) \<Rightarrow> rng \<Rightarrow> runtimeInstance \<Rightarrow> Option list \<Rightarrow> emulatorOptions result" where
  "rt_inheritedOptions genv r (RI_Emulator e) options = Emulator_inheritedOptions genv r e options"
| "rt_inheritedOptions genv r (RI_Omni o') options = omni_inheritedOptions genv r o' options"
| "rt_inheritedOptions genv r (RI_Attached a) options = Attached_inheritedOptions genv r (Some a) options"

fun rt_Close :: "env \<Rightarrow> runtimeInstance \<Rightarrow> (error option \<times> runtimeInstance) io" where
  "rt_Close E (RI_Emulator e) = do { (err, e) \<leftarrow> Emulator_Close E e; State_Monad.return (err, RI_Emulator e) }"
| "rt_Close E (RI_Omni o') = do { (err, o') \<leftarrow> omni_Close E o'; State_Monad.return (err, RI_Omni o') }"
| "rt_Close E (RI_Attached a) = do { (err, a) \<leftarrow> Attached_Close a; State_Monad.return (err, RI_Attached a) }"

fun rt_ProjectPath :: "runtimeInstance \<Rightarrow> string" where
  "rt_ProjectPath (RI_Emulator e) = Emulator_ProjectPath e"
| "rt_ProjectPath (RI_Omni o') = omni_ProjectPath o'"
| "rt_ProjectPath (RI_Attached a) = Attached_ProjectPath (Some a)"

fun rt_InstancePath :: "runtimeInstance \<Rightarrow> string" where
  "rt_InstancePath (RI_Emulator e) = Emulator_InstancePath e"
| "rt_InstancePath (RI_Omni o') = omni_InstancePath o'"
| "rt_InstancePath (RI_Attached a) = Attached_InstancePath (Some a)"

fun rt_DatabasePath :: "runtimeInstance \<Rightarrow> string" where
  "rt_DatabasePath (RI_Emulator e) = Emulator_DatabasePath e"
| "rt_DatabasePath (RI_Omni o') = omni_DatabasePath o'"
| "rt_DatabasePath (RI_Attached a) = Attached_DatabasePath (Some a)"

fun rt_runtimePlatform :: "env \<Rightarrow> ctx \<Rightarrow> runtimeInstance \<Rightarrow> string result io" where
  "rt_runtimePlatform E c (RI_Emulator e) = Emulator_runtimePlatform E c e"
| "rt_runtimePlatform E c (RI_Omni o') = omni_runtimePlatform E c o'"
| "rt_runtimePlatform E c (RI_Attached a) = Attached_runtimePlatform a"

fun rt_imageProvenance :: "runtimeInstance \<Rightarrow> ImageProvenance result" where
  "rt_imageProvenance (RI_Emulator e) = Emulator_imageProvenance e"
| "rt_imageProvenance (RI_Omni o') = omni_imageProvenance o'"
| "rt_imageProvenance (RI_Attached a) = Attached_imageProvenance (Some a)"

fun endpointProvenanceFromRuntime :: "runtimeInstance \<Rightarrow> EndpointProvenance option" where
  "endpointProvenanceFromRuntime (RI_Emulator e) = endpointSnapshot (e_provenance e)"
| "endpointProvenanceFromRuntime (RI_Omni o') = endpointSnapshot (o_provenance o')"
| "endpointProvenanceFromRuntime (RI_Attached a) = None"

fun backendForRuntime :: "runtimeInstance \<Rightarrow> Backend" where
  "backendForRuntime (RI_Emulator e) = BackendEmulator"
| "backendForRuntime (RI_Omni o') = BackendOmni"
| "backendForRuntime (RI_Attached a) = a_backend a"

definition EndpointFromRuntime :: "runtimeInstance option \<Rightarrow> Endpoint result" where
  "EndpointFromRuntime runtime =
     (case runtime of
        None \<Rightarrow> Inl (New ''spanemuboost: runtime is nil'')
      | Some r \<Rightarrow>
          let uri = trimSpace (rt_URI r)
          in if uri = [] then Inl (New ''spanemuboost: runtime URI is empty'')
             else validated ((plainEndpoint (backendForRuntime r) uri (rt_ProjectID r) (rt_InstanceID r))
                    \<lparr>en_Provenance := endpointProvenanceFromRuntime r\<rparr>))"

subsection \<open>Starting a backend\<close>

definition run_as :: "('a \<Rightarrow> runtimeInstance) \<Rightarrow> 'a result io \<Rightarrow> runtimeInstance result io" where
  "run_as f m = do {
     x \<leftarrow> m;
     State_Monad.return (case x of Inl e \<Rightarrow> Inl e | Inr y \<Rightarrow> Inr (f y))
   }"

definition Run :: "env \<Rightarrow> ctx \<Rightarrow> Backend \<Rightarrow> Option list \<Rightarrow> runtimeInstance result io" where
  "Run E c backend options =
     (if backend = BackendEmulator then run_as RI_Emulator (RunEmulator E c options)
      else if backend = BackendOmni then run_as RI_Omni (runOmni E c options)
      else State_Monad.return (Inl (Errorf ''unsupported backend %q'' [AStr backend])))"

subsection \<open>Lazy handles\<close>

record LazyRuntime =
  lr_state :: "runtimeInstance lazyRuntimeState"
  lr_backend :: Backend
  lr_opts :: "Option list"
  lr_attachedEndpoint :: "Endpoint option"

record LazyEmulator =
  le_state :: "runtimeInstance lazyRuntimeState"
  le_opts :: "Option list"

definition NewLazyRuntime :: "Backend \<Rightarrow> Option list \<Rightarrow> LazyRuntime" where
  "NewLazyRuntime backend options =
     \<lparr>lr_state = zeroLazyState, lr_backend = backend, lr_opts = options, lr_attachedEndpoint = None\<rparr>"

definition NewLazyEmulator :: "Option list \<Rightarrow> LazyEmulator" where
  "NewLazyEmulator options = \<lparr>le_state = zeroLazyState, le_opts = options\<rparr>"

definition NewLazyRuntimeFromEnvOrStart :: "env \<Rightarrow> Backend \<Rightarrow> Option list \<Rightarrow> LazyRuntime result io" where
  "NewLazyRuntimeFromEnvOrStart E backend options =
     (let lr = NewLazyRuntime backend options
      in if \<not> EndpointConfiguredForBackend (getenv E) backend then State_Monad.return (Inr lr)
         else do {
           endpoint \<leftarrow> LoadEndpointForBackend E backend;
           State_Monad.return (case endpoint of
             Inl e \<Rightarrow> Inl e
           | Inr ep \<Rightarrow> Inr (lr\<lparr>lr_attachedEndpoint := Some ep\<rparr>))
         })"

definition returned :: "'r result \<Rightarrow> 'r outcome" where
  "returned x = (case x of Inl e \<Rightarrow> Returned None (Some e) | Inr r \<Rightarrow> Returned (Some r) None)"

definition LazyRuntime_start :: "env \<Rightarrow> ctx \<Rightarrow> LazyRuntime \<Rightarrow> runtimeInstance outcome io" where
  "LazyRuntime_start E c lr =
     (case lr_attachedEndpoint lr of
        Some ep \<Rightarrow> do {
          a \<leftarrow> with_process E (\<lambda>genv r. NewAttachedRuntime genv r ep (lr_opts lr));
          State_Monad.return (returned (case a of Inl e \<Rightarrow> Inl e | Inr x \<Rightarrow> Inr (RI_Attached x)))
        }
      | None \<Rightarrow> do {
          x \<leftarrow> Run E c (lr_backend lr) (lr_opts lr);
          State_Monad.return (returned x)
        })"

definition LazyRuntime_get :: "env \<Rightarrow> ctx \<Rightarrow> LazyRuntime \<Rightarrow> (runtimeInstance outcome \<times> LazyRuntime) io" where
  "LazyRuntime_get E c lr = do {
     (out, s) \<leftarrow> lazy_get (LazyRuntime_start E c lr)
       ''spanemuboost: lazy runtime used after Close was called before initialization'' (lr_state lr);
     State_Monad.return (out, lr\<lparr>lr_state := s\<rparr>)
   }"

definition LazyRuntime_Close :: "env \<Rightarrow> LazyRuntime \<Rightarrow> (error option \<times> LazyRuntime) io" where
  "LazyRuntime_Close E lr = do {
     (err, s) \<leftarrow> lazy_close (rt_Close E) (lr_state lr);
     State_Monad.return (err, lr\<lparr>lr_state := s\<rparr>)
   }"

definition LazyEmulator_start :: "env \<Rightarrow> ctx \<Rightarrow> LazyEmulator \<Rightarrow> runtimeInstance outcome io" where
  "LazyEmulator_start E c le = do {
     x \<leftarrow> run_as RI_Emulator (RunEmulator E c (le_opts le));
     State_Monad.return (returned x)
   }"

definition LazyEmulator_get :: "env \<Rightarrow> ctx \<Rightarrow> LazyEmulator \<Rightarrow> (runtimeInstance outcome \<times> LazyEmulator) io" where
  "LazyEmulator_get E c le = do {
     (out, s) \<leftarrow> lazy_get (LazyEmulator_start E c le)
       ''spanemuboost: lazy emulator used after Close was called before initialization'' (le_state le);
     State_Monad.return (out, le\<lparr>le_state := s\<rparr>)
   }"

definition LazyEmulator_Close :: "env \<Rightarrow> LazyEmulator \<Rightarrow> (error option \<times> LazyEmulator) io" where
  "LazyEmulator_Close E le = do {
     (err, s) \<leftarrow> lazy_close (rt_Close E) (le_state le);
     State_Monad.return (err, le\<lparr>le_state := s\<rparr>)
   }"

text \<open>\<open>LazyEmulator.Get\<close> with its check of the dynamic type.\<close>

definition LazyEmulator_Get :: "env \<Rightarrow> ctx \<Rightarrow> LazyEmulator \<Rightarrow> (Emulator outcome \<times> LazyEmulator) io" where
  "LazyEmulator_Get E c le = do {
     (out, le) \<leftarrow> LazyEmulator_get E c le;
     State_Monad.return (case out of
         Panicked v \<Rightarrow> Panicked v
       | Returned r (Some e) \<Rightarrow> Returned None (Some e)
       | Returned (Some (RI_Emulator emu)) None \<Rightarrow> Returned (Some emu) None
       | Returned _ None \<Rightarrow>
           Returned None (Some (New ''spanemuboost: lazy emulator returned unexpected runtime type'')), le)
   }"

definition LazyRuntime_Get :: "env \<Rightarrow> ctx \<Rightarrow> LazyRuntime \<Rightarrow> (runtimeInstance outcome \<times> LazyRuntime) io" where
  "LazyRuntime_Get E c lr = do {
     (out, lr) \<leftarrow> LazyRuntime_get E c lr;
     State_Monad.return (case out of
         Panicked v \<Rightarrow> Panicked v
       | Returned r (Some e) \<Rightarrow> Returned None (Some e)
       | Returned r None \<Rightarrow> Returned r None, lr)
   }"

subsection \<open>Resolving a handle\<close>

text \<open>
  The dynamic types that \<open>resolveRuntime\<close> distinguishes; a typed nil pointer is None.  Other
  types are those that implement \<open>Runtime\<close>, nil or not, and those that only are handles; they
  carry the name of the type.
\<close>

datatype RuntimeHandle =
    NilHandle
  | H_Emulator "Emulator option"
  | H_LazyRuntime "LazyRuntime option"
  | H_LazyEmulator "LazyEmulator option"
  | H_Attached "AttachedRuntime option"
  | H_Omni "omniRuntime option"
  | H_OtherRuntime bool string
  | H_Other string

definition unsupportedRuntime :: "string \<Rightarrow> error" where
  "unsupportedRuntime ty =
     Errorf ''spanemuboost: unsupported runtime type %T; use *Emulator, *LazyRuntime, *LazyEmulator, or a Runtime returned by Run or Setup''
       [AStr ty]"

fun resolveRuntime :: "env \<Rightarrow> ctx \<Rightarrow> RuntimeHandle \<Rightarrow> (runtimeInstance outcome \<times> RuntimeHandle) io" where
  "resolveRuntime E c NilHandle = State_Monad.return
     (Returned None (Some (New ''spanemuboost: runtime is nil; use *Emulator, *LazyRuntime, *LazyEmulator, or a Runtime returned by Run or Setup'')), NilHandle)"
| "resolveRuntime E c (H_Emulator None) = State_Monad.return
     (Returned None (Some (New ''spanemuboost: runtime is a nil *Emulator'')), H_Emulator None)"
| "resolveRuntime E c (H_Emulator (Some e)) = State_Monad.return
     (Returned (Some (RI_Emulator e)) None, H_Emulator (Some e))"
| "resolveRuntime E c (H_LazyRuntime None) = State_Monad.return
     (Returned None (Some (New ''spanemuboost: runtime is a nil *LazyRuntime'')), H_LazyRuntime None)"
| "resolveRuntime E c (H_LazyRuntime (Some lr)) = do {
     (out, lr) \<leftarrow> LazyRuntime_get E c lr;
     State_Monad.return (out, H_LazyRuntime (Some lr))
   }"
| "resolveRuntime E c (H_LazyEmulator None) = State_Monad.return
     (Returned None (Some (New ''spanemuboost: runtime is a nil *LazyEmulator'')), H_LazyEmulator None)"
| "resolveRuntime E c (H_LazyEmulator (Some le)) = do {
     (out, le) \<leftarrow> LazyEmulator_get E c le;
     State_Monad.return (out, H_LazyEmulator (Some le))
   }"
| "resolveRuntime E c (H_Attached None) = State_Monad.return
     (Returned None (Some (New ''spanemuboost: runtime is a nil *AttachedRuntime'')), H_Attached None)"
| "resolveRuntime E c (H_Attached (Some a)) = State_Monad.return
     (Returned (Some (RI_Attached a)) None, H_Attached (Some a))"
| "resolveRuntime E c (H_Omni None) = State_Monad.return
     (Returned None (Some (Errorf ''spanemuboost: runtime is a nil %T'' [AStr ''*spanemuboost.omniRuntime''])), H_Omni None)"
| "resolveRuntime E c (H_Omni (Some o')) = State_Monad.return
     (Returned (Some (RI_Omni o')) None, H_Omni (Some o'))"
| "resolveRuntime E c (H_OtherRuntime isNil ty) = State_Monad.return
     (Returned None (Some (if isNil then Errorf ''spanemuboost: runtime is a nil %T'' [AStr ty]
        else unsupportedRuntime ty)), H_OtherRuntime isNil ty)"
| "resolveRuntime E c (H_Other ty) = State_Monad.return
     (Returned None (Some (unsupportedRuntime ty)), H_Other ty)"

end
