(* ===== verification/Entry_Points.thy ===== *)
theory Entry_Points
  imports Handles
begin

section \<open>Clients and environments (spanemuboost.go, emulator.go, omni.go, runtime.go)\<close>

text \<open>
  The functions that start a runtime with clients or open clients against one, the two
  environments that own both, and the deprecated entry points.
\<close>

subsection \<open>OpenClients\<close>

definition OpenClients :: "env \<Rightarrow> ctx \<Rightarrow> RuntimeHandle \<Rightarrow> Option list \<Rightarrow> (Clients outcome \<times> RuntimeHandle) io" where
  "OpenClients E c runtime options = do {
     (out, runtime) \<leftarrow> resolveRuntime E c runtime;
     case out of
       Panicked v \<Rightarrow> State_Monad.return (Panicked v, runtime)
     | Returned r (Some e) \<Rightarrow> State_Monad.return (Returned None (Some e), runtime)
     | Returned r None \<Rightarrow> do {
         applied \<leftarrow> with_process E (\<lambda>genv rnd. rt_inheritedOptions genv rnd (the r) options);
         case applied of
           Inl e \<Rightarrow> State_Monad.return (Returned None (Some e), runtime)
         | Inr opts \<Rightarrow> do {
             clients \<leftarrow> bootstrapAndCreateClientsWithOptions E c (rt_URI (the r)) opts (rt_ClientOptions (the r));
             State_Monad.return (returned clients, runtime)
           }
       }
   }"

definition RuntimePlatform :: "env \<Rightarrow> ctx \<Rightarrow> RuntimeHandle \<Rightarrow> (string outcome \<times> RuntimeHandle) io" where
  "RuntimePlatform E c runtime = do {
     (out, runtime) \<leftarrow> resolveRuntime E c runtime;
     case out of
       Panicked v \<Rightarrow> State_Monad.return (Panicked v, runtime)
     | Returned r (Some e) \<Rightarrow> State_Monad.return (Returned None (Some e), runtime)
     | Returned r None \<Rightarrow> do {
         p \<leftarrow> rt_runtimePlatform E c (the r);
         State_Monad.return (returned p, runtime)
       }
   }"

definition RuntimeImageProvenance :: "env \<Rightarrow> ctx \<Rightarrow> RuntimeHandle \<Rightarrow> (ImageProvenance outcome \<times> RuntimeHandle) io" where
  "RuntimeImageProvenance E c runtime = do {
     (out, runtime) \<leftarrow> resolveRuntime E c runtime;
     State_Monad.return (case out of
       Panicked v \<Rightarrow> Panicked v
     | Returned r (Some e) \<Rightarrow> Returned None (Some e)
     | Returned r None \<Rightarrow> returned (rt_imageProvenance (the r)), runtime)
   }"

subsection \<open>Env and RuntimeEnv\<close>

text \<open>Clients first, then the runtime; both are closed whatever the first returns.\<close>

definition close_both ::
    "env \<Rightarrow> (env \<Rightarrow> 'r \<Rightarrow> (error option \<times> 'r) io) \<Rightarrow> Clients option \<Rightarrow> 'r option
      \<Rightarrow> (error option \<times> Clients option \<times> 'r option) io" where
  "close_both E close_runtime clients runtime = do {
     (e1, clients) \<leftarrow> Clients_Close_ptr E clients;
     (e2, runtime) \<leftarrow> (case runtime of
        None \<Rightarrow> State_Monad.return (None, None)
      | Some r \<Rightarrow> do { (e, r) \<leftarrow> close_runtime E r; State_Monad.return (e, Some r) });
     State_Monad.return (errors_Join [e1, e2], clients, runtime)
   }"

record Env =
  env_Clients :: "Clients option"
  env_emulator :: "Emulator option"
  env_closeState :: "closeState option"

definition Env_Emulator :: "Env \<Rightarrow> Emulator option" where
  "Env_Emulator v = env_emulator v"

definition Env_Close :: "env \<Rightarrow> Env \<Rightarrow> (error option \<times> Env) io" where
  "Env_Close E v = do {
     (e, s, clients, emulator) \<leftarrow> close_slot (env_closeState v)
       (close_both E Emulator_Close (env_Clients v) (env_emulator v)) (env_Clients v, env_emulator v);
     State_Monad.return (e, v\<lparr>env_closeState := s, env_Clients := clients, env_emulator := emulator\<rparr>)
   }"

record RuntimeEnv =
  renv_Clients :: "Clients option"
  renv_runtime :: "runtimeInstance option"
  renv_closeState :: "closeState option"

definition RuntimeEnv_Runtime :: "RuntimeEnv \<Rightarrow> runtimeInstance option" where
  "RuntimeEnv_Runtime v = renv_runtime v"

definition RuntimeEnv_Close :: "env \<Rightarrow> RuntimeEnv \<Rightarrow> (error option \<times> RuntimeEnv) io" where
  "RuntimeEnv_Close E v = do {
     (e, s, clients, runtime) \<leftarrow> close_slot (renv_closeState v)
       (close_both E rt_Close (renv_Clients v) (renv_runtime v)) (renv_Clients v, renv_runtime v);
     State_Monad.return (e, v\<lparr>renv_closeState := s, renv_Clients := clients, renv_runtime := runtime\<rparr>)
   }"

subsection \<open>Starting with clients\<close>

definition bootstrapAndCreateClients :: "env \<Rightarrow> ctx \<Rightarrow> Emulator \<Rightarrow> emulatorOptions \<Rightarrow> Clients result io" where
  "bootstrapAndCreateClients E c emu opts =
     bootstrapAndCreateClientsWithOptions E c (Emulator_URI emu) opts (Emulator_ClientOptions emu)"

definition RunEmulatorWithClients :: "env \<Rightarrow> ctx \<Rightarrow> Option list \<Rightarrow> Env result io" where
  "RunEmulatorWithClients E c options = do {
     applied \<leftarrow> with_process E (\<lambda>genv r. applyOptions genv r options);
     case applied of
       Inl e \<Rightarrow> State_Monad.return (Inl e)
     | Inr opts \<Rightarrow> do {
         started \<leftarrow> newEmulator E c opts;
         case started of
           Inl e \<Rightarrow> State_Monad.return (Inl e)
         | Inr container \<Rightarrow> do {
             emu \<leftarrow> Emulator_captureImageProvenance E c
               \<lparr>e_container = Some container, e_opts = Some opts, e_closeState = None, e_provenance = None\<rparr>;
             clients \<leftarrow> bootstrapAndCreateClients E c emu opts;
             case clients of
               Inl e \<Rightarrow> do { _ \<leftarrow> Emulator_Close E emu; State_Monad.return (Inl e) }
             | Inr cl \<Rightarrow> State_Monad.return (Inr
                 \<lparr>env_Clients = Some (disableSchemaTeardownUnlessForced opts cl), env_emulator = Some emu,
                  env_closeState = None\<rparr>)
           }
       }
   }"

definition runOmniWithClients :: "env \<Rightarrow> ctx \<Rightarrow> Option list \<Rightarrow> RuntimeEnv result io" where
  "runOmniWithClients E c options = do {
     applied \<leftarrow> with_process E (\<lambda>genv r. applyOmniOptions genv r options);
     case applied of
       Inl e \<Rightarrow> State_Monad.return (Inl e)
     | Inr opts \<Rightarrow> do {
         started \<leftarrow> startOmni E c opts;
         case started of
           Inl e \<Rightarrow> State_Monad.return (Inl e)
         | Inr o' \<Rightarrow> do {
             clients \<leftarrow> bootstrapAndCreateClientsWithOptions E c (omni_URI o') opts (omni_ClientOptions o');
             case clients of
               Inl e \<Rightarrow> do { e \<leftarrow> omni_bootstrap_failed E o' e; State_Monad.return (Inl e) }
             | Inr cl \<Rightarrow> State_Monad.return (Inr
                 \<lparr>renv_Clients = Some (disableSchemaTeardownUnlessForced opts cl), renv_runtime = Some (RI_Omni o'),
                  renv_closeState = None\<rparr>)
           }
       }
   }"

definition RunWithClients :: "env \<Rightarrow> ctx \<Rightarrow> Backend \<Rightarrow> Option list \<Rightarrow> RuntimeEnv result io" where
  "RunWithClients E c backend options =
     (if backend = BackendEmulator then do {
        x \<leftarrow> RunEmulatorWithClients E c options;
        State_Monad.return (case x of
          Inl e \<Rightarrow> Inl e
        | Inr v \<Rightarrow> Inr \<lparr>renv_Clients = env_Clients v, renv_runtime = map_option RI_Emulator (Env_Emulator v),
                        renv_closeState = None\<rparr>)
      }
      else if backend = BackendOmni then runOmniWithClients E c options
      else State_Monad.return (Inl (Errorf ''unsupported backend %q'' [AStr backend])))"

subsection \<open>Deprecated entry points\<close>

definition NewEmulator :: "env \<Rightarrow> ctx \<Rightarrow> Option list \<Rightarrow> Container result io" where
  "NewEmulator E c options = do {
     applied \<leftarrow> with_process E (\<lambda>genv r. applyOptions genv r options);
     case applied of
       Inl e \<Rightarrow> State_Monad.return (Inl e)
     | Inr opts \<Rightarrow> do {
         started \<leftarrow> newEmulator E c opts;
         case started of
           Inl e \<Rightarrow> State_Monad.return (Inl e)
         | Inr container \<Rightarrow> do {
             err \<leftarrow> bootstrap E c opts (defaultClientOpts container);
             case err of
               Some e \<Rightarrow> do { _ \<leftarrow> emulatorTeardown E container; State_Monad.return (Inl e) }
             | None \<Rightarrow> State_Monad.return (Inr container)
           }
       }
   }"

definition NewEmulatorWithClients :: "env \<Rightarrow> ctx \<Rightarrow> Option list \<Rightarrow> (Container \<times> Clients) result io" where
  "NewEmulatorWithClients E c options = do {
     applied \<leftarrow> with_process E (\<lambda>genv r. applyOptions genv r options);
     case applied of
       Inl e \<Rightarrow> State_Monad.return (Inl e)
     | Inr opts \<Rightarrow> do {
         started \<leftarrow> newEmulator E c opts;
         case started of
           Inl e \<Rightarrow> State_Monad.return (Inl e)
         | Inr container \<Rightarrow> do {
             clients \<leftarrow> bootstrapAndCreateClientsWithOptions E c (container_URI container) opts
               (defaultClientOpts container);
             case clients of
               Inl e \<Rightarrow> do { _ \<leftarrow> emulatorTeardown E container; State_Monad.return (Inl e) }
             | Inr cl \<Rightarrow> State_Monad.return (Inr (container, disableSchemaTeardownUnlessForced opts cl))
           }
       }
   }"

text \<open>The teardown function that it returns.\<close>

definition NewEmulatorWithClients_teardown :: "env \<Rightarrow> Container \<Rightarrow> Clients \<Rightarrow> Clients io" where
  "NewEmulatorWithClients_teardown E container clients = do {
     (_, clients) \<leftarrow> Clients_Close E clients;
     _ \<leftarrow> emulatorTeardown E container;
     State_Monad.return clients
   }"

definition NewClients :: "env \<Rightarrow> ctx \<Rightarrow> Container \<Rightarrow> Option list \<Rightarrow> Clients result io" where
  "NewClients E c emulator options = do {
     applied \<leftarrow> with_process E (\<lambda>genv r. applyOptions genv r options);
     case applied of
       Inl e \<Rightarrow> State_Monad.return (Inl e)
     | Inr opts \<Rightarrow>
         bootstrapAndCreateClientsWithOptions E c (container_URI emulator) opts (defaultClientOpts emulator)
   }"

subsection \<open>Nil receivers\<close>

definition Emulator_Close_ptr :: "env \<Rightarrow> Emulator option \<Rightarrow> (error option \<times> Emulator option) io" where
  "Emulator_Close_ptr E = close_ptr (Emulator_Close E)"

definition omni_Close_ptr :: "env \<Rightarrow> omniRuntime option \<Rightarrow> (error option \<times> omniRuntime option) io" where
  "omni_Close_ptr E = close_ptr (omni_Close E)"

definition Env_Close_ptr :: "env \<Rightarrow> Env option \<Rightarrow> (error option \<times> Env option) io" where
  "Env_Close_ptr E = close_ptr (Env_Close E)"

definition RuntimeEnv_Close_ptr :: "env \<Rightarrow> RuntimeEnv option \<Rightarrow> (error option \<times> RuntimeEnv option) io" where
  "RuntimeEnv_Close_ptr E = close_ptr (RuntimeEnv_Close E)"

definition LazyRuntime_Close_ptr :: "env \<Rightarrow> LazyRuntime option \<Rightarrow> (error option \<times> LazyRuntime option) io" where
  "LazyRuntime_Close_ptr E = close_ptr (LazyRuntime_Close E)"

definition LazyEmulator_Close_ptr :: "env \<Rightarrow> LazyEmulator option \<Rightarrow> (error option \<times> LazyEmulator option) io" where
  "LazyEmulator_Close_ptr E = close_ptr (LazyEmulator_Close E)"

lemmas close_ptr_defs = Clients_Close_ptr_def Emulator_Close_ptr_def omni_Close_ptr_def Env_Close_ptr_def
  RuntimeEnv_Close_ptr_def LazyRuntime_Close_ptr_def LazyEmulator_Close_ptr_def

subsection \<open>Every Close method is a closer\<close>

lemma appends_terminate_owned [appends_intros]: "appends (terminate_owned E ct)"
  unfolding terminate_owned_def by (intro appends_intros)

lemma appends_Emulator_Close [appends_intros]: "appends (Emulator_Close E e)"
  unfolding Emulator_Close_def by (intro appends_intros)

lemma appends_omni_Close [appends_intros]: "appends (omni_Close E o')"
  unfolding omni_Close_def closeState_close_def by (intro appends_intros)

lemma appends_rt_Close [appends_intros]: "appends (rt_Close E r)"
  by (cases r) (auto simp: Attached_Close_def intro!: appends_intros)

lemma appends_close_both [appends_intros]: "(\<And>r. appends (cl E r)) \<Longrightarrow> appends (close_both E cl c r)"
  unfolding close_both_def by (intro appends_intros)

lemma appends_env_closes [appends_intros]: "appends (Env_Close E v)" "appends (RuntimeEnv_Close E w)"
  unfolding Env_Close_def RuntimeEnv_Close_def by (intro appends_intros)+

text \<open>A method of the shape \<open>ensureCloseState(&slot).close(body)\<close> is a closer.\<close>

lemma close_slot_closer:
  assumes "\<And>E x. close E x = do { (e, s, n) \<leftarrow> close_slot (slot x) (body E x) (nested x); State_Monad.return (e, upd x s n) }"
    and "\<And>E x. appends (body E x)"
    and "\<And>x s n. slot (upd x s n) = s" and "\<And>x. upd x (slot x) (nested x) = x"
  shows "pointer_closer close slot"
proof
  fix E x w e
  have r: "result_of (close E x) w = (let (e, s, n) = result_of (close_slot (slot x) (body E x) (nested x)) w in (e, upd x s n))"
    by (simp add: assms(1) result_of_bind split_beta)
  show "closed_with (slot (snd (result_of (close E x) w))) (fst (result_of (close E x) w))"
    using close_slot_closes [of "slot x" "body E x" "nested x" w]
    by (simp add: r split_beta assms(3))
  show "close E x = State_Monad.return (e, x)" if "closed_with (slot x) e"
    by (simp add: assms(1,4) close_slot_closed [OF that])
  show "appends (close E x)"
    unfolding assms(1) by (intro appends_intros assms(2))
qed

interpretation emulator: pointer_closer Emulator_Close e_closeState
  by (rule close_slot_closer [where nested = "\<lambda>_. ()" and upd = "\<lambda>x s _. x\<lparr>e_closeState := s\<rparr>"
        and body = "\<lambda>E e. do { err \<leftarrow> terminate_owned E (e_container e); State_Monad.return (err, ()) }"])
    (auto simp: Emulator_Close_def intro!: appends_intros)

interpretation env: pointer_closer Env_Close env_closeState
  by (rule close_slot_closer [where nested = "\<lambda>v. (env_Clients v, env_emulator v)"
        and upd = "\<lambda>v s n. v\<lparr>env_closeState := s, env_Clients := fst n, env_emulator := snd n\<rparr>"
        and body = "\<lambda>E v. close_both E Emulator_Close (env_Clients v) (env_emulator v)"])
    (simp only: Env_Close_def case_prod_beta', auto intro!: appends_intros)

interpretation runtime_env: pointer_closer RuntimeEnv_Close renv_closeState
  by (rule close_slot_closer [where nested = "\<lambda>v. (renv_Clients v, renv_runtime v)"
        and upd = "\<lambda>v s n. v\<lparr>renv_closeState := s, renv_Clients := fst n, renv_runtime := snd n\<rparr>"
        and body = "\<lambda>E v. close_both E rt_Close (renv_Clients v) (renv_runtime v)"])
    (simp only: RuntimeEnv_Close_def case_prod_beta', auto intro!: appends_intros)

text \<open>Omni holds its \<open>closeState\<close> by value.\<close>

definition omni_slot :: "omniRuntime \<Rightarrow> closeState option" where
  "omni_slot o' = Some (o_closeState o')"

lemma closeState_close_slot:
  "closeState_close s fn n = do { (e, s', n) \<leftarrow> close_slot (Some s) fn n; State_Monad.return (e, the s', n) }"
  by (simp add: close_slot_def ensureCloseState_def split_beta)

interpretation omni_runtime: pointer_closer omni_Close omni_slot
proof
  fix E w e and x :: omniRuntime
  let ?fn = "do { err \<leftarrow> terminate_owned E (o_container x); State_Monad.return (err, ()) }"
  have r: "result_of (omni_Close E x) w = (let (e, s, n) = result_of (close_slot (omni_slot x) ?fn ()) w
      in (e, x\<lparr>o_closeState := the s\<rparr>))"
    by (simp add: omni_Close_def closeState_close_slot omni_slot_def result_of_bind split_beta)
  show "closed_with (omni_slot (snd (result_of (omni_Close E x) w))) (fst (result_of (omni_Close E x) w))"
    using close_slot_closes [of "omni_slot x" ?fn "()" w]
    by (auto simp: r split_beta omni_slot_def closed_with_def)
  show "omni_Close E x = State_Monad.return (e, x)" if "closed_with (omni_slot x) e"
    using close_slot_closed [OF that, of ?fn "()"]
    by (simp add: omni_Close_def closeState_close_slot omni_slot_def)
qed (rule appends_intros)

definition lazy_runtime_slot :: "LazyRuntime \<Rightarrow> closeState option" where
  "lazy_runtime_slot lr = lazy_slot (lr_state lr)"

interpretation lazy_runtime: pointer_closer LazyRuntime_Close lazy_runtime_slot
proof
  fix E x w e
  show "closed_with (lazy_runtime_slot (snd (result_of (LazyRuntime_Close E x) w))) (fst (result_of (LazyRuntime_Close E x) w))"
    using lazy_close_closes [of "rt_Close E" "lr_state x" w]
    by (simp add: LazyRuntime_Close_def lazy_runtime_slot_def result_of_bind split_beta)
  show "LazyRuntime_Close E x = State_Monad.return (e, x)" if "closed_with (lazy_runtime_slot x) e"
    using that by (simp add: LazyRuntime_Close_def lazy_runtime_slot_def lazy_close_closed)
  show "appends (LazyRuntime_Close E x)"
    unfolding LazyRuntime_Close_def by (intro appends_intros)
qed

definition lazy_emulator_slot :: "LazyEmulator \<Rightarrow> closeState option" where
  "lazy_emulator_slot le = lazy_slot (le_state le)"

interpretation lazy_emulator: pointer_closer LazyEmulator_Close lazy_emulator_slot
proof
  fix E x w e
  show "closed_with (lazy_emulator_slot (snd (result_of (LazyEmulator_Close E x) w))) (fst (result_of (LazyEmulator_Close E x) w))"
    using lazy_close_closes [of "rt_Close E" "le_state x" w]
    by (simp add: LazyEmulator_Close_def lazy_emulator_slot_def result_of_bind split_beta)
  show "LazyEmulator_Close E x = State_Monad.return (e, x)" if "closed_with (lazy_emulator_slot x) e"
    using that by (simp add: LazyEmulator_Close_def lazy_emulator_slot_def lazy_close_closed)
  show "appends (LazyEmulator_Close E x)"
    unfolding LazyEmulator_Close_def by (intro appends_intros)
qed

end
