(* ===== verification/Serve.thy ===== *)
theory Serve
  imports Entry_Points
begin

section \<open>Serving a backend (serve.go)\<close>

subsection \<open>Serve\<close>

definition servedEndpoint :: "env \<Rightarrow> int \<Rightarrow> Endpoint \<Rightarrow> Endpoint" where
  "servedEndpoint E now endpoint =
     endpoint\<lparr>en_ManagedBy := ''spanemuboost serve'', en_PID := getpid E, en_StartedAt := format_RFC3339 now\<rparr>"

text \<open>The body between the start of the runtime and its deferred \<open>Close\<close>.\<close>

definition serve_body :: "env \<Rightarrow> ctx \<Rightarrow> runtimeInstance \<Rightarrow> string \<Rightarrow> error option io" where
  "serve_body E c runtime endpointPath =
     (case EndpointFromRuntime (Some runtime) of
        Inl e \<Rightarrow> State_Monad.return (Some e)
      | Inr endpoint \<Rightarrow> do {
          now \<leftarrow> time_Now;
          err \<leftarrow> (if endpointPath \<noteq> [] then SaveEndpoint E endpointPath (servedEndpoint E now endpoint)
                 else State_Monad.return None);
          case err of
            Some e \<Rightarrow> State_Monad.return (Some e)
          | None \<Rightarrow> do {
              ctxErr \<leftarrow> await_done E c;
              _ \<leftarrow> (if endpointPath \<noteq> [] then do { _ \<leftarrow> os_Remove E endpointPath; State_Monad.return () }
                   else State_Monad.return ());
              State_Monad.return (if ctxErr \<noteq> None \<and> ctxErr \<noteq> Some Canceled then ctxErr else None)
            }
        })"

definition Serve :: "env \<Rightarrow> ctx \<Rightarrow> Backend \<Rightarrow> string \<Rightarrow> Option list \<Rightarrow> error option io" where
  "Serve E c backend endpointPath options = do {
     started \<leftarrow> Run E c backend options;
     case started of
       Inl e \<Rightarrow> State_Monad.return (Some e)
     | Inr runtime \<Rightarrow> do {
         err \<leftarrow> serve_body E c runtime endpointPath;
         _ \<leftarrow> rt_Close E runtime;
         State_Monad.return err
       }
   }"

record ServeConfig =
  sc_Backend :: Backend
  sc_EndpointFile :: string
  sc_PIDFile :: string
  sc_Options :: "Option list"

definition pid_text :: "int \<Rightarrow> string" where
  "pid_text pid = show_int pid @ [CHR 0x0A]"

definition ServeFromConfig :: "env \<Rightarrow> ctx \<Rightarrow> ServeConfig \<Rightarrow> error option io" where
  "ServeFromConfig E c cfg =
     (if sc_PIDFile cfg \<noteq> [] then do {
        err \<leftarrow> os_WriteFile E (sc_PIDFile cfg) (pid_text (getpid E)) 384;
        case err of
          Some e \<Rightarrow> State_Monad.return (Some (Wrapf ''spanemuboost: write pid file %q: %w'' [AStr (sc_PIDFile cfg)] e))
        | None \<Rightarrow> do {
            err \<leftarrow> Serve E c (sc_Backend cfg) (sc_EndpointFile cfg) (sc_Options cfg);
            _ \<leftarrow> os_Remove E (sc_PIDFile cfg);
            State_Monad.return err
          }
      }
      else Serve E c (sc_Backend cfg) (sc_EndpointFile cfg) (sc_Options cfg))"

subsection \<open>The arguments\<close>

text \<open>The variables of the loop.\<close>

record serve_args =
  sa_endpoint :: string
  sa_pid :: string
  sa_backend :: string
  sa_database :: bool
  sa_image :: string

definition noServeArgs :: serve_args where
  "noServeArgs = \<lparr>sa_endpoint = [], sa_pid = [], sa_backend = [], sa_database = False, sa_image = []\<rparr>"

fun parse_serve :: "string list \<Rightarrow> serve_args \<Rightarrow> serve_args result" where
  "parse_serve [] s = Inr s"
| "parse_serve (a # rest) s =
     (let (name, value, hasValue) = cut a CHR ''='';
          arg = (if name \<noteq> ''--image'' then a else name)
      in if arg = ''--image'' then
           if \<not> hasValue then
             (case rest of
                [] \<Rightarrow> Inl (Errorf ''%s requires a value'' [AStr arg])
              | v # rest' \<Rightarrow>
                  if hasPrefix v ''--'' then Inl (Errorf ''%s requires a value'' [AStr arg])
                  else if v = [] then Inl (Errorf ''%s requires a non-empty value'' [AStr arg])
                  else parse_serve rest' (s\<lparr>sa_image := v\<rparr>))
           else if value = [] then Inl (Errorf ''%s requires a non-empty value'' [AStr arg])
           else parse_serve rest (s\<lparr>sa_image := value\<rparr>)
         else if arg = ''--endpoint-file'' \<or> arg = ''-o'' then
           (case rest of
              [] \<Rightarrow> Inl (Errorf ''--endpoint-file requires a value'' [])
            | v # rest' \<Rightarrow> parse_serve rest' (s\<lparr>sa_endpoint := v\<rparr>))
         else if arg = ''--pid-file'' then
           (case rest of
              [] \<Rightarrow> Inl (Errorf ''--pid-file requires a value'' [])
            | v # rest' \<Rightarrow> parse_serve rest' (s\<lparr>sa_pid := v\<rparr>))
         else if arg = ''--with-default-database'' then parse_serve rest (s\<lparr>sa_database := True\<rparr>)
         else if arg = ''emulator'' \<or> arg = ''omni'' then
           if sa_backend s \<noteq> [] then
             Inl (Errorf ''multiple backends specified: %q and %q'' [AStr (sa_backend s), AStr a])
           else parse_serve rest (s\<lparr>sa_backend := a\<rparr>)
         else Inl (Errorf ''unknown argument %q'' [AStr a]))"

definition ParseServeArgs :: "string list \<Rightarrow> ServeConfig result" where
  "ParseServeArgs args =
     (case parse_serve args noServeArgs of
        Inl e \<Rightarrow> Inl e
      | Inr s \<Rightarrow>
          if sa_backend s = [] then
            Inl (Errorf ''usage: spanemuboost serve <emulator|omni> --endpoint-file path [--pid-file path] [--with-default-database] [--image image]'' [])
          else if sa_backend s = BackendEmulator then Inr
            \<lparr>sc_Backend = BackendEmulator, sc_EndpointFile = sa_endpoint s, sc_PIDFile = sa_pid s,
             sc_Options = (if sa_image s \<noteq> [] then [WithContainerImage (sa_image s)] else [])\<rparr>
          else if sa_backend s = BackendOmni then Inr
            \<lparr>sc_Backend = BackendOmni, sc_EndpointFile = sa_endpoint s, sc_PIDFile = sa_pid s,
             sc_Options = (if \<not> sa_database s then [DisableAutoConfig] else []) @
               (if sa_image s \<noteq> [] then [WithContainerImage (sa_image s)] else [])\<rparr>
          else Inl (Errorf ''unsupported serve backend %q; supported values are emulator and omni'' [AStr (sa_backend s)]))"

subsection \<open>Printing and parsing the arguments\<close>

text \<open>A command line for given settings; an empty setting has no argument.\<close>

definition serve_argv :: "Backend \<Rightarrow> string \<Rightarrow> string \<Rightarrow> bool \<Rightarrow> string \<Rightarrow> string list" where
  "serve_argv backend endpoint pid database img =
     [backend] @ (if endpoint = [] then [] else [''--endpoint-file'', endpoint]) @
     (if pid = [] then [] else [''--pid-file'', pid]) @
     (if database then [''--with-default-database''] else []) @
     (if img = [] then [] else [''--image='' @ img])"

lemma parse_serve_image: "img \<noteq> [] \<Longrightarrow> parse_serve ((''--image='' @ img) # rest) s = parse_serve rest (s\<lparr>sa_image := img\<rparr>)"
  using cut_found [of "CHR ''=''" "''--image''" img] by simp

lemma parse_serve_flags:
  "parse_serve (''--endpoint-file'' # v # rest) s = parse_serve rest (s\<lparr>sa_endpoint := v\<rparr>)"
  "parse_serve (''--pid-file'' # v # rest) s = parse_serve rest (s\<lparr>sa_pid := v\<rparr>)"
  "parse_serve (''--with-default-database'' # rest) s = parse_serve rest (s\<lparr>sa_database := True\<rparr>)"
  "sa_backend s = [] \<Longrightarrow> b \<in> {BackendEmulator, BackendOmni} \<Longrightarrow>
     parse_serve (b # rest) s = parse_serve rest (s\<lparr>sa_backend := b\<rparr>)"
  by (auto simp: cut_def BackendEmulator_def BackendOmni_def)

lemma parse_serve_argv:
  assumes "b \<in> {BackendEmulator, BackendOmni}"
  shows "parse_serve (serve_argv b endpoint pid database img) noServeArgs =
    Inr \<lparr>sa_endpoint = endpoint, sa_pid = pid, sa_backend = b, sa_database = database, sa_image = img\<rparr>"
proof -
  have "sa_backend noServeArgs = []" by (simp add: noServeArgs_def)
  then show ?thesis
    unfolding serve_argv_def
    by (cases "endpoint = []"; cases "pid = []"; cases database; cases "img = []")
      (simp_all add: parse_serve_flags(4) [OF _ assms] parse_serve_flags(1-3) parse_serve_image [simplified append.simps] noServeArgs_def
        del: parse_serve.simps(2))
qed

end
