(* ===== verification/Stop.thy ===== *)
theory Stop
  imports Serve
begin

section \<open>Stopping a served backend (stop.go)\<close>

text \<open>
  The loops run until a deadline of the clock; they take fuel, a bound on their turns, and give
  None when it runs out.  The lemmas show how much fuel is enough when every wait lets its time
  pass.
\<close>

definition defaultStopTimeout :: Duration where "defaultStopTimeout = 30 * time_Second"

record StopConfig =
  st_EndpointFile :: string
  st_PIDFile :: string
  st_Timeout :: Duration

definition contains :: "string \<Rightarrow> string \<Rightarrow> bool" where
  "contains s sub = (0 \<le> string_Index s sub)"

definition isProcessDone :: "env \<Rightarrow> error \<Rightarrow> bool" where
  "isProcessDone E err = (error_Is err ProcessDone \<or> contains (error_text E err) ''no such process'')"

definition resolveServePID :: "env \<Rightarrow> StopConfig \<Rightarrow> int result io" where
  "resolveServePID E cfg =
     (let pidPath = trimSpace (st_PIDFile cfg); endpointPath = trimSpace (st_EndpointFile cfg)
      in if pidPath \<noteq> [] then do {
           data \<leftarrow> os_ReadFile E pidPath;
           State_Monad.return (case data of
             Inl e \<Rightarrow> Inl (Wrapf ''spanemuboost: read pid file %q: %w'' [AStr pidPath] e)
           | Inr bytes \<Rightarrow>
               (case atoi (trimSpace bytes) of
                  None \<Rightarrow> Inl (Errorf ''spanemuboost: invalid pid in %q'' [AStr pidPath])
                | Some pid \<Rightarrow>
                    if pid \<le> 0 then Inl (Errorf ''spanemuboost: invalid pid in %q'' [AStr pidPath])
                    else Inr pid))
         }
         else if endpointPath \<noteq> [] then do {
           endpoint \<leftarrow> ReadEndpointFile E endpointPath;
           State_Monad.return (case endpoint of
             Inl e \<Rightarrow> Inl e
           | Inr ep \<Rightarrow>
               if en_PID ep \<le> 0 then
                 Inl (Errorf ''spanemuboost: endpoint file %q has no managed serve pid'' [AStr endpointPath])
               else Inr (en_PID ep))
         }
         else State_Monad.return (Inl (Errorf ''spanemuboost: --endpoint-file or --pid-file is required'' [])))"

text \<open>Waiting for the endpoint file to go away; the label \<open>removeStale\<close> follows the loop.\<close>

definition os_IsNotExist :: "error option \<Rightarrow> bool" where
  "os_IsNotExist err = (case err of None \<Rightarrow> False | Some e \<Rightarrow> isNotExist e)"

fun await_removal :: "env \<Rightarrow> ctx \<Rightarrow> string \<Rightarrow> int \<Rightarrow> nat \<Rightarrow> bool option io" where
  "await_removal E c path deadline 0 = State_Monad.return None"
| "await_removal E c path deadline (Suc fuel) = do {
     now \<leftarrow> time_Now;
     if \<not> now < deadline then State_Monad.return (Some False)
     else do {
       err \<leftarrow> os_Stat E path;
       if os_IsNotExist err then State_Monad.return (Some True)
       else do {
         ended \<leftarrow> wait_for E c (50 * time_Millisecond);
         case ended of
           Some e \<Rightarrow> State_Monad.return (Some False)
         | None \<Rightarrow> await_removal E c path deadline fuel
       }
     }
   }"

definition remove_stale :: "env \<Rightarrow> string \<Rightarrow> error option io" where
  "remove_stale E path = do {
     err \<leftarrow> os_Remove E path;
     State_Monad.return (case err of
       None \<Rightarrow> None
     | Some e \<Rightarrow> if isNotExist e then None
         else Some (Wrapf ''spanemuboost: remove stale endpoint file %q: %w'' [AStr path] e))
   }"

definition remove_pid_file :: "env \<Rightarrow> StopConfig \<Rightarrow> unit io" where
  "remove_pid_file E cfg =
     (if trimSpace (st_PIDFile cfg) \<noteq> [] then do { _ \<leftarrow> os_Remove E (trimSpace (st_PIDFile cfg)); State_Monad.return () }
      else State_Monad.return ())"

text \<open>The result is the error, or None without fuel.\<close>

definition await_endpoint :: "env \<Rightarrow> ctx \<Rightarrow> string \<Rightarrow> int \<Rightarrow> nat \<Rightarrow> error option option io" where
  "await_endpoint E c endpointPath deadline fuel = do {
     now \<leftarrow> time_Now;
     let cleanupDeadline = (if now + time_Second > deadline then deadline else now + time_Second);
     gone \<leftarrow> await_removal E c endpointPath cleanupDeadline fuel;
     case gone of
       None \<Rightarrow> State_Monad.return None
     | Some True \<Rightarrow> State_Monad.return (Some None)
     | Some False \<Rightarrow> do { err \<leftarrow> remove_stale E endpointPath; State_Monad.return (Some err) }
   }"

definition waitForEndpointCleanup :: "env \<Rightarrow> ctx \<Rightarrow> StopConfig \<Rightarrow> int \<Rightarrow> nat \<Rightarrow> error option option io" where
  "waitForEndpointCleanup E c cfg deadline fuel = do {
     _ \<leftarrow> remove_pid_file E cfg;
     let endpointPath = trimSpace (st_EndpointFile cfg);
     if endpointPath = [] then State_Monad.return (Some None)
     else await_endpoint E c endpointPath deadline fuel
   }"

definition finishStopCleanup :: "env \<Rightarrow> StopConfig \<Rightarrow> nat \<Rightarrow> error option option io" where
  "finishStopCleanup E cfg fuel = do {
     now \<leftarrow> time_Now;
     waitForEndpointCleanup E (WithTimeout Background time_Second) cfg (now + time_Second) fuel
   }"

text \<open>
  The liveness loop, which the code has twice: it ends because the process is gone, because the
  context ended, or at the deadline.
\<close>

datatype liveness = Gone | Ended error | Alive

fun await_exit :: "env \<Rightarrow> ctx \<Rightarrow> int \<Rightarrow> int \<Rightarrow> nat \<Rightarrow> liveness option io" where
  "await_exit E c pid deadline 0 = State_Monad.return None"
| "await_exit E c pid deadline (Suc fuel) = do {
     now \<leftarrow> time_Now;
     if \<not> now < deadline then State_Monad.return (Some Alive)
     else do {
       err \<leftarrow> invoke E (SendSignal pid Signal0);
       case err of
         Some e \<Rightarrow> State_Monad.return (Some Gone)
       | None \<Rightarrow> do {
           ended \<leftarrow> wait_for E c (100 * time_Millisecond);
           case ended of
             Some e \<Rightarrow> State_Monad.return (Some (Ended e))
           | None \<Rightarrow> await_exit E c pid deadline fuel
         }
     }
   }"

text \<open>After SIGKILL, with a deadline of its own.\<close>

definition stop_killed :: "env \<Rightarrow> ctx \<Rightarrow> StopConfig \<Rightarrow> int \<Rightarrow> Duration \<Rightarrow> nat \<Rightarrow> error option option io" where
  "stop_killed E c cfg pid timeout fuel = do {
     now \<leftarrow> time_Now;
     state \<leftarrow> await_exit E c pid (now + timeout) fuel;
     case state of
       None \<Rightarrow> State_Monad.return None
     | Some Gone \<Rightarrow> finishStopCleanup E cfg fuel
     | Some (Ended e) \<Rightarrow> State_Monad.return (Some (Some e))
     | Some Alive \<Rightarrow> State_Monad.return (Some (Some
         (Errorf ''spanemuboost: serve process %d did not exit within %s'' [AInt pid, AInt timeout])))
   }"

definition stop_kill :: "env \<Rightarrow> ctx \<Rightarrow> StopConfig \<Rightarrow> int \<Rightarrow> Duration \<Rightarrow> nat \<Rightarrow> error option option io" where
  "stop_kill E c cfg pid timeout fuel = do {
     err \<leftarrow> invoke E (SendSignal pid SIGKILL);
     case err of
       Some e \<Rightarrow>
         if isProcessDone E e then finishStopCleanup E cfg fuel
         else State_Monad.return (Some (Some (Wrapf ''spanemuboost: kill serve process %d: %w'' [AInt pid] e)))
     | None \<Rightarrow> stop_killed E c cfg pid timeout fuel
   }"

definition stop_term :: "env \<Rightarrow> ctx \<Rightarrow> StopConfig \<Rightarrow> int \<Rightarrow> Duration \<Rightarrow> nat \<Rightarrow> error option option io" where
  "stop_term E c cfg pid timeout fuel = do {
     err \<leftarrow> invoke E (SendSignal pid SIGTERM);
     case err of
       Some e \<Rightarrow>
         if isProcessDone E e then finishStopCleanup E cfg fuel
         else State_Monad.return (Some (Some (Wrapf ''spanemuboost: signal serve process %d: %w'' [AInt pid] e)))
     | None \<Rightarrow> do {
         now \<leftarrow> time_Now;
         state \<leftarrow> await_exit E c pid (now + timeout) fuel;
         case state of
           None \<Rightarrow> State_Monad.return None
         | Some Gone \<Rightarrow> finishStopCleanup E cfg fuel
         | Some (Ended e) \<Rightarrow> State_Monad.return (Some (Some e))
         | Some Alive \<Rightarrow> stop_kill E c cfg pid timeout fuel
       }
   }"

definition stopTimeout :: "StopConfig \<Rightarrow> Duration" where
  "stopTimeout cfg = (if st_Timeout cfg \<le> 0 then defaultStopTimeout else st_Timeout cfg)"

definition StopFromConfig :: "env \<Rightarrow> ctx \<Rightarrow> StopConfig \<Rightarrow> nat \<Rightarrow> error option option io" where
  "StopFromConfig E c cfg fuel = do {
     pid \<leftarrow> resolveServePID E cfg;
     case pid of
       Inl e \<Rightarrow> State_Monad.return (Some (Some e))
     | Inr pid \<Rightarrow> do {
         err \<leftarrow> invoke E (FindProcess pid);
         case err of
           Some e \<Rightarrow> State_Monad.return (Some (Some (Wrapf ''spanemuboost: find serve process %d: %w'' [AInt pid] e)))
         | None \<Rightarrow> stop_term E c cfg pid (stopTimeout cfg) fuel
       }
   }"

subsection \<open>The arguments\<close>

fun parse_stop :: "string list \<Rightarrow> StopConfig \<Rightarrow> StopConfig result" where
  "parse_stop [] cfg = Inr cfg"
| "parse_stop (a # rest) cfg =
     (if a = ''--endpoint-file'' \<or> a = ''-o'' then
        (case rest of
           [] \<Rightarrow> Inl (Errorf ''--endpoint-file requires a value'' [])
         | v # rest' \<Rightarrow> parse_stop rest' (cfg\<lparr>st_EndpointFile := v\<rparr>))
      else if a = ''--pid-file'' then
        (case rest of
           [] \<Rightarrow> Inl (Errorf ''--pid-file requires a value'' [])
         | v # rest' \<Rightarrow> parse_stop rest' (cfg\<lparr>st_PIDFile := v\<rparr>))
      else Inl (Errorf ''unknown argument %q'' [AStr a]))"

definition ParseStopArgs :: "string list \<Rightarrow> StopConfig result" where
  "ParseStopArgs args =
     (case parse_stop args \<lparr>st_EndpointFile = [], st_PIDFile = [], st_Timeout = 0\<rparr> of
        Inl e \<Rightarrow> Inl e
      | Inr cfg \<Rightarrow>
          if st_EndpointFile cfg = [] \<and> st_PIDFile cfg = [] then
            Inl (Errorf ''usage: spanemuboost stop --endpoint-file path [--pid-file path]'' [])
          else Inr cfg)"

subsection \<open>The loops end\<close>

text \<open>
  What \<open>time.After\<close> is documented to do: when the timer fires, at least its duration has passed.
\<close>

definition timers_fire_late :: "env \<Rightarrow> bool" where
  "timers_fire_late E \<longleftrightarrow>
     (\<forall>w c d. rpc E w (AwaitTimer c d) = None \<longrightarrow> clock w + d \<le> clock_after E w d)"

lemma run_time_Now [simp]: "run_state time_Now w = (clock w, w)"
  by (simp add: time_Now_def)

lemma run_wait_for:
  "run_state (wait_for E c d) w = (rpc E w (AwaitTimer c d),
     (record_event (AwaitTimer c d, rpc E w (AwaitTimer c d)) w)\<lparr>files := files_after E w d, clock := clock_after E w d\<rparr>)"
  by (simp add: wait_for_def Let_def)

lemma await_exit_returns:
  assumes "timers_fire_late E" and "deadline - clock w \<le> int fuel * (100 * time_Millisecond)"
  shows "fst (run_state (await_exit E c pid deadline (Suc fuel)) w) \<noteq> None"
  using assms(2)
proof (induction fuel arbitrary: w)
  case 0
  then show ?case by (simp add: split_beta)
next
  case (Suc fuel)
  let ?w1 = "record_event (SendSignal pid Signal0, None) w"
  let ?d = "100 * time_Millisecond"
  let ?w2 = "(record_event (AwaitTimer c ?d, None) ?w1)\<lparr>files := files_after E ?w1 ?d, clock := clock_after E ?w1 ?d\<rparr>"
  have "deadline - clock ?w2 \<le> int fuel * ?d" if "rpc E ?w1 (AwaitTimer c ?d) = None"
  proof -
    have "clock ?w1 + ?d \<le> clock_after E ?w1 ?d"
      using that assms(1) unfolding timers_fire_late_def by blast
    with Suc.prems show ?thesis by (simp add: algebra_simps)
  qed
  with Suc.IH [of ?w2] show ?case
    by (subst await_exit.simps) (simp add: run_wait_for split_beta split: option.splits del: await_exit.simps)
qed

lemma run_os_Stat:
  "clock (snd (run_state (os_Stat E p) w)) = clock w"
  "os_IsNotExist (fst (run_state (os_Stat E p) w)) \<Longrightarrow> files (snd (run_state (os_Stat E p) w)) p = None"
  by (auto simp: os_Stat_def run_os_step exists_check_def record_event_def os_IsNotExist_def
      split: option.splits if_splits)

lemma await_removal_step:
  assumes "w1 = snd (run_state (os_Stat E path) w)" and "d = 50 * time_Millisecond"
  shows "run_state (await_removal E c path deadline (Suc fuel)) w =
    (if \<not> clock w < deadline then (Some False, w)
     else if os_IsNotExist (fst (run_state (os_Stat E path) w)) then (Some True, w1)
     else (case rpc E w1 (AwaitTimer c d) of
       Some e \<Rightarrow> (Some False, (record_event (AwaitTimer c d, Some e) w1)\<lparr>files := files_after E w1 d, clock := clock_after E w1 d\<rparr>)
     | None \<Rightarrow> run_state (await_removal E c path deadline fuel)
         ((record_event (AwaitTimer c d, None) w1)\<lparr>files := files_after E w1 d, clock := clock_after E w1 d\<rparr>)))"
  unfolding assms by (simp add: run_wait_for split_beta split: option.splits)

lemma await_removal_returns:
  assumes "timers_fire_late E" and "deadline - clock w \<le> int fuel * (50 * time_Millisecond)"
  shows "fst (run_state (await_removal E c path deadline (Suc fuel)) w) \<noteq> None"
  using assms(2)
proof (induction fuel arbitrary: w)
  case 0
  then show ?case by (simp add: split_beta)
next
  case (Suc fuel)
  let ?w1 = "snd (run_state (os_Stat E path) w)"
  let ?d = "50 * time_Millisecond"
  have next_ok: "fst (run_state (await_removal E c path deadline (Suc fuel)) w2) \<noteq> None"
    if "rpc E ?w1 (AwaitTimer c ?d) = None" "clock w2 = clock_after E ?w1 ?d" for w2
  proof (rule Suc.IH)
    have "clock ?w1 + ?d \<le> clock_after E ?w1 ?d"
      using that(1) assms(1) unfolding timers_fire_late_def by blast
    with Suc.prems run_os_Stat(1) [of E path w] that(2)
    show "deadline - clock w2 \<le> int fuel * ?d" by (simp add: algebra_simps)
  qed
  show ?case
    unfolding await_removal_step [OF refl refl, of E c path deadline "Suc fuel" w]
    using next_ok by (auto simp del: await_removal.simps split: option.splits)
qed

text \<open>When the loop sees the file gone, it is gone.\<close>

lemma await_removal_gone:
  "fst (run_state (await_removal E c path deadline fuel) w) = Some True \<Longrightarrow>
   files (snd (run_state (await_removal E c path deadline fuel) w)) path = None"
proof (induction fuel arbitrary: w)
  case 0
  then show ?case by simp
next
  case (Suc fuel)
  then show ?case
    unfolding await_removal_step [OF refl refl, of E c path deadline fuel w]
    by (auto simp: run_os_Stat(2) split: option.splits if_splits)
qed

lemma remove_stale_gone:
  "fst (run_state (remove_stale E path) w) = None \<Longrightarrow> files (snd (run_state (remove_stale E path) w)) path = None"
  by (auto simp: remove_stale_def os_Remove_def run_os_step exists_check_def record_event_def
      split: option.splits if_splits)

text \<open>A cleanup that returns nil leaves no endpoint file.\<close>

lemma await_endpoint_gone:
  "fst (run_state (await_endpoint E c path deadline fuel) w) = Some None \<Longrightarrow>
   files (snd (run_state (await_endpoint E c path deadline fuel) w)) path = None"
  using await_removal_gone [of E c path] remove_stale_gone [of E path]
  by (auto simp: await_endpoint_def split_beta Let_def split: option.splits bool.splits)

lemma cleanup_gone:
  assumes "fst (run_state (finishStopCleanup E cfg fuel) w) = Some None"
    and "trimSpace (st_EndpointFile cfg) \<noteq> []"
  shows "files (snd (run_state (finishStopCleanup E cfg fuel) w)) (trimSpace (st_EndpointFile cfg)) = None"
  using assms
  by (simp add: finishStopCleanup_def waitForEndpointCleanup_def split_beta Let_def await_endpoint_gone)

text \<open>Enough fuel: the loops of the timeout take at most \<open>timeout / 100ms + 1\<close> turns, the cleanup twenty.\<close>

definition stop_fuel :: "StopConfig \<Rightarrow> nat" where
  "stop_fuel cfg = Suc (max 20 (nat (stopTimeout cfg div (100 * time_Millisecond)) + 1))"

lemma cleanup_returns:
  assumes "timers_fire_late E" and "20 < fuel"
  shows "fst (run_state (finishStopCleanup E cfg fuel) w) \<noteq> None"
proof -
  obtain f where f: "fuel = Suc f" "20 \<le> f" using assms(2) by (cases fuel) auto
  have r: "fst (run_state (await_removal E c path dl fuel) w2) \<noteq> None"
    if "dl - clock w2 \<le> time_Second" for c path dl w2
  proof -
    have "time_Second = 20 * (50 * time_Millisecond)" by (simp add: time_units)
    also have "\<dots> \<le> int f * (50 * time_Millisecond)"
      using f(2) by (simp add: time_units)
    finally have "dl - clock w2 \<le> int f * (50 * time_Millisecond)" using that by simp
    from await_removal_returns [OF assms(1) this] show ?thesis by (simp only: f(1) not_False_eq_True)
  qed
  have "fst (run_state (await_endpoint E c path dl fuel) w2) \<noteq> None" for c path dl w2
  proof -
    let ?dl = "if clock w2 + time_Second > dl then dl else clock w2 + time_Second"
    have "fst (run_state (await_removal E c path ?dl fuel) w2) \<noteq> None"
      by (rule r) auto
    then obtain gone w3 where "run_state (await_removal E c path ?dl fuel) w2 = (Some gone, w3)"
      by (metis option.exhaust prod.collapse)
    then show ?thesis
      by (cases "dl < clock w2 + time_Second"; cases gone) (simp_all add: await_endpoint_def split_beta Let_def)
  qed
  then show ?thesis
    by (simp add: finishStopCleanup_def waitForEndpointCleanup_def split_beta Let_def)
qed

lemma exit_returns:
  assumes "timers_fire_late E" and "stop_fuel cfg \<le> fuel"
  shows "fst (run_state (await_exit E c pid (clock w + stopTimeout cfg) fuel) w) \<noteq> None"
proof -
  obtain f where f: "fuel = Suc f" "nat (stopTimeout cfg div (100 * time_Millisecond)) + 1 \<le> f"
    using assms(2) unfolding stop_fuel_def by (cases fuel) auto
  have "stopTimeout cfg \<le> int f * (100 * time_Millisecond)"
  proof -
    let ?k = "100 * time_Millisecond"
    have "0 < ?k" by (simp add: time_units)
    then have "stopTimeout cfg mod ?k < ?k" by (rule pos_mod_bound)
    then have "stopTimeout cfg < (stopTimeout cfg div ?k + 1) * ?k"
      using div_mult_mod_eq [of "stopTimeout cfg" ?k] by (simp only: distrib_right mult_1)
    also have "\<dots> \<le> int f * ?k"
      using f(2) \<open>0 < ?k\<close> by (intro mult_right_mono) linarith+
    finally show ?thesis by (rule less_imp_le)
  qed
  then show ?thesis
    unfolding f(1) by (intro await_exit_returns assms(1)) simp
qed

lemma stop_killed_returns:
  assumes "timers_fire_late E" and "stop_fuel cfg \<le> fuel"
  shows "fst (run_state (stop_killed E c cfg pid (stopTimeout cfg) fuel) w) \<noteq> None"
proof -
  have "20 < fuel" using assms(2) by (simp add: stop_fuel_def)
  with exit_returns [OF assms, of c pid w] show ?thesis
    by (auto simp: stop_killed_def split_beta cleanup_returns [OF assms(1), simplified] split: liveness.splits)
qed

lemma stop_term_returns:
  assumes "timers_fire_late E" and "stop_fuel cfg \<le> fuel"
  shows "fst (run_state (stop_term E c cfg pid (stopTimeout cfg) fuel) w) \<noteq> None"
proof -
  have "20 < fuel" using assms(2) by (simp add: stop_fuel_def)
  note cleanup = cleanup_returns [OF assms(1) this, simplified]
  have kill: "\<exists>y. fst (run_state (stop_kill E c cfg pid (stopTimeout cfg) fuel) w2) = Some y" for w2
    using stop_killed_returns [OF assms, of c pid, simplified]
    by (auto simp: stop_kill_def split_beta cleanup split: option.splits)
  show ?thesis
    using exit_returns [OF assms, of c pid "record_event (SendSignal pid SIGTERM, None) w"] kill
    by (auto simp: stop_term_def split_beta cleanup split: option.splits liveness.splits)
qed

lemma stop_returns:
  assumes "timers_fire_late E" and "stop_fuel cfg \<le> fuel"
  shows "fst (run_state (StopFromConfig E c cfg fuel) w) \<noteq> None"
  using stop_term_returns [OF assms, of c, simplified]
  by (auto simp: StopFromConfig_def split_beta split: option.splits sum.splits)

text \<open>A successful stop has ended in the cleanup.\<close>

definition leaves_none :: "string \<Rightarrow> error option option io \<Rightarrow> bool" where
  "leaves_none path m \<longleftrightarrow> (\<forall>w. fst (run_state m w) = Some None \<longrightarrow> files (snd (run_state m w)) path = None)"

lemma leaves_none_bind [intro]: "(\<And>x. leaves_none path (k x)) \<Longrightarrow> leaves_none path (m \<bind> k)"
  by (simp add: leaves_none_def split_beta)

lemma leaves_none_return [simp]: "x \<noteq> Some None \<Longrightarrow> leaves_none path (State_Monad.return x)"
  by (simp add: leaves_none_def)

lemma leaves_none_cleanup:
  "trimSpace (st_EndpointFile cfg) = path \<Longrightarrow> path \<noteq> [] \<Longrightarrow> leaves_none path (finishStopCleanup E cfg fuel)"
  using cleanup_gone by (auto simp: leaves_none_def)

lemma stop_leaves_none:
  assumes "trimSpace (st_EndpointFile cfg) = path" "path \<noteq> []"
  shows "leaves_none path (stop_killed E c cfg pid t fuel)"
    and "leaves_none path (stop_kill E c cfg pid t fuel)"
    and "leaves_none path (stop_term E c cfg pid t fuel)"
    and "leaves_none path (StopFromConfig E c cfg fuel)"
proof -
  note cleanup = leaves_none_cleanup [OF assms, of E fuel]
  show killed: "leaves_none path (stop_killed E c cfg pid t fuel)" for pid t
    unfolding stop_killed_def
    by (intro leaves_none_bind) (auto simp: cleanup split: option.splits liveness.splits)
  show kill: "leaves_none path (stop_kill E c cfg pid t fuel)" for pid t
    unfolding stop_kill_def
    by (intro leaves_none_bind) (auto simp: cleanup killed split: option.splits)
  show "term": "leaves_none path (stop_term E c cfg pid t fuel)" for pid t
    unfolding stop_term_def
    by (intro leaves_none_bind) (auto simp: cleanup kill intro!: leaves_none_bind split: option.splits liveness.splits)
  show "leaves_none path (StopFromConfig E c cfg fuel)"
    unfolding StopFromConfig_def
    by (intro leaves_none_bind) (auto simp: "term" split: option.splits sum.splits)
qed

subsection \<open>Signals\<close>

text \<open>The signals among the events: process, signal and the error of the call.\<close>

definition signals :: "event list \<Rightarrow> (int \<times> signal \<times> error option) list" where
  "signals es = concat (map (\<lambda>(c, r). case c of SendSignal p s \<Rightarrow> [(p, s, r)] | _ \<Rightarrow> []) es)"

lemma signals_simps [simp]:
  "signals [] = []" "signals (xs @ ys) = signals xs @ signals ys"
  "signals ((SendSignal p s, r) # es) = (p, s, r) # signals es"
  "signals ((FindProcess p, r) # es) = signals es"
  "signals ((AwaitTimer c d, r) # es) = signals es"
  "signals ((StatFile f, r) # es) = signals es"
  "signals ((RemoveFile f, r) # es) = signals es"
  "signals ((ReadFile f, r) # es) = signals es"
  by (simp_all add: signals_def)

lemma ensures_time_Now: "(\<And>t. Q t []) \<Longrightarrow> ensures time_Now Q"
  by (auto simp: ensures_def result_of_def events_def world_after_def intro: appends_files)

lemma ensures_bind_time_Now:
  "(\<And>t. ensures (f t) Q) \<Longrightarrow> (\<And>t. appends (f t)) \<Longrightarrow> ensures (time_Now \<bind> f) Q"
  by (rule ensures_bind [where R = "\<lambda>t es. es = []"]) (auto intro: ensures_time_Now)

lemma ensures_wait_for: "(\<And>r. Q r [(AwaitTimer c d, r)]) \<Longrightarrow> ensures (wait_for E c d) Q"
  by (auto simp: ensures_def result_of_def events_def world_after_def run_wait_for intro: appends_files)

lemma ensures_os_step: "(\<And>r. Q r [(c, r)]) \<Longrightarrow> ensures (os_step E c check done failed) Q"
  by (auto simp: ensures_def result_of_def events_def world_after_def run_os_step intro: appends_os_step
      split: option.splits)

lemma await_exit_signals:
  "ensures (await_exit E c pid deadline fuel) (\<lambda>r es. \<exists>n.
     signals es = replicate n (pid, Signal0, None) \<and> r \<noteq> Some Gone \<or>
     (\<exists>e. signals es = replicate n (pid, Signal0, None) @ [(pid, Signal0, Some e)]) \<and> r = Some Gone)"
proof (induction fuel)
  case 0
  then show ?case by (auto intro!: ensures_return exI [of _ 0])
next
  case (Suc fuel)
  have a: "appends (await_exit E c pid deadline fuel)" using Suc.IH by (rule ensures_appends)
  show ?case
    apply (simp only: await_exit.simps)
    apply (intro ensures_bind_time_Now ensures_if ensures_bind_invoke ensures_option
        ensures_bind [OF ensures_wait_for [where Q = "\<lambda>r es. signals es = []"]] appends_intros a)
    apply (auto intro!: ensures_return exI [of _ 0]) [3]
    subgoal
      apply (rule ensures_mono [OF Suc.IH])
      apply (elim exE, rename_tac n, rule_tac x = "Suc n" in exI)
      apply auto
      done
    subgoal by (auto intro!: ensures_return exI [of _ 1])
    subgoal by (auto intro!: ensures_return exI [of _ 0])
    done
qed

text \<open>The cleanup and the reading of the PID send none.\<close>

interpretation silent: trace_property "\<lambda>es. signals es = []"
  by unfold_locales simp_all

lemma silent_time_Now: "emits (\<lambda>es. signals es = []) time_Now"
  unfolding ensures_emits by (rule ensures_time_Now) simp

lemma silent_wait_for: "emits (\<lambda>es. signals es = []) (wait_for E c d)"
  unfolding ensures_emits by (rule ensures_wait_for) simp

lemma silent_os_step: "(\<And>r. signals [(c, r)] = []) \<Longrightarrow> emits (\<lambda>es. signals es = []) (os_step E c check done failed)"
  unfolding ensures_emits by (rule ensures_os_step)

lemma silent_os:
  "emits (\<lambda>es. signals es = []) (os_Stat E p)" "emits (\<lambda>es. signals es = []) (os_Remove E p)"
  unfolding os_Stat_def os_Remove_def by (rule silent_os_step, simp)+

lemma silent_ReadFile: "emits (\<lambda>es. signals es = []) (os_ReadFile E p)"
proof -
  have "events (os_ReadFile E p) w = events (os_step E (ReadFile p) (exists_check p) files files) w" for w
    by (auto simp: events_def world_after_def os_ReadFile_def split: prod.splits option.splits)
  moreover have "emits (\<lambda>es. signals es = []) (os_step E (ReadFile p) (exists_check p) files files)"
    by (rule silent_os_step) simp
  ultimately show ?thesis by (simp add: emits_def appends_files)
qed

lemma silent_await_removal: "emits (\<lambda>es. signals es = []) (await_removal E c path deadline fuel)"
  by (induction fuel) (auto intro!: silent.emits_rules silent_time_Now silent_wait_for silent_os)

lemma silent_cleanup: "emits (\<lambda>es. signals es = []) (finishStopCleanup E cfg fuel)"
  unfolding finishStopCleanup_def waitForEndpointCleanup_def await_endpoint_def remove_pid_file_def remove_stale_def
  by (auto intro!: silent.emits_rules silent_time_Now silent_os silent_await_removal split: bool.splits)

lemma silent_resolve: "emits (\<lambda>es. signals es = []) (resolveServePID E cfg)"
  unfolding resolveServePID_def ReadEndpointFile_def
  by (auto intro!: silent.emits_rules silent_ReadFile)

lemma resolveServePID_positive: "result_of (resolveServePID E cfg) w = Inr pid \<Longrightarrow> 0 < pid"
  unfolding resolveServePID_def
  by (auto simp: Let_def result_of_bind split: if_splits sum.splits option.splits)

text \<open>
  The signals of a stop: SIGTERM; then, if it was delivered, probes that find the process alive;
  then nothing more, or the probe that finds it gone, or SIGKILL followed by probes only.
\<close>

definition probe :: "int \<Rightarrow> int \<times> signal \<times> error option \<Rightarrow> bool" where
  "probe pid = (\<lambda>(p, s, r). p = pid \<and> s = Signal0)"

definition after_term :: "int \<Rightarrow> (int \<times> signal \<times> error option) list \<Rightarrow> bool" where
  "after_term pid sg \<longleftrightarrow> sg = [] \<or> (\<exists>e. sg = [(pid, Signal0, Some e)]) \<or>
     (\<exists>r rest. sg = (pid, SIGKILL, r) # rest \<and> list_all (probe pid) rest)"

definition stop_signals :: "int \<Rightarrow> (int \<times> signal \<times> error option) list \<Rightarrow> bool" where
  "stop_signals pid sg \<longleftrightarrow> (\<exists>e. sg = [(pid, SIGTERM, Some e)]) \<or>
     (\<exists>n tail. sg = (pid, SIGTERM, None) # replicate n (pid, Signal0, None) @ tail \<and> after_term pid tail)"

interpretation probing: trace_property "\<lambda>es. list_all (probe pid) (signals es)" for pid
  by unfold_locales simp_all

lemma probing_if_silent: "emits (\<lambda>es. signals es = []) m \<Longrightarrow> emits (\<lambda>es. list_all (probe pid) (signals es)) m"
  by (erule emits_mono) simp

lemma probing_await_exit: "emits (\<lambda>es. list_all (probe pid) (signals es)) (await_exit E c pid deadline fuel)"
  unfolding ensures_emits by (rule ensures_mono [OF await_exit_signals]) (auto simp: probe_def list_all_iff)

lemma probing_killed: "emits (\<lambda>es. list_all (probe pid) (signals es)) (stop_killed E c cfg pid t fuel)"
  unfolding stop_killed_def
  by (intro probing.emits_bind probing_if_silent [OF silent_time_Now] probing_await_exit)
    (auto intro!: probing.emits_return probing_if_silent [OF silent_cleanup] split: option.splits liveness.splits)

lemma stop_kill_signals:
  "ensures (stop_kill E c cfg pid t fuel)
     (\<lambda>_ es. \<exists>r rest. signals es = (pid, SIGKILL, r) # rest \<and> list_all (probe pid) rest)"
  unfolding stop_kill_def
  by (intro ensures_bind_invoke ensures_option ensures_if ensures_return)
    (auto intro!: appends_intros ensures_appends [OF silent_cleanup [unfolded ensures_emits]]
      ensures_appends [OF probing_killed [unfolded ensures_emits]]
      intro: ensures_mono [OF silent_cleanup [unfolded ensures_emits]] ensures_mono [OF probing_killed [unfolded ensures_emits]]
      split: option.splits)

lemmas silent_ensures = silent_cleanup [unfolded ensures_emits] silent_resolve [unfolded ensures_emits]

lemma stop_signals_tail: "after_term pid sg \<Longrightarrow> stop_signals pid ((pid, SIGTERM, None) # replicate n (pid, Signal0, None) @ sg)"
  unfolding stop_signals_def by blast

text \<open>What follows the wait after SIGTERM, by how the wait ended and the probes that it made.\<close>

lemma after_await_signals:
  assumes "\<exists>n. signals es = replicate n (pid, Signal0, None) \<and> x \<noteq> Some Gone \<or>
     (\<exists>e. signals es = replicate n (pid, Signal0, None) @ [(pid, Signal0, Some e)]) \<and> x = Some Gone"
  shows "ensures (case x of None \<Rightarrow> State_Monad.return None
      | Some Gone \<Rightarrow> finishStopCleanup E cfg fuel
      | Some (Ended e) \<Rightarrow> State_Monad.return (Some (Some e))
      | Some Alive \<Rightarrow> stop_kill E c cfg pid t fuel)
      (\<lambda>_ es'. stop_signals pid (signals ((SendSignal pid SIGTERM, None) # es @ es')))"
proof -
  have tail0: "stop_signals pid ((pid, SIGTERM, None) # replicate n (pid, Signal0, None))" for n
    using stop_signals_tail [of pid "[]" n] by (simp add: after_term_def)
  obtain n where n: "signals es = replicate n (pid, Signal0, None) \<and> x \<noteq> Some Gone \<or>
     (\<exists>e. signals es = replicate n (pid, Signal0, None) @ [(pid, Signal0, Some e)]) \<and> x = Some Gone"
    using assms by blast
  consider "x = None" | "x = Some Gone" | e where "x = Some (Ended e)" | "x = Some Alive"
    by (metis liveness.exhaust option.exhaust)
  then show ?thesis
  proof cases
    case 2
    with n obtain e where "signals es = replicate n (pid, Signal0, None) @ [(pid, Signal0, Some e)]" by auto
    with 2 show ?thesis
      by (auto intro!: ensures_mono [OF silent_ensures(1)] stop_signals_tail simp: after_term_def)
  next
    case 4
    with n have "signals es = replicate n (pid, Signal0, None)" by auto
    with 4 show ?thesis
      by (auto intro!: ensures_mono [OF stop_kill_signals] stop_signals_tail simp: after_term_def)
  qed (use n in \<open>auto intro!: ensures_return tail0\<close>)
qed

lemma stop_term_signals:
  "ensures (stop_term E c cfg pid t fuel) (\<lambda>_ es. stop_signals pid (signals es))"
proof -
  have a: "appends (await_exit E c pid d fuel)" "appends (stop_kill E c cfg pid t fuel)"
    "appends (finishStopCleanup E cfg fuel)" for d
    by (rule ensures_appends, rule await_exit_signals stop_kill_signals silent_ensures)+
  show ?thesis
    unfolding stop_term_def
    apply (rule ensures_bind_invoke)
     apply (rule ensures_option)
      apply (rule ensures_bind_time_Now)
       apply (rule ensures_bind [OF await_exit_signals])
        apply (simp only:, rule after_await_signals, assumption)
       apply (auto intro!: appends_intros a split: liveness.splits option.splits)[2]
     apply (rule ensures_if)
      apply (rule ensures_mono [OF silent_ensures(1)], simp add: stop_signals_def)
     apply (rule ensures_return, simp add: stop_signals_def)
    apply (auto intro!: appends_intros a split: liveness.splits option.splits)
    done
qed

lemma StopFromConfig_signals:
  "\<exists>sg. signals (events (StopFromConfig E c cfg fuel) w) = sg \<and>
     (sg = [] \<or> (\<exists>pid. result_of (resolveServePID E cfg) w = Inr pid \<and> stop_signals pid sg))"
proof -
  have a: "appends (resolveServePID E cfg)"
    "appends (stop_term E c cfg pid t fuel)" for pid t
    by (rule ensures_appends, rule silent_ensures stop_term_signals)+
  let ?rest = "\<lambda>pid. case pid of
       Inl e \<Rightarrow> State_Monad.return (Some (Some e))
     | Inr pid \<Rightarrow> do {
         err \<leftarrow> invoke E (FindProcess pid);
         case err of
           Some e \<Rightarrow> State_Monad.return (Some (Some (Wrapf ''spanemuboost: find serve process %d: %w'' [AInt pid] e)))
         | None \<Rightarrow> stop_term E c cfg pid (stopTimeout cfg) fuel
       }"
  have rest: "ensures (?rest r) (\<lambda>_ es. signals es = [] \<or> (\<exists>pid. r = Inr pid \<and> stop_signals pid (signals es)))" for r
    by (intro ensures_sum ensures_bind_invoke ensures_option)
      (auto intro!: ensures_return appends_intros a ensures_mono [OF stop_term_signals])
  have "events (StopFromConfig E c cfg fuel) w = events (resolveServePID E cfg) w @
     events (?rest (result_of (resolveServePID E cfg) w)) (world_after (resolveServePID E cfg) w)"
    unfolding StopFromConfig_def by (rule events_bind [OF a(1) ensures_appends [OF rest]])
  moreover have "signals (events (resolveServePID E cfg) w) = []"
    by (rule ensuresD [OF silent_ensures(2)])
  ultimately show ?thesis using ensuresD [OF rest] by simp
qed

subsection \<open>The PID file\<close>

lemma trimSpace_pid_text: "0 \<le> pid \<Longrightarrow> trimSpace (pid_text pid) = show_nat (nat pid)"
  by (simp add: pid_text_def show_int_def trimSpace_show_nat_newline)

lemma atoi_pid: "0 \<le> pid \<Longrightarrow> pid \<le> maxInt \<Longrightarrow> atoi (show_nat (nat pid)) = Some pid"
  using atoi_show_nat [of "nat pid"] by simp

text \<open>Stop reads the PID that serve wrote.\<close>

lemma resolveServePID_reads:
  assumes "files w (trimSpace (st_PIDFile cfg)) = Some f" and "content f = pid_text pid"
    and "trimSpace (st_PIDFile cfg) \<noteq> []" and "os_fail E w (ReadFile (trimSpace (st_PIDFile cfg))) = None"
    and "0 < pid" "pid \<le> maxInt"
  shows "result_of (resolveServePID E cfg) w = Inr pid"
  using assms
  by (simp add: resolveServePID_def Let_def result_of_bind)
    (simp add: result_of_def os_ReadFile_def run_os_step exists_check_def trimSpace_pid_text atoi_pid)

lemma WriteFile_written:
  assumes "os_fail E w (WriteFile p data m) = None"
  shows "\<exists>f. files (world_after (os_WriteFile E p data m) w) p = Some f \<and> content f = data"
  using assms
  by (simp add: world_after_def os_WriteFile_def Let_def run_os_step no_check_def written_def)

end
