(* ===== verification/Command.thy ===== *)
theory Command
  imports Stop
begin

section \<open>The command (cmd/spanemuboost/main.go) and the test helpers (testing.go)\<close>

subsection \<open>The command\<close>

text \<open>
  The context of \<open>serve\<close> ends on a signal, so it is one that others cancel (\<open>Caller\<close>).
  \<open>args\<close> are the arguments after the program name; the result is the exit code.
\<close>

definition runServe :: "env \<Rightarrow> string list \<Rightarrow> error option io" where
  "runServe E args =
     (case ParseServeArgs args of
        Inl e \<Rightarrow> State_Monad.return (Some e)
      | Inr cfg \<Rightarrow>
          if sc_EndpointFile cfg = [] then State_Monad.return (Some (Errorf ''--endpoint-file is required'' []))
          else ServeFromConfig E Caller cfg)"

definition runStop :: "env \<Rightarrow> string list \<Rightarrow> nat \<Rightarrow> error option option io" where
  "runStop E args fuel =
     (case ParseStopArgs args of
        Inl e \<Rightarrow> State_Monad.return (Some (Some e))
      | Inr cfg \<Rightarrow> StopFromConfig E Background cfg fuel)"

definition exit_code :: "error option \<Rightarrow> nat" where
  "exit_code err = (if err \<noteq> None then 1 else 0)"

definition main :: "env \<Rightarrow> string list \<Rightarrow> nat \<Rightarrow> nat option io" where
  "main E args fuel =
     (case args of
        [] \<Rightarrow> State_Monad.return (Some 2)
      | a # rest \<Rightarrow>
          if a = ''serve'' then do {
            err \<leftarrow> runServe E rest;
            State_Monad.return (Some (exit_code err))
          }
          else if a = ''stop'' then do {
            err \<leftarrow> runStop E rest fuel;
            State_Monad.return (map_option exit_code err)
          }
          else State_Monad.return (Some 2))"

subsection \<open>Tests\<close>

text \<open>
  \<open>runTestMain\<close>: the tests and the exit code, after the close.  \<open>m.Run()\<close> runs tests of the caller;
  they are the argument, which gives the code and the handle as the tests leave it.
\<close>

definition runTestMain :: "('r \<Rightarrow> (int \<times> 'r) io) \<Rightarrow> ('r \<Rightarrow> (error option \<times> 'r) io) \<Rightarrow> 'r \<Rightarrow> int io" where
  "runTestMain tests close x = do {
     (code, x) \<leftarrow> tests x;
     (err, _) \<leftarrow> close x;
     State_Monad.return (if err \<noteq> None \<and> code = 0 then 1 else code)
   }"

definition Emulator_TestMain :: "env \<Rightarrow> (Emulator \<Rightarrow> (int \<times> Emulator) io) \<Rightarrow> Emulator \<Rightarrow> int io" where
  "Emulator_TestMain E tests e = runTestMain tests (Emulator_Close E) e"

definition LazyRuntime_TestMain :: "env \<Rightarrow> (LazyRuntime \<Rightarrow> (int \<times> LazyRuntime) io) \<Rightarrow> LazyRuntime \<Rightarrow> int io" where
  "LazyRuntime_TestMain E tests lr = runTestMain tests (LazyRuntime_Close E) lr"

definition LazyEmulator_TestMain :: "env \<Rightarrow> (LazyEmulator \<Rightarrow> (int \<times> LazyEmulator) io) \<Rightarrow> LazyEmulator \<Rightarrow> int io" where
  "LazyEmulator_TestMain E tests le = runTestMain tests (LazyEmulator_Close E) le"

text \<open>
  How a helper ends: with a value, with \<open>tb.Fatal\<close>, which ends the test, or in a panic of the
  start.  A value comes with the cleanup that was registered, which gives the error that it
  reports with \<open>tb.Errorf\<close>.
\<close>

datatype 'a tested = Value 'a | Fatal error | Panics nat

definition fatal_or_value :: "'a result \<Rightarrow> 'a tested" where
  "fatal_or_value x = (case x of Inl e \<Rightarrow> Fatal e | Inr v \<Rightarrow> Value v)"

definition tested_outcome :: "'r outcome \<Rightarrow> 'r option tested" where
  "tested_outcome out =
     (case out of
        Returned r (Some e) \<Rightarrow> Fatal e
      | Returned r None \<Rightarrow> Value r
      | Panicked v \<Rightarrow> Panics v)"

definition setupLazy :: "('r outcome \<times> 'l) io \<Rightarrow> ('r option tested \<times> 'l) io" where
  "setupLazy get = do { (out, lazy) \<leftarrow> get; State_Monad.return (tested_outcome out, lazy) }"

definition LazyRuntime_Setup :: "env \<Rightarrow> LazyRuntime \<Rightarrow> (runtimeInstance option tested \<times> LazyRuntime) io" where
  "LazyRuntime_Setup E lr = setupLazy (LazyRuntime_Get E Caller lr)"

definition LazyEmulator_Setup :: "env \<Rightarrow> LazyEmulator \<Rightarrow> (Emulator option tested \<times> LazyEmulator) io" where
  "LazyEmulator_Setup E le = setupLazy (LazyEmulator_Get E Caller le)"

definition closing :: "string \<Rightarrow> (error option \<times> 'r) io \<Rightarrow> error option io" where
  "closing closeTarget close = do {
     (err, _) \<leftarrow> close;
     State_Monad.return (case err of
       None \<Rightarrow> None
     | Some e \<Rightarrow> Some (Wrapf ''spanemuboost: failed to close %s: %v'' [AStr closeTarget] e))
   }"

definition setupWithCleanup ::
    "'r result io \<Rightarrow> ('r \<Rightarrow> (error option \<times> 'r) io) \<Rightarrow> string \<Rightarrow> ('r \<times> error option io) tested io" where
  "setupWithCleanup start close closeTarget = do {
     value \<leftarrow> start;
     State_Monad.return (map_tested (\<lambda>v. (v, closing closeTarget (close v))) (fatal_or_value value))
   }"

definition SetupEmulator :: "env \<Rightarrow> Option list \<Rightarrow> (Emulator \<times> error option io) tested io" where
  "SetupEmulator E options = setupWithCleanup (RunEmulator E Caller options) (Emulator_Close E) ''emulator''"

definition setupOmni :: "env \<Rightarrow> Option list \<Rightarrow> (omniRuntime \<times> error option io) tested io" where
  "setupOmni E options = setupWithCleanup (runOmni E Caller options) (omni_Close E) ''omni''"

definition setupOmniWithClients :: "env \<Rightarrow> Option list \<Rightarrow> (RuntimeEnv \<times> error option io) tested io" where
  "setupOmniWithClients E options =
     setupWithCleanup (runOmniWithClients E Caller options) (RuntimeEnv_Close E) ''omni env''"

definition SetupEmulatorWithClients :: "env \<Rightarrow> Option list \<Rightarrow> (Env \<times> error option io) tested io" where
  "SetupEmulatorWithClients E options =
     setupWithCleanup (RunEmulatorWithClients E Caller options) (Env_Close E) ''env''"

definition SetupClients ::
    "env \<Rightarrow> RuntimeHandle \<Rightarrow> Option list \<Rightarrow> ((Clients option \<times> error option io) tested \<times> RuntimeHandle) io" where
  "SetupClients E runtime options = do {
     (out, runtime) \<leftarrow> OpenClients E Caller runtime options;
     State_Monad.return (map_tested (\<lambda>v. (v, closing ''clients'' (Clients_Close_ptr E v))) (tested_outcome out), runtime)
   }"

definition map_setup :: "('a \<Rightarrow> 'b) \<Rightarrow> ('a \<times> error option io) tested io \<Rightarrow> ('b \<times> error option io) tested io" where
  "map_setup f m = do { x \<leftarrow> m; State_Monad.return (map_tested (map_prod f id) x) }"

definition Setup :: "env \<Rightarrow> Backend \<Rightarrow> Option list \<Rightarrow> (runtimeInstance \<times> error option io) tested io" where
  "Setup E backend options =
     (if backend = BackendEmulator then map_setup RI_Emulator (SetupEmulator E options)
      else if backend = BackendOmni then map_setup RI_Omni (setupOmni E options)
      else State_Monad.return (Fatal (Errorf ''unsupported backend %q'' [AStr backend])))"

definition SetupWithClients :: "env \<Rightarrow> Backend \<Rightarrow> Option list \<Rightarrow> (RuntimeEnv \<times> error option io) tested io" where
  "SetupWithClients E backend options =
     (if backend = BackendEmulator then
        map_setup (\<lambda>v. \<lparr>renv_Clients = env_Clients v, renv_runtime = map_option RI_Emulator (Env_Emulator v),
          renv_closeState = None\<rparr>) (SetupEmulatorWithClients E options)
      else if backend = BackendOmni then setupOmniWithClients E options
      else State_Monad.return (Fatal (Errorf ''unsupported backend %q'' [AStr backend])))"

end
