(* ===== verification/Sample_Env.thy ===== *)
theory Sample_Env
  imports Command
begin

section \<open>An environment to evaluate the model in\<close>

text \<open>
  Every call succeeds, waiting takes its time, nothing is configured, customizers change
  nothing.  The witnesses of the properties run the model in it, or in a variant in which a
  call fails.
\<close>

definition sampleWorld :: world where
  "sampleWorld = \<lparr>trace = [], files = (\<lambda>p. None), clock = 0\<rparr>"

definition sampleContainer :: Container where
  "sampleContainer = \<lparr>container_ID = 1, container_URI = ''localhost:9010''\<rparr>"

definition sampleEnv :: env where
  "sampleEnv = \<lparr>rpc = (\<lambda>w c. None), nonnil = (\<lambda>w c. False), container_at = (\<lambda>w c. sampleContainer),
     string_at = (\<lambda>w c. ''localhost:15000''), inspect_at = (\<lambda>w c. None), os_fail = (\<lambda>w c. None),
     left_behind = (\<lambda>w c. None), files_after = (\<lambda>w d. files w), clock_after = (\<lambda>w d. clock w + d),
     getenv = (\<lambda>k. []), getpid = 42, error_text = (\<lambda>e. []),
     status_Code = (\<lambda>e. OtherCode 2), MediaTypeImageIndex = ''application/vnd.oci.image.index.v1+json'',
     MediaTypeImageManifest = ''application/vnd.oci.image.manifest.v1+json'',
     customize = (\<lambda>c req. Inr req), random = (\<lambda>w n. n)\<rparr>"

text \<open>The same, but a call of a given kind fails.\<close>

definition failingEnv :: "(call \<Rightarrow> bool) \<Rightarrow> env" where
  "failingEnv bad = sampleEnv\<lparr>rpc := (\<lambda>w c. if bad c then Some (External 7) else None)\<rparr>"

lemma sampleEnv_simps [simp]:
  "rpc sampleEnv w c = None" "nonnil sampleEnv w c = False" "container_at sampleEnv w c = sampleContainer"
  "string_at sampleEnv w c = ''localhost:15000''" "inspect_at sampleEnv w c = None" "os_fail sampleEnv w c = None"
  "files_after sampleEnv w d = files w" "clock_after sampleEnv w d = clock w + d" "getenv sampleEnv k = []"
  "getpid sampleEnv = 42" "status_Code sampleEnv e = OtherCode 2" "customize sampleEnv cu req = Inr req"
  "random sampleEnv w n = n"
  by (simp_all add: sampleEnv_def)

lemma failingEnv_simps [simp]:
  "rpc (failingEnv bad) w c = (if bad c then Some (External 7) else None)" "nonnil (failingEnv bad) w c = False"
  "container_at (failingEnv bad) w c = sampleContainer" "inspect_at (failingEnv bad) w c = None"
  "os_fail (failingEnv bad) w c = None" "getenv (failingEnv bad) k = []" "status_Code (failingEnv bad) e = OtherCode 2"
  "random (failingEnv bad) w n = n" "customize (failingEnv bad) cu req = Inr req"
  by (simp_all add: failingEnv_def)

lemma sampleWorld_simps [simp]:
  "trace sampleWorld = []" "files sampleWorld p = None" "clock sampleWorld = 0"
  by (simp_all add: sampleWorld_def)

text \<open>Options as finalization leaves them: the defaults of the emulator.\<close>

definition sampleOptions :: emulatorOptions where
  "sampleOptions = zeroOptions\<lparr>emulatorImage := DefaultEmulatorImage, projectID := DefaultProjectID,
     instanceID := DefaultInstanceID, databaseID := DefaultDatabaseID,
     clientConfig := Some (zeroClientConfig\<lparr>DisableNativeMetrics := True\<rparr>)\<rparr>"

lemma default_IDs_valid: "valid_IDs sampleOptions"
  unfolding validateResourceIDs_None_iff [symmetric]
  by code_simp

lemma sample_finalized: "finalizeOptions (\<lambda>k. []) r zeroOptions = Inr sampleOptions"
  by code_simp

definition sampleClients :: Clients where
  "sampleClients = \<lparr>InstanceClient = True, DatabaseClient = True, SpannerClient = True, cl_ProjectID = ''p'',
     cl_InstanceID = ''i'', cl_DatabaseID = ''d'', clientOpts = [], cl_uri = [], dropDatabase = True, dropInstance = True,
     cl_closeState = None\<rparr>"

text \<open>Serving in this environment goes well once the runtime has an endpoint with a printable time.\<close>

definition printable_endpoint :: "Endpoint \<Rightarrow> bool" where
  "printable_endpoint ep = (case en_Provenance ep of None \<Rightarrow> True | Some p \<Rightarrow> printable_time (ep_ObservedAt p))"

lemma sample_saves:
  assumes "Endpoint_validate ep = None" "printable_endpoint ep"
  shows "result_of (SaveEndpoint sampleEnv path ep) w = None"
  using assms
  by (auto simp: SaveEndpoint_def MarshalIndent_def printable_endpoint_def result_of_bind os_MkdirAll_def os_CreateTemp_def
      save_temp_def tmp_Write_def tmp_Chmod_def tmp_Close_def os_Rename_def run_os_step exists_check_def no_check_def
      written_def chmod_def result_of_def world_after_def record_event_def Let_def split: option.splits if_splits)

lemma sample_saves_served:
  assumes "EndpointFromRuntime (Some r) = Inr ep" and "printable_endpoint ep"
  shows "result_of (SaveEndpoint sampleEnv path (servedEndpoint sampleEnv now ep)) w = None"
proof (rule sample_saves)
  show "Endpoint_validate (servedEndpoint sampleEnv now ep) = None"
    using assms(1)
    by (simp add: EndpointFromRuntime_def validated_Inr_iff Let_def Endpoint_validate_None_iff servedEndpoint_def split: if_splits)
  show "printable_endpoint (servedEndpoint sampleEnv now ep)"
    using assms(2) by (simp add: printable_endpoint_def servedEndpoint_def)
qed

lemma sample_serve_body:
  assumes "EndpointFromRuntime (Some r) = Inr ep" and "printable_endpoint ep"
  shows "result_of (serve_body sampleEnv c r path) w = None"
  using assms(1) sample_saves_served [OF assms]
  by (auto simp: serve_body_def result_of_bind) (simp_all add: result_of_def await_done_def Let_def)

text \<open>The emulator started in this environment, after the PID file was written.\<close>

definition samplePIDWorld :: world where
  "samplePIDWorld = world_after (os_WriteFile sampleEnv ''pid'' (pid_text (getpid sampleEnv)) 384) sampleWorld"

lemma sample_PID_written: "result_of (os_WriteFile sampleEnv ''pid'' data 384) sampleWorld = None"
  by (simp add: os_WriteFile_def result_of_def run_os_step no_check_def Let_def)

lemma sample_run:
  obtains r ep where "result_of (Run sampleEnv Caller BackendEmulator []) samplePIDWorld = Inr r"
    and "EndpointFromRuntime (Some r) = Inr ep" "printable_endpoint ep" "endpoint_text_ok ep"
proof -
  have "case result_of (Run sampleEnv Caller BackendEmulator []) samplePIDWorld of
      Inl e \<Rightarrow> False
    | Inr r \<Rightarrow>
        (case EndpointFromRuntime (Some r) of Inl e \<Rightarrow> False | Inr ep \<Rightarrow> printable_endpoint ep \<and> endpoint_text_ok ep)"
    by code_simp
  then show thesis using that by (auto split: sum.splits)
qed

end
