(* ===== verification/Call_Kinds.thy ===== *)
theory Call_Kinds
  imports Entry_Points Rollback_Facts
begin

section \<open>Which calls an operation makes\<close>

text \<open>
  The calls sorted by what they act on, and the kinds of call that each operation can make
  whatever the environment answers.  With these, a claim that an operation never creates,
  removes or stops something is read off its parts.
\<close>

datatype kind = ClientCall | CreateCall | RemoveCall | SchemaCall | LockCall | WaitCall |
  StartCall | StopCall | InspectCall | ProcessCall

definition kind_of :: "call \<Rightarrow> kind" where
  "kind_of x =
     (case x of
        NewInstanceAdminClient c co \<Rightarrow> ClientCall
      | CloseInstanceAdminClient \<Rightarrow> ClientCall
      | NewDatabaseAdminClient c co \<Rightarrow> ClientCall
      | CloseDatabaseAdminClient \<Rightarrow> ClientCall
      | NewSpannerClient c db cfg co \<Rightarrow> ClientCall
      | CloseSpannerClient \<Rightarrow> ClientCall
      | GetInstance c p \<Rightarrow> ClientCall
      | CreateInstance c q \<Rightarrow> CreateCall
      | WaitCreateInstance c \<Rightarrow> CreateCall
      | CreateDatabase c q \<Rightarrow> CreateCall
      | WaitCreateDatabase c \<Rightarrow> CreateCall
      | DeleteInstance c p \<Rightarrow> RemoveCall
      | DropDatabase c db \<Rightarrow> RemoveCall
      | UpdateDatabaseDdl c u \<Rightarrow> SchemaCall
      | WaitUpdateDatabaseDdl c \<Rightarrow> SchemaCall
      | BatchUpdate c ss \<Rightarrow> SchemaCall
      | AcquireLock c p \<Rightarrow> LockCall
      | ReleaseLock p \<Rightarrow> LockCall
      | AwaitTimer c d \<Rightarrow> WaitCall
      | RunEmulatorContainer c img cs \<Rightarrow> StartCall
      | RunGenericContainer c req \<Rightarrow> StartCall
      | ContainerReturned ct \<Rightarrow> StartCall
      | TerminateContainer c ct \<Rightarrow> StopCall
      | InspectContainer c ct \<Rightarrow> InspectCall
      | PortEndpoint c ct p \<Rightarrow> InspectCall
      | _ \<Rightarrow> ProcessCall)"

lemma kind_of_simps [simp]:
  "kind_of (NewInstanceAdminClient c co) = ClientCall" "kind_of CloseInstanceAdminClient = ClientCall"
  "kind_of (NewDatabaseAdminClient c co) = ClientCall" "kind_of CloseDatabaseAdminClient = ClientCall"
  "kind_of (NewSpannerClient c db cfg co) = ClientCall" "kind_of CloseSpannerClient = ClientCall"
  "kind_of (GetInstance c p) = ClientCall" "kind_of (CreateInstance c q) = CreateCall"
  "kind_of (WaitCreateInstance c) = CreateCall" "kind_of (CreateDatabase c q') = CreateCall"
  "kind_of (WaitCreateDatabase c) = CreateCall" "kind_of (DeleteInstance c p) = RemoveCall"
  "kind_of (DropDatabase c db) = RemoveCall" "kind_of (UpdateDatabaseDdl c u) = SchemaCall"
  "kind_of (WaitUpdateDatabaseDdl c) = SchemaCall" "kind_of (BatchUpdate c ss) = SchemaCall"
  "kind_of (AcquireLock c p) = LockCall" "kind_of (ReleaseLock p) = LockCall"
  "kind_of (AwaitTimer c d) = WaitCall" "kind_of (RunEmulatorContainer c img cs) = StartCall"
  "kind_of (RunGenericContainer c req) = StartCall" "kind_of (ContainerReturned ct) = StartCall"
  "kind_of (TerminateContainer c ct) = StopCall"
  "kind_of (InspectContainer c ct) = InspectCall" "kind_of (PortEndpoint c ct p) = InspectCall"
  by (simp_all add: kind_of_def)

text \<open>Only calls of these kinds, under every environment.\<close>

definition only :: "kind set \<Rightarrow> 'a io \<Rightarrow> bool" where
  "only K m \<longleftrightarrow> emits (list_all (\<lambda>e. kind_of (fst e) \<in> K)) m"

lemma only_mono: "only K m \<Longrightarrow> K \<subseteq> L \<Longrightarrow> only L m"
  unfolding only_def by (erule emits_mono) (auto simp: list_all_iff)

named_theorems only_intros \<open>the kinds of call of the operations\<close>

lemma only_invoke [only_intros]: "kind_of c \<in> K \<Longrightarrow> only K (invoke E c)"
  unfolding only_def by (rule all_events.emits_invoke) simp

lemma only_construct [only_intros]: "kind_of c \<in> K \<Longrightarrow> only K (construct E c)"
  unfolding only_def by (rule all_events.emits_construct) simp

lemmas only_rules [only_intros] =
  all_events.emits_return [where p = "\<lambda>e. kind_of (fst e) \<in> K" for K, folded only_def]
  all_events.emits_bind [where p = "\<lambda>e. kind_of (fst e) \<in> K" for K, folded only_def]
  all_events.emits_if [where p = "\<lambda>e. kind_of (fst e) \<in> K" for K, folded only_def]
  all_events.emits_option [where p = "\<lambda>e. kind_of (fst e) \<in> K" for K, folded only_def]
  all_events.emits_sum [where p = "\<lambda>e. kind_of (fst e) \<in> K" for K, folded only_def]
  all_events.emits_prod [where p = "\<lambda>e. kind_of (fst e) \<in> K" for K, folded only_def]
  all_events.emits_let [where p = "\<lambda>e. kind_of (fst e) \<in> K" for K, folded only_def]

lemma only_deferred [only_intros]: "only K cleanup \<Longrightarrow> only K m \<Longrightarrow> only K (deferred cleanup m)"
  unfolding deferred_def by (intro only_intros)

lemma only_withLock [only_intros]:
  "LockCall \<in> K \<Longrightarrow> only K fn \<Longrightarrow> only K (withInstanceAdminLock E c p fn x)"
  unfolding withInstanceAdminLock_def by (intro only_intros) simp_all

lemma only_time_Now [only_intros]: "only K time_Now"
  by (auto simp: only_def emits_def events_def world_after_def time_Now_def appends_def)

lemma only_with_process [only_intros]: "only K (with_process E f)"
  by (auto simp: only_def emits_def events_def world_after_def with_process_def appends_def)

lemma only_inspect [only_intros]: "InspectCall \<in> K \<Longrightarrow> only K (inspect E c ct)"
  by (auto simp: only_def emits_def events_def world_after_def inspect_def appends_def)

lemma only_run_container [only_intros]: "kind_of c \<in> K \<Longrightarrow> StartCall \<in> K \<Longrightarrow> only K (run_container E c)"
  by (auto simp: only_def emits_def events_def world_after_def run_container_def appends_def)

subsection \<open>Setting up and rolling back\<close>

lemma only_bootstrapInstance [only_intros]:
  "disableCreateInstance opts \<or> CreateCall \<in> K \<Longrightarrow> only K (bootstrapInstance E c opts)"
  unfolding bootstrapInstance_def createInstance_def by (intro only_intros) auto

lemma only_bootstrapDatabase [only_intros]:
  "disableCreateDatabase opts \<or> {CreateCall, LockCall} \<subseteq> K \<Longrightarrow> SchemaCall \<in> K \<Longrightarrow> only K (bootstrapDatabase E c opts)"
  unfolding bootstrapDatabase_def createDatabase_def createDatabaseLocked_def updateDDLs_def
  by (auto intro!: only_intros)

lemma only_executeDMLsWithClient [only_intros]: "SchemaCall \<in> K \<Longrightarrow> only K (executeDMLsWithClient E c opts)"
  unfolding executeDMLsWithClient_def by (intro only_intros) simp

lemma only_bootstraps [only_intros]:
  assumes "disableCreateInstance opts \<or> CreateCall \<in> K" "disableCreateDatabase opts \<or> {CreateCall, LockCall} \<subseteq> K"
    and "SchemaCall \<in> K" "ClientCall \<in> K"
  shows "only K (bootstrap E c opts co)" and "only K (bootstrapWithManagedClientConfig E c opts co)"
  using assms
  unfolding bootstrap_def bootstrapWithManagedClientConfig_def with_instance_client_def with_database_client_def
    executeDMLs_def
  by (intro only_intros; simp)+

lemma only_setup_body [only_intros]:
  assumes "disableCreateInstance opts \<or> CreateCall \<in> K" "disableCreateDatabase opts \<or> {CreateCall, LockCall} \<subseteq> K"
    and "SchemaCall \<in> K" "ClientCall \<in> K"
  shows "only K (setup_body E c opts co)"
  using assms unfolding setup_body_def by (intro only_intros; simp)

lemma only_drop [only_intros]:
  assumes "{RemoveCall, LockCall, WaitCall} \<subseteq> K"
  shows "only K (dropDatabaseWithRetry E c b db)"
  unfolding only_def
  by (rule emits_mono [OF dropDatabaseWithRetry_calls]) (use assms in \<open>auto simp: list_all_iff drop_call_def\<close>)

lemma only_setup_failed [only_intros]:
  assumes "{RemoveCall, LockCall, WaitCall, ClientCall} \<subseteq> K"
  shows "only K (setup_failed E opts e v)"
  using assms
  unfolding setup_failed_def rollbackCreatedResources_def rollback_instance_def rollback_drop_def instanceStillExists_def
  by (intro only_intros; simp)

lemma only_setup [only_intros]:
  assumes "disableCreateInstance opts \<or> CreateCall \<in> K" "disableCreateDatabase opts \<or> CreateCall \<in> K"
    and "{RemoveCall, LockCall, WaitCall, ClientCall, SchemaCall} \<subseteq> K"
  shows "only K (bootstrapAndCreateClientsWithOptions E c uri opts co)"
  using assms unfolding bootstrapAndCreateClientsWithOptions_def by (intro only_intros; auto)

lemma only_Clients_Close [only_intros]:
  "{ClientCall, RemoveCall, LockCall, WaitCall} \<subseteq> K \<Longrightarrow> only K (Clients_Close E c)"
  unfolding Clients_Close_def close_slot_def closeState_close_def Clients_close_body_def close_data_client_def
    drop_resources_def close_admin_clients_def
  by (intro only_intros) auto

text \<open>A setup that may create nothing creates nothing, and therefore removes nothing.\<close>

lemma setup_of_existing:
  assumes "disableCreateInstance opts" "disableCreateDatabase opts"
  shows "ensures (bootstrapAndCreateClientsWithOptions E c uri opts co) (\<lambda>r es.
    list_all (\<lambda>e. kind_of (fst e) \<in> {LockCall, WaitCall, ClientCall, SchemaCall}) es \<and>
    (case r of Inl e \<Rightarrow> True | Inr cl \<Rightarrow> \<not> dropDatabase cl \<and> \<not> dropInstance cl \<and>
      Clients_DatabasePath cl = opts_DatabasePath opts))"
proof -
  let ?m = "bootstrapAndCreateClientsWithOptions E c uri opts co"
  let ?K = "{RemoveCall, LockCall, WaitCall, ClientCall, SchemaCall}"
  have k: "ensures ?m (\<lambda>r es. list_all (\<lambda>e. kind_of (fst e) \<in> ?K) es)"
    using only_setup [of opts ?K E c uri co] assms by (simp add: only_def ensures_emits)
  have none: "\<not> made_instance es" "\<not> made_database es" if "list_all (\<lambda>e. kind_of (fst e) \<in> ?K) es" for es
    using that by (induction es) (auto split: call.splits)
  show ?thesis
  proof (rule ensures_mono [OF ensures_conj [OF k setup_spec]])
    fix r es
    assume h: "list_all (\<lambda>e. kind_of (fst e) \<in> ?K) es \<and> keeps_lock None es \<and>
      (case r of Inl e \<Rightarrow> setup_rolled_back E opts e es | Inr cl \<Rightarrow> setup_done c uri opts co cl es)"
    note n = none [OF conjunct1 [OF h]]
    have keep: "kind_of (fst x) \<in> {LockCall, WaitCall, ClientCall, SchemaCall}" if "x \<in> set es" "\<not> removes x" for x
      using h that by (auto simp: list_all_iff removes_def kind_of_def split: call.splits)
    have "\<not> removes x" if "x \<in> set es" for x
    proof (cases r)
      case (Inl e)
      with h that have "removes x \<longrightarrow> rollback_event opts (created_by es) x"
        by (auto simp: setup_rolled_back_def list_all_iff)
      then show ?thesis
        using n by (auto simp: rollback_event_def created_by_def removes_def split: call.splits)
    next
      case (Inr cl)
      with h that show ?thesis by (auto simp: setup_done_def list_all_iff)
    qed
    with keep have "list_all (\<lambda>e. kind_of (fst e) \<in> {LockCall, WaitCall, ClientCall, SchemaCall}) es"
      by (simp add: list_all_iff)
    moreover have "case r of Inl e \<Rightarrow> True | Inr cl \<Rightarrow> \<not> dropDatabase cl \<and> \<not> dropInstance cl \<and>
      Clients_DatabasePath cl = opts_DatabasePath opts"
      using h assms by (auto simp: setup_done_def shouldDropDatabase_def shouldDropInstance_def
          shouldDropResource_def split: sum.splits)
    ultimately show "list_all (\<lambda>e. kind_of (fst e) \<in> {LockCall, WaitCall, ClientCall, SchemaCall}) es \<and>
      (case r of Inl e \<Rightarrow> True | Inr cl \<Rightarrow> \<not> dropDatabase cl \<and> \<not> dropInstance cl \<and>
        Clients_DatabasePath cl = opts_DatabasePath opts)"
      by blast
  qed
qed

end
