(* ===== verification/Container_Facts.thy ===== *)
theory Container_Facts
  imports Call_Kinds Package_Options
begin

section \<open>Containers are not leaked, and existing databases are not touched\<close>

subsection \<open>Starts and stops\<close>

text \<open>
  A container is started when the container library hands it to the program, whether the call that
  started it returned an error with it or not; it is stopped when the program has it terminated.
\<close>

definition started_containers :: "event list \<Rightarrow> nat" where
  "started_containers es = length (filter (\<lambda>e. case fst e of ContainerReturned ct \<Rightarrow> True | _ \<Rightarrow> False) es)"

definition stopped_containers :: "event list \<Rightarrow> nat" where
  "stopped_containers es = length (filter (\<lambda>e. kind_of (fst e) = StopCall) es)"

lemma container_counts [simp]:
  "started_containers [] = 0" "stopped_containers [] = 0"
  "started_containers (xs @ ys) = started_containers xs + started_containers ys"
  "stopped_containers (xs @ ys) = stopped_containers xs + stopped_containers ys"
  "started_containers (e # es) = (case fst e of ContainerReturned ct \<Rightarrow> 1 | _ \<Rightarrow> 0) + started_containers es"
  "stopped_containers (e # es) = (if kind_of (fst e) = StopCall then 1 else 0) + stopped_containers es"
  by (simp_all add: started_containers_def stopped_containers_def split: call.split)

text \<open>
  The balance of a start: on success one container runs, on an error every container that was
  started has been terminated.
\<close>

definition container_balance :: "'a result \<Rightarrow> event list \<Rightarrow> bool" where
  "container_balance r es \<longleftrightarrow>
     (case r of
        Inl e \<Rightarrow> started_containers es = stopped_containers es
      | Inr x \<Rightarrow> started_containers es = 1 \<and> stopped_containers es = 0)"

lemma only_balanced:
  assumes "only K m" "StartCall \<notin> K" "StopCall \<notin> K"
  shows "ensures m (\<lambda>_ es. started_containers es = 0 \<and> stopped_containers es = 0)"
proof -
  have "ensures m (\<lambda>_ es. list_all (\<lambda>e. kind_of (fst e) \<in> K) es)"
    using assms(1) by (simp add: only_def ensures_emits)
  then show ?thesis
  proof (rule ensures_mono)
    fix es :: "event list"
    assume h: "list_all (\<lambda>e. kind_of (fst e) \<in> K) es"
    have "kind_of (fst e) \<noteq> StartCall \<and> kind_of (fst e) \<noteq> StopCall" if "e \<in> set es" for e
      using h that assms(2,3) by (metis list_all_iff)
    then show "started_containers es = 0 \<and> stopped_containers es = 0"
      by (fastforce simp: started_containers_def stopped_containers_def filter_empty_conv split: call.splits)
  qed
qed

lemma run_container_spec:
  "ensures (run_container E c) (\<lambda>(ct, err) es. (err = None \<longrightarrow> ct \<noteq> None) \<and>
     es = (c, err) # (case ct of None \<Rightarrow> [] | Some x \<Rightarrow> [(ContainerReturned x, None)]))"
  by (auto simp: ensures_def run_container_def result_of_def events_def world_after_def appends_def)

lemma terminate_after_error_spec:
  "ensures (terminateContainerAfterStartupError E ct (Some e)) (\<lambda>r es. r \<noteq> None \<and> started_containers es = 0 \<and>
     stopped_containers es = (if ct = None then 0 else 1))"
  unfolding terminateContainerAfterStartupError_def
  by (cases ct) (auto simp: errors_Join_def intro!: ensures_return ensures_bind_invoke ensures_option appends_intros)

lemma appends_start_parts [appends_intros]:
  "appends (run_container E c)" "appends (terminateContainerAfterStartupError E ct err)"
proof -
  show "appends (run_container E c)" by (rule ensures_appends [OF run_container_spec])
  show "appends (terminateContainerAfterStartupError E ct err)"
    unfolding terminateContainerAfterStartupError_def by (auto intro!: appends_intros split: option.splits)
qed

lemma newEmulator_spec: "ensures (newEmulator E c opts) container_balance"
proof -
  let ?call = "RunEmulatorContainer c (emulatorImage opts)
       ([TC_WithProjectID (projectID opts), TC_WithCmd (gatewayCmd opts)] @ containerCustomizers opts)"
  have rest: "ensures (case (ct, err) of
       (Some ct, None) \<Rightarrow> State_Monad.return (Inr ct)
     | (Some ct', Some e) \<Rightarrow> do {
         err \<leftarrow> terminateContainerAfterStartupError E ct err;
         State_Monad.return (Inl (the err))
       }
     | (None, _) \<Rightarrow> State_Monad.return (Inl (the err))) (\<lambda>r es. container_balance r ((?call, err) # (case ct of None \<Rightarrow> [] | Some x \<Rightarrow> [(ContainerReturned x, None)]) @ es))"
    if "err = None \<longrightarrow> ct \<noteq> None" for ct err
    using that
    by (cases ct; cases err)
      (auto simp: container_balance_def intro!: ensures_return ensures_bind [OF terminate_after_error_spec] appends_intros)
  show ?thesis
    unfolding newEmulator_def
    apply (rule ensures_bind [OF run_container_spec], rule ensures_prod)
     apply (simp only: prod.case, elim conjE)
     apply (drule rest, simp)
    apply (auto intro!: appends_intros split: option.splits)
    done
qed

subsection \<open>Starting a runtime\<close>

text \<open>What follows the start of the container: on an error it is terminated.\<close>

definition after_start :: "'a result \<Rightarrow> event list \<Rightarrow> bool" where
  "after_start r es \<longleftrightarrow> started_containers es = 0 \<and>
     (case r of Inl e \<Rightarrow> stopped_containers es = 1 | Inr x \<Rightarrow> stopped_containers es = 0)"

lemma start_then:
  assumes "ensures m container_balance" and "\<And>x. ensures (f x) after_start"
  shows "ensures (State_Monad.bind m (\<lambda>s. case s of Inl e \<Rightarrow> State_Monad.return (Inl e) | Inr x \<Rightarrow> f x)) container_balance"
  by (rule ensures_bind [OF assms(1)], rule ensures_sum)
    (auto simp: container_balance_def after_start_def intro!: ensures_return ensures_mono [OF assms(2)]
      appends_intros ensures_appends [OF assms(2)] split: sum.splits)

lemma ensures_bind_process:
  assumes "\<And>x. ensures (f x) Q"
  shows "ensures (State_Monad.bind (with_process E g) f) Q"
proof (rule ensures_bind)
  show "ensures (with_process E g) (\<lambda>x es. es = [])"
    by (simp add: ensures_def appends_with_process) (simp add: events_def world_after_def with_process_def)
qed (auto intro: assms ensures_appends [OF assms])

lemma balance_if_not_started: "ensures (State_Monad.return (Inl e)) container_balance"
  by (rule ensures_return) (simp add: container_balance_def)

lemma resolved_then:
  assumes "\<And>x. ensures (f x) container_balance"
  shows "ensures (State_Monad.bind (with_process E g)
    (\<lambda>s. case s of Inl e \<Rightarrow> State_Monad.return (Inl e) | Inr x \<Rightarrow> f x)) container_balance"
  by (rule ensures_bind_process, rule ensures_sum) (auto intro: assms balance_if_not_started)

abbreviation (input) no_containers :: "'a \<Rightarrow> event list \<Rightarrow> bool" where
  "no_containers \<equiv> \<lambda>_ es. started_containers es = 0 \<and> stopped_containers es = 0"

lemmas setup_no_containers =
  only_balanced [OF only_bootstraps(1) [where K = "{CreateCall, LockCall, SchemaCall, ClientCall}"]]
  only_balanced [OF only_bootstraps(2) [where K = "{CreateCall, LockCall, SchemaCall, ClientCall}"]]
  only_balanced [OF only_setup [where K = "{CreateCall, LockCall, WaitCall, SchemaCall, ClientCall, RemoveCall}"]]

lemma observe_no_containers: "ensures (observeContainerImage E c ct img) no_containers"
proof (rule only_balanced)
  show "only {InspectCall} (observeContainerImage E c ct img)"
    unfolding observeContainerImage_def by (intro only_intros) simp
qed simp_all

lemma terminate_owned_spec:
  "ensures (terminate_owned E (Some ct)) (\<lambda>_ es. started_containers es = 0 \<and> stopped_containers es = 1)"
  unfolding terminate_owned_def by (simp, rule ensures_invoke) simp

lemma close_slot_fresh:
  assumes "is_open slot" and "ensures fn Q"
  shows "ensures (close_slot slot fn n) (\<lambda>(e, s, n') es. Q (e, n') es)"
proof (rule ensuresI)
  show "appends (close_slot slot fn n)" by (intro appends_intros ensures_appends [OF assms(2)])
  show "(\<lambda>(e, s, n') es. Q (e, n') es) (result_of (close_slot slot fn n) w) (events (close_slot slot fn n) w)" for w
    using close_slot_open [OF assms(1), of fn n w] ensuresD [OF assms(2), of w]
    by (simp add: result_of_def [of "close_slot slot fn n"] events_close_slot [OF ensures_appends [OF assms(2)]] assms(1)
        split_beta)
qed

lemma Emulator_Close_stops:
  assumes "e_container e = Some ct" "e_closeState e = None"
  shows "ensures (Emulator_Close E e) (\<lambda>_ es. started_containers es = 0 \<and> stopped_containers es = 1)"
  unfolding Emulator_Close_def assms
  by (rule ensures_bind [OF close_slot_fresh [where Q = "\<lambda>_ es. started_containers es = 0 \<and> stopped_containers es = 1"]])
    (auto intro!: ensures_bind [OF terminate_owned_spec] ensures_return appends_intros)

lemma omni_Close_stops:
  assumes "o_container o' = Some ct" "o_closeState o' = ensureCloseState None"
  shows "ensures (omni_Close E o') (\<lambda>_ es. started_containers es = 0 \<and> stopped_containers es = 1)"
proof -
  let ?Q = "\<lambda>_ es. started_containers es = 0 \<and> stopped_containers es = 1"
  have open_slot: "is_open (Some (ensureCloseState None))"
    by (simp add: is_open_def ensureCloseState_def)
  have "ensures (do { err \<leftarrow> terminate_owned E (Some ct); State_Monad.return (err, ()) }) ?Q"
    by (rule ensures_bind [OF terminate_owned_spec]) (auto intro!: ensures_return appends_intros)
  note f = close_slot_fresh [OF open_slot this]
  show ?thesis
    unfolding omni_Close_def closeState_close_slot assms
    by (rule ensures_bind [where R = ?Q], rule ensures_bind [OF f]) (auto intro!: ensures_return appends_intros)
qed

lemma Emulator_capture_spec:
  "ensures (Emulator_captureImageProvenance E c e) (\<lambda>e' es. started_containers es = 0 \<and> stopped_containers es = 0 \<and>
     e_container e' = e_container e \<and> e_closeState e' = e_closeState e \<and> e_opts e' = e_opts e)"
  unfolding Emulator_captureImageProvenance_def
  by (rule ensures_if, rule ensures_return, simp, rule ensures_bind [OF observe_no_containers], rule ensures_return)
    (auto intro!: appends_intros)

lemma omni_capture_spec:
  "ensures (omni_captureImageProvenance E c e) (\<lambda>e' es. started_containers es = 0 \<and> stopped_containers es = 0 \<and>
     o_container e' = o_container e \<and> o_closeState e' = o_closeState e \<and> o_opts e' = o_opts e)"
  unfolding omni_captureImageProvenance_def
  by (rule ensures_if, rule ensures_return, simp, rule ensures_bind [OF observe_no_containers], rule ensures_return)
    (auto intro!: appends_intros)

lemma RunEmulator_balance: "ensures (RunEmulator E c options) container_balance"
  unfolding RunEmulator_def
  apply (intro resolved_then start_then newEmulator_spec)
  apply (rule ensures_bind [OF Emulator_capture_spec])
   apply (rule ensures_bind [OF setup_no_containers(1)])
      apply simp_all
    apply (rule ensures_option, rule ensures_return, simp add: after_start_def)
    apply (rule ensures_bind [OF Emulator_Close_stops])
      apply (auto simp: after_start_def intro!: ensures_return appends_intros)
  done

lemma RunEmulatorWithClients_balance: "ensures (RunEmulatorWithClients E c options) container_balance"
  unfolding RunEmulatorWithClients_def bootstrapAndCreateClients_def
  apply (intro resolved_then start_then newEmulator_spec)
  apply (rule ensures_bind [OF Emulator_capture_spec])
   apply (rule ensures_bind [OF setup_no_containers(3)])
      apply simp_all
    apply (rule ensures_sum)
     apply (rule ensures_bind [OF Emulator_Close_stops])
        apply (auto simp: after_start_def intro!: ensures_return appends_intros)
  done

lemma emulatorTeardown_spec:
  "ensures (emulatorTeardown E ct) (\<lambda>_ es. started_containers es = 0 \<and> stopped_containers es = 1)"
  unfolding emulatorTeardown_def by (auto intro!: ensures_bind_invoke ensures_return appends_intros)

lemma appends_emulatorTeardown [appends_intros]: "appends (emulatorTeardown E ct)"
  by (rule ensures_appends [OF emulatorTeardown_spec])

lemma NewEmulator_balance:
  "ensures (NewEmulator E c options) container_balance"
  "ensures (NewEmulatorWithClients E c options) container_balance"
  unfolding NewEmulator_def NewEmulatorWithClients_def
   apply (intro resolved_then start_then newEmulator_spec)
   apply (rule ensures_bind [OF setup_no_containers(1)])
      apply simp_all
   apply (rule ensures_option, rule ensures_return, simp add: after_start_def)
   apply (rule ensures_bind [OF emulatorTeardown_spec])
    apply (auto simp: after_start_def intro!: ensures_return appends_intros)[3]
  apply (intro resolved_then start_then newEmulator_spec)
  apply (rule ensures_bind [OF setup_no_containers(3)])
     apply simp_all
   apply (rule ensures_sum)
    apply (rule ensures_bind [OF emulatorTeardown_spec])
     apply (auto simp: after_start_def intro!: ensures_return appends_intros)
  done

text \<open>Omni: the start itself looks up the endpoint, and terminates the container when that fails.\<close>

definition fresh_omni :: "omniRuntime result \<Rightarrow> bool" where
  "fresh_omni r = (case r of Inl e \<Rightarrow> True
     | Inr o' \<Rightarrow> o_container o' \<noteq> None \<and> o_closeState o' = ensureCloseState None)"

lemma newOmni_spec:
  "ensures (newOmni E c opts) (\<lambda>(ct, err) es. stopped_containers es = 0 \<and> (err = None \<longrightarrow> ct \<noteq> None) \<and>
     started_containers es = (if ct = None then 0 else 1))"
  unfolding newOmni_def
  by (rule ensures_sum, rule ensures_return, simp, rule ensures_mono [OF run_container_spec]) (auto split: option.splits)

lemma appends_newOmni [appends_intros]: "appends (newOmni E c opts)"
  by (rule ensures_appends [OF newOmni_spec])

lemma appends_read [appends_intros]: "appends (State (\<lambda>w. (f w, w)))"
  by (simp add: appends_def world_after_def)

lemma ensures_bind_read:
  assumes "\<And>x. ensures (f x) Q"
  shows "ensures (State_Monad.bind (State (\<lambda>w. (g w, w))) f) Q"
proof (rule ensures_bind)
  show "ensures (State (\<lambda>w. (g w, w))) (\<lambda>x es. es = [])"
    by (simp add: ensures_def appends_read) (simp add: events_def world_after_def)
qed (auto intro: assms ensures_appends [OF assms])

lemma appends_omni_capture [appends_intros]: "appends (omni_captureImageProvenance E c e)"
  "appends (Emulator_captureImageProvenance E c e')"
  by (rule ensures_appends [OF omni_capture_spec], rule ensures_appends [OF Emulator_capture_spec])

lemma startOmni_spec: "ensures (startOmni E c opts) (\<lambda>r es. container_balance r es \<and> fresh_omni r)"
  unfolding startOmni_def Let_def
  apply (rule ensures_bind [OF newOmni_spec], rule ensures_prod)
   apply (simp only: prod.case)
   apply (rule ensures_option)
    apply (rule ensures_bind_read, rule ensures_bind_invoke, rule ensures_option)
      apply (rule ensures_bind [OF omni_capture_spec], rule ensures_return)
       apply (auto simp: container_balance_def fresh_omni_def intro!: ensures_bind_invoke ensures_return
        ensures_bind [OF terminate_after_error_spec] appends_intros)
  done

lemma appends_startOmni [appends_intros]: "appends (startOmni E c opts)"
  by (rule ensures_appends [OF startOmni_spec])

lemma start_omni_then:
  assumes "\<And>x. fresh_omni (Inr x) \<Longrightarrow> ensures (f x) after_start" and "\<And>x. appends (f x)"
  shows "ensures (State_Monad.bind (startOmni E c opts)
    (\<lambda>s. case s of Inl e \<Rightarrow> State_Monad.return (Inl e) | Inr x \<Rightarrow> f x)) container_balance"
  by (rule ensures_bind [OF startOmni_spec], rule ensures_sum)
    (auto simp: container_balance_def after_start_def intro!: ensures_return ensures_mono [OF assms(1)]
      appends_intros assms(2) split: sum.splits)

lemma omni_failed_spec:
  assumes "fresh_omni (Inr o')"
  shows "ensures (omni_bootstrap_failed E o' e) (\<lambda>_ es. started_containers es = 0 \<and> stopped_containers es = 1)"
proof -
  obtain ct where "o_container o' = Some ct" "o_closeState o' = ensureCloseState None"
    using assms by (auto simp: fresh_omni_def)
  from omni_Close_stops [OF this, of E] show ?thesis
    unfolding omni_bootstrap_failed_def
    by (rule ensures_bind) (auto intro!: ensures_return appends_intros)
qed

lemma appends_omni_failed [appends_intros]: "appends (omni_bootstrap_failed E o' e)"
  unfolding omni_bootstrap_failed_def by (intro appends_intros)

lemma appends_bootstrapOmni [appends_intros]: "appends (bootstrapOmni E c o' opts)"
  unfolding bootstrapOmni_def by (intro appends_intros)

lemma runOmni_balance: "ensures (runOmni E c options) container_balance"
  unfolding runOmni_def
  apply (intro resolved_then start_omni_then)
   apply (unfold bootstrapOmni_def)
   apply (rule ensures_bind [OF setup_no_containers(2)])
      apply simp_all
    apply (rule ensures_option, rule ensures_return, simp add: after_start_def)
    apply (rule ensures_bind [OF omni_failed_spec])
      apply (auto simp: after_start_def intro!: ensures_return appends_intros)
  done

lemma runOmniWithClients_balance: "ensures (runOmniWithClients E c options) container_balance"
  unfolding runOmniWithClients_def
  apply (intro resolved_then start_omni_then)
   apply (rule ensures_bind [OF setup_no_containers(3)])
      apply simp_all
    apply (rule ensures_sum)
     apply (rule ensures_bind [OF omni_failed_spec])
       apply (auto simp: after_start_def intro!: ensures_return appends_intros)
  done

lemma ensures_map_result:
  assumes "ensures m container_balance"
  shows "ensures (State_Monad.bind m (\<lambda>x. State_Monad.return (case x of Inl e \<Rightarrow> Inl e | Inr y \<Rightarrow> Inr (f y)))) container_balance"
  by (rule ensures_bind [OF assms], rule ensures_return)
    (auto simp: container_balance_def intro!: appends_intros split: sum.splits)

lemma Run_balance:
  "ensures (Run E c backend options) container_balance" "ensures (RunWithClients E c backend options) container_balance"
  unfolding Run_def RunWithClients_def run_as_def
  by (intro ensures_if ensures_map_result RunEmulator_balance runOmni_balance RunEmulatorWithClients_balance
      runOmniWithClients_balance balance_if_not_started)+

subsection \<open>Clients of a runtime this program owns\<close>

text \<open>The options of a runtime that owns its container.\<close>

fun owned_options :: "RuntimeHandle \<Rightarrow> emulatorOptions option" where
  "owned_options (H_Emulator (Some e)) = e_opts e"
| "owned_options (H_Omni (Some o')) = o_opts o'"
| "owned_options h = None"

definition touches_nothing :: "emulatorOptions \<Rightarrow> Clients outcome \<Rightarrow> event list \<Rightarrow> bool" where
  "touches_nothing opts out es \<longleftrightarrow>
     list_all (\<lambda>e. kind_of (fst e) \<in> {LockCall, WaitCall, ClientCall, SchemaCall}) es \<and>
     (\<forall>cl err. out = Returned (Some cl) err \<longrightarrow>
       \<not> dropDatabase cl \<and> \<not> dropInstance cl \<and> Clients_DatabasePath cl = opts_DatabasePath opts)"

lemma inherited_fields:
  "projectID (inheritedRuntimeOptions o') = projectID o'" "instanceID (inheritedRuntimeOptions o') = instanceID o'"
  "databaseID (inheritedRuntimeOptions o') = databaseID o'" "disableCreateInstance (inheritedRuntimeOptions o')"
  "disableCreateDatabase (inheritedRuntimeOptions o')"
  by (simp_all add: inheritedRuntimeOptions_def)

lemma valid_IDs_nonempty: "valid_IDs o' \<Longrightarrow> projectID o' \<noteq> [] \<and> instanceID o' \<noteq> [] \<and> databaseID o' \<noteq> []"
  by (auto simp: valid_IDs_def dest: valid_ID_no_special(4))

lemma neutral_same_database:
  "f \<in> set options \<Longrightarrow> list_all neutral_option options \<Longrightarrow> f x = Inr y \<Longrightarrow>
   projectID y = projectID x \<and> instanceID y = instanceID x \<and> databaseID y = databaseID x \<and>
   disableCreateInstance y = disableCreateInstance x \<and> disableCreateDatabase y = disableCreateDatabase x"
  using neutral_keeps_identity [of f x y] by (auto simp: list_all_iff keeps_identity_def)

lemma inherited_same_database:
  assumes "valid_IDs o'" and "list_all neutral_option options"
    and "base = inheritedRuntimeOptions o' \<or> base = (inheritedRuntimeOptions o')\<lparr>disableBackendGuardrails := g\<rparr>"
  shows "applyOptionsWithBase genv r base options = Inr x \<Longrightarrow>
      opts_DatabasePath x = opts_DatabasePath o' \<and> disableCreateInstance x \<and> disableCreateDatabase x"
    and "applyOmniOptionsWithBase genv r base options = Inr x \<Longrightarrow>
      opts_DatabasePath x = opts_DatabasePath o' \<and> disableCreateInstance x \<and> disableCreateDatabase x"
proof -
  have base: "projectID base = projectID o'" "instanceID base = instanceID o'" "databaseID base = databaseID o'"
    "disableCreateInstance base" "disableCreateDatabase base"
    using assms(3) by (auto simp: inherited_fields)
  have ne: "projectID base \<noteq> []" "instanceID base \<noteq> []" "databaseID base \<noteq> []"
    using valid_IDs_nonempty [OF assms(1)] base by simp_all
  have path: "opts_DatabasePath base = opts_DatabasePath o'" using base by (simp add: opts_DatabasePath_def)
  note keep = neutral_same_database [OF _ assms(2)]
  show "applyOptionsWithBase genv r base options = Inr x \<Longrightarrow>
      opts_DatabasePath x = opts_DatabasePath o' \<and> disableCreateInstance x \<and> disableCreateDatabase x"
    using emu.apply_with_base_same_database [OF _ keep ne] base path
    unfolding applyOptionsWithBase_eq by auto
  show "applyOmniOptionsWithBase genv r base options = Inr x \<Longrightarrow>
      opts_DatabasePath x = opts_DatabasePath o' \<and> disableCreateInstance x \<and> disableCreateDatabase x"
    using omni.apply_with_base_same_database [OF _ keep ne] base path
    unfolding applyOmniOptionsWithBase_eq by auto
qed

lemma touches_nothing_error: "touches_nothing opts (Returned None err) []"
  by (simp add: touches_nothing_def)

text \<open>Clients of one runtime instance, with the options it hands down.\<close>

lemma open_with_inherited:
  assumes "\<And>genv rnd x. rt_inheritedOptions genv rnd r options = Inr x \<Longrightarrow>
      opts_DatabasePath x = opts_DatabasePath opts \<and> disableCreateInstance x \<and> disableCreateDatabase x"
  shows "ensures (State_Monad.bind (with_process E (\<lambda>genv rnd. rt_inheritedOptions genv rnd r options))
     (\<lambda>applied. case applied of
         Inl e \<Rightarrow> State_Monad.return (Returned None (Some e), h)
       | Inr opts \<Rightarrow> do {
           clients \<leftarrow> bootstrapAndCreateClientsWithOptions E c uri opts co;
           State_Monad.return (returned clients, h)
         })) (\<lambda>(out, h') es. touches_nothing opts out es)"
proof (rule ensures_bind)
  show "ensures (with_process E (\<lambda>genv rnd. rt_inheritedOptions genv rnd r options))
      (\<lambda>y es. es = [] \<and> (\<exists>genv rnd. y = rt_inheritedOptions genv rnd r options))"
    by (auto simp: ensures_def appends_with_process)
      (auto simp: events_def world_after_def with_process_def result_of_def)
next
  fix y and es :: "event list"
  assume y: "es = [] \<and> (\<exists>genv rnd. y = rt_inheritedOptions genv rnd r options)"
  show "ensures (case y of
         Inl e \<Rightarrow> State_Monad.return (Returned None (Some e), h)
       | Inr opts \<Rightarrow> do {
           clients \<leftarrow> bootstrapAndCreateClientsWithOptions E c uri opts co;
           State_Monad.return (returned clients, h)
         }) (\<lambda>z es'. (\<lambda>(out, h') es. touches_nothing opts out es) z (es @ es'))"
  proof (rule ensures_sum)
    show "ensures (State_Monad.return (Returned None (Some e), h))
        (\<lambda>z es'. (\<lambda>(out, h') es. touches_nothing opts out es) z (es @ es'))" for e
      by (rule ensures_return) (simp add: y touches_nothing_error)
  next
    fix x assume "y = Inr x"
    with y assms have x: "opts_DatabasePath x = opts_DatabasePath opts" "disableCreateInstance x" "disableCreateDatabase x"
      by metis+
    show "ensures (do {
           clients \<leftarrow> bootstrapAndCreateClientsWithOptions E c uri x co;
           State_Monad.return (returned clients, h)
         }) (\<lambda>z es'. (\<lambda>(out, h') es. touches_nothing opts out es) z (es @ es'))"
      by (rule ensures_bind [OF setup_of_existing [OF x(2,3)]], rule ensures_return)
        (auto simp: y x(1) touches_nothing_def returned_def intro!: appends_intros split: sum.splits)
  qed
qed (intro appends_intros)

lemma OpenClients_owned:
  assumes "owned_options h = Some opts" and "valid_IDs opts" and "list_all neutral_option options"
  shows "ensures (OpenClients E c h options) (\<lambda>(out, h') es. touches_nothing opts out es)"
proof -
  consider e where "h = H_Emulator (Some e)" "e_opts e = Some opts"
    | o' where "h = H_Omni (Some o')" "o_opts o' = Some opts"
    using assms(1) by (cases h rule: owned_options.cases) auto
  then show ?thesis
  proof cases
    case 1
    with inherited_same_database(1) [OF assms(2,3) disjI1 [OF refl]]
    show ?thesis
      by (simp add: OpenClients_def) (rule open_with_inherited [where r = "RI_Emulator e", unfolded rt_inheritedOptions.simps],
          simp add: Emulator_inheritedOptions_def)
  next
    case 2
    with inherited_same_database(2) [OF assms(2,3) disjI2 [OF refl]]
    show ?thesis
      by (simp add: OpenClients_def) (rule open_with_inherited [where r = "RI_Omni o'", unfolded rt_inheritedOptions.simps],
          simp add: omni_inheritedOptions_def)
  qed
qed

subsection \<open>Closing an environment\<close>

lemma close_both_run:
  assumes "\<And>r. appends (cl E r)"
  shows "events (close_both E cl (Some c) (Some r)) w =
      events (Clients_Close E c) w @ events (cl E r) (world_after (Clients_Close E c) w)"
    and "fst (result_of (close_both E cl (Some c) (Some r)) w) =
      errors_Join [fst (result_of (Clients_Close E c) w), fst (result_of (cl E r) (world_after (Clients_Close E c) w))]"
  unfolding close_both_def Clients_Close_ptr_def close_ptr_def
  by (simp_all add: events_bind result_of_bind world_after_bind appends_intros assms split_beta)

lemma close_slot_result:
  "is_open slot \<Longrightarrow> fst (result_of (close_slot slot fn n) w) = fst (result_of fn w)"
  using close_slot_open [of slot fn n w] by (simp add: result_of_def)

lemma Env_Close_open:
  assumes "is_open (env_closeState v)" "env_Clients v = Some c" "env_emulator v = Some e"
  shows "events (Env_Close E v) w =
      events (Clients_Close E c) w @ events (Emulator_Close E e) (world_after (Clients_Close E c) w)"
    and "fst (result_of (Env_Close E v) w) =
      errors_Join [fst (result_of (Clients_Close E c) w), fst (result_of (Emulator_Close E e) (world_after (Clients_Close E c) w))]"
proof -
  note a = appends_close_both [OF appends_Emulator_Close]
  show "events (Env_Close E v) w =
      events (Clients_Close E c) w @ events (Emulator_Close E e) (world_after (Clients_Close E c) w)"
    unfolding Env_Close_def
    by (simp add: events_bind appends_intros events_close_slot a assms close_both_run split_beta)
  show "fst (result_of (Env_Close E v) w) =
      errors_Join [fst (result_of (Clients_Close E c) w), fst (result_of (Emulator_Close E e) (world_after (Clients_Close E c) w))]"
    unfolding Env_Close_def
    by (simp add: result_of_bind assms close_slot_result close_both_run appends_Emulator_Close split_beta)
qed

lemma Emulator_Close_open:
  assumes "is_open (e_closeState e)" "e_container e = Some ct"
  shows "events (Emulator_Close E e) w = [(TerminateContainer newCloseContext ct, rpc E w (TerminateContainer newCloseContext ct))]"
    and "fst (result_of (Emulator_Close E e) w) = rpc E w (TerminateContainer newCloseContext ct)"
  unfolding Emulator_Close_def
  by (simp_all add: events_bind result_of_bind appends_intros events_close_slot close_slot_result assms terminate_owned_def split_beta)

text \<open>Nil-safe, and closing again makes no call and returns what the first close returned.\<close>

definition safe_close :: "(env \<Rightarrow> 'o option \<Rightarrow> (error option \<times> 'o option) io) \<Rightarrow> bool" where
  "safe_close Close \<longleftrightarrow> (\<forall>E. Close E None = State_Monad.return (None, None)) \<and> (\<forall>E x w w'.
     result_of (Close E (snd (result_of (Close E x) w))) w' = result_of (Close E x) w \<and>
     events (Close E (snd (result_of (Close E x) w))) w' = [])"

end
