(* ===== verification/Attach_Facts.thy ===== *)
theory Attach_Facts
  imports Container_Facts
begin

section \<open>Facts on Omni's command and on attached runtimes\<close>

text \<open>
  The command of the Omni container after its customizers; the endpoints that the environment
  configures; what an attached runtime takes from its endpoint and hands to its clients; and
  lazy handles that are attached.
\<close>

subsection \<open>The command of the Omni container\<close>

definition keeps_command :: "env \<Rightarrow> ContainerCustomizer \<Rightarrow> bool" where
  "keeps_command E cu \<longleftrightarrow> (\<forall>req req'. customize E cu req = Inr req' \<longrightarrow> req_Cmd req' = req_Cmd req)"

text \<open>Without a change of the command it follows the image.\<close>

lemma customizeOmni_follows:
  assumes "list_all (keeps_command E) cs" and "req_Cmd req = omniCmd (req_Image req)"
    and "customizeOmni E True req cs = Inr req'"
  shows "req_Cmd req' = omniCmd (req_Image req')"
  using assms
proof (induction cs arbitrary: req)
  case Nil
  then show ?case by simp
next
  case (Cons cu cs)
  from Cons.prems(3) obtain r where r: "customize E cu req = Inr r"
    by (auto split: sum.splits)
  with Cons.prems(1) have same: "req_Cmd r = req_Cmd req" by (simp add: keeps_command_def)
  show ?case
    using Cons.IH [of "r\<lparr>req_Cmd := omniCmd (req_Image r)\<rparr>"] Cons.IH [of r] Cons.prems r same
    by (simp add: Let_def split: if_splits)
qed

text \<open>Once the command is changed the customizers are simply composed.\<close>

lemma customizeOmni_plain: "customizeOmni E False req cs = fold_result (map (customize E) cs) req"
  by (induction cs arbitrary: req) (simp_all add: Let_def split: sum.splits)

lemma customizeOmni_owned:
  assumes "customizeOmni E b req before = Inr r" and "customize E cu r = Inr r'" and "req_Cmd r' \<noteq> req_Cmd r"
  shows "customizeOmni E b req (before @ cu # rest) = fold_result (map (customize E) rest) r'"
  using assms(1)
proof (induction "before" arbitrary: b req)
  case Nil
  with assms(2,3) show ?case by (simp add: customizeOmni_plain Let_def)
next
  case (Cons x xs)
  then show ?case by (auto simp: Let_def split: sum.splits if_splits)
qed

subsection \<open>Endpoints of the environment\<close>

lemma LoadEndpointForBackend_env:
  assumes "trimSpace (getenv E endpointFileEnv) = []" and "EndpointConfiguredForBackend (getenv E) b"
  shows "LoadEndpointForBackend E b = State_Monad.return (Inr
    (if b = BackendOmni then omniEnvEndpoint (getenv E) else emulatorEnvEndpoint (getenv E)))"
  using assms env_endpoints_valid [of "getenv E"]
  by (auto simp: LoadEndpointForBackend_def EndpointConfiguredForBackend_def Let_def validated_def split: if_splits)

lemma LoadEndpointForBackend_unconfigured:
  assumes "\<not> EndpointConfiguredForBackend (getenv E) b"
  shows "\<exists>e. LoadEndpointForBackend E b = State_Monad.return (Inl e)"
  using assms
  by (auto simp: LoadEndpointForBackend_def EndpointConfiguredForBackend_def Let_def split: if_splits)

lemma env_endpoint_backends:
  "en_Backend (omniEnvEndpoint genv) = BackendOmni" "en_Backend (emulatorEnvEndpoint genv) = BackendEmulator"
  by (simp_all add: omniEnvEndpoint_def emulatorEnvEndpoint_def plainEndpoint_def)

lemma ReadEndpointFile_valid:
  "result_of (ReadEndpointFile E path) w = Inr ep \<Longrightarrow> Endpoint_validate ep = None"
  by (auto simp: ReadEndpointFile_def result_of_bind validated_Inr_iff split: sum.splits)

lemma LoadEndpointForBackend_sound:
  assumes "result_of (LoadEndpointForBackend E b) w = Inr ep"
  shows "en_Backend ep = b \<and> Endpoint_validate ep = None"
  using assms
  by (auto simp: LoadEndpointForBackend_def result_of_bind validated_Inr_iff env_endpoint_backends Let_def
      split: if_splits sum.splits dest: ReadEndpointFile_valid)

subsection \<open>Attached runtimes\<close>

lemma finalizeAttachedOptions_fields:
  assumes "finalizeAttachedOptions genv r ep options = Inr opts" and "list_all neutral_option options"
    and "en_ProjectID ep \<noteq> []" "en_InstanceID ep \<noteq> []"
  shows "finalized opts \<and> projectID opts = en_ProjectID ep \<and> instanceID opts = en_InstanceID ep \<and>
    disableCreateInstance opts \<and> \<not> disableCreateDatabase opts"
proof -
  let ?base = "zeroOptions\<lparr>projectID := en_ProjectID ep, instanceID := en_InstanceID ep, disableCreateInstance := True\<rparr>"
  have "applyOptionsWithBase genv r ?base options = Inr opts \<or> applyOmniOptionsWithBase genv r ?base options = Inr opts"
    using assms(1) by (auto simp: finalizeAttachedOptions_def Let_def split: if_splits)
  then obtain x where x: "fold_result options ?base = Inr x" and laws: "finalizer_laws x opts"
    by (auto simp: applyOptionsWithBase_def applyOmniOptionsWithBase_def split: sum.splits
        intro: finalizeOptions_laws finalizeOmniOptions_laws)
  have "keeps_identity ?base x"
    by (rule neutral_list_keeps_identity [OF _ x]) (use assms(2) in \<open>simp add: list_all_iff\<close>)
  then show ?thesis
    using laws assms(3,4) by (simp add: keeps_identity_def finalizer_laws_def same_policy_def zeroOptions_def)
qed

lemma validated_IDs: "Endpoint_validate ep = None \<Longrightarrow> en_ProjectID ep \<noteq> [] \<and> en_InstanceID ep \<noteq> []"
  by (auto simp: Endpoint_validate_None_iff)

lemma NewAttachedRuntime_fields:
  assumes "NewAttachedRuntime genv r ep options = Inr a"
  shows "\<exists>opts. a = \<lparr>a_backend = en_Backend ep, a_opts = Some opts, a_uri = en_URI ep, a_reportedProvenance = en_Provenance ep\<rparr> \<and>
    Endpoint_validate ep = None \<and> finalizeAttachedOptions genv r ep options = Inr opts"
  using assms by (auto simp: NewAttachedRuntime_def cloneEndpointProvenance_def split: option.splits sum.splits)

lemma EndpointFromRuntime_fields:
  assumes "EndpointFromRuntime (Some r) = Inr ep"
  shows "ep = (plainEndpoint (backendForRuntime r) (trimSpace (rt_URI r)) (rt_ProjectID r) (rt_InstanceID r))
      \<lparr>en_Provenance := endpointProvenanceFromRuntime r\<rparr> \<and> Endpoint_validate ep = None \<and> trimSpace (rt_URI r) \<noteq> []"
  using assms by (auto simp: EndpointFromRuntime_def Let_def validated_Inr_iff split: if_splits)

lemma attach_round_trip:
  assumes "EndpointFromRuntime (Some r) = Inr ep" and "NewAttachedRuntime genv rnd ep options = Inr a"
    and "list_all neutral_option options"
  shows "a_backend a = backendForRuntime r \<and> Attached_URI (Some a) = trimSpace (rt_URI r) \<and>
    Attached_ProjectID (Some a) = rt_ProjectID r \<and> Attached_InstanceID (Some a) = rt_InstanceID r \<and>
    EndpointFromRuntime (Some (RI_Attached a)) = Inr (ep\<lparr>en_Provenance := None\<rparr>)"
proof -
  obtain opts where a: "a = \<lparr>a_backend = en_Backend ep, a_opts = Some opts, a_uri = en_URI ep,
      a_reportedProvenance = en_Provenance ep\<rparr>" and v: "Endpoint_validate ep = None"
    and f: "finalizeAttachedOptions genv rnd ep options = Inr opts"
    using NewAttachedRuntime_fields [OF assms(2)] by blast
  have o': "projectID opts = en_ProjectID ep" "instanceID opts = en_InstanceID ep"
    using finalizeAttachedOptions_fields [OF f assms(3)] validated_IDs [OF v] by simp_all
  have ep: "ep = (plainEndpoint (backendForRuntime r) (trimSpace (rt_URI r)) (rt_ProjectID r) (rt_InstanceID r))
      \<lparr>en_Provenance := endpointProvenanceFromRuntime r\<rparr>" "trimSpace (rt_URI r) \<noteq> []"
    using EndpointFromRuntime_fields [OF assms(1)] by simp_all
  have "Endpoint_validate (ep\<lparr>en_Provenance := None\<rparr>) = None"
    using v by (simp add: Endpoint_validate_None_iff)
  then show ?thesis
    using o' ep
    by (simp add: a EndpointFromRuntime_def Attached_URI_def Attached_ProjectID_def Attached_InstanceID_def
        Attached_get_def plainEndpoint_def Let_def validated_def)
qed

text \<open>The evidence that a runtime observed is reported, without the claim of an observation.\<close>

lemma attached_provenance:
  assumes "EndpointFromRuntime (Some r) = Inr ep" and "NewAttachedRuntime genv rnd ep options = Inr a"
    and "rt_imageProvenance r = Inr p" and "ip_Source p = ImageProvenanceContainerInspect"
  shows "Attached_imageProvenance (Some a) =
    Inr (p\<lparr>ip_Source := ImageProvenanceEndpointFile, ip_ObservedByThisProcess := False\<rparr>)"
proof -
  have "endpointProvenanceFromRuntime r = endpointSnapshot (Some p)"
    using assms(3,4)
    by (cases r) (auto simp: Emulator_imageProvenance_def omni_imageProvenance_def Attached_imageProvenance_def
        imageProvenanceFromEndpoint_def zeroImageProvenance_def provenance_sources split: option.splits)
  moreover obtain q where q: "endpointSnapshot (Some p) = Some q"
    using assms(4) by (simp add: endpointSnapshot_def)
  ultimately have "en_Provenance ep = Some q"
    using EndpointFromRuntime_fields [OF assms(1)] by simp
  with NewAttachedRuntime_fields [OF assms(2)] provenance_through_endpoint [OF q] show ?thesis
    by (auto simp: Attached_imageProvenance_def)
qed

text \<open>
  What clients of an attached runtime inherit when they give no option: the setup and the
  teardown policy of the constructor, but never the creation of the instance.
\<close>

lemma attached_inherits:
  assumes "a_opts a = Some opts"
  shows "\<exists>x. Attached_inheritedOptions genv r (Some a) [] = Inr x \<and> opts_DatabasePath x = opts_DatabasePath opts \<and>
    disableCreateInstance x \<and> disableCreateDatabase x = disableCreateDatabase opts \<and>
    schemaTeardown x = schemaTeardown opts \<and> randomDatabaseID x = randomDatabaseID opts \<and>
    randomDatabaseIDResolved x = randomDatabaseIDResolved opts \<and>
    shouldDropDatabase x = shouldDropDatabase opts \<and> \<not> shouldDropInstance x \<and>
    setupDDLs x = setupDDLs opts \<and> setupDMLs x = setupDMLs opts \<and>
    setupFileDescriptorSet x = setupFileDescriptorSet opts \<and> clientConfig x = clientConfig opts \<and>
    clientOptionsForClient x = clientOptionsForClient opts \<and> disableBackendGuardrails x = disableBackendGuardrails opts"
proof -
  have "Attached_inheritedOptions genv r (Some a) [] = Inr (preserveAttachedBootstrapOptions (inheritedRuntimeOptions opts) opts)"
    by (simp add: Attached_inheritedOptions_def assms)
  then show ?thesis
    unfolding preserve_eq
    by (cases "schemaTeardown opts";
        simp add: opts_DatabasePath_def inherited_fields shouldDropDatabase_def shouldDropInstance_def shouldDropResource_def;
        simp add: inheritedRuntimeOptions_def)
qed

subsection \<open>Lazy handles that are attached\<close>

text \<open>The state holds no runtime that this process would have to terminate.\<close>

definition attached_state :: "LazyRuntime \<Rightarrow> bool" where
  "attached_state lr \<longleftrightarrow> lr_attachedEndpoint lr \<noteq> None \<and>
     (\<forall>r. lz_runtime (lr_state lr) = Some r \<longrightarrow> (\<exists>a. r = RI_Attached a))"

lemma attached_get:
  assumes "attached_state lr"
  shows "attached_state (snd (result_of (LazyRuntime_get E c lr) w))" and "events (LazyRuntime_get E c lr) w = []"
proof -
  obtain ep where ep: "lr_attachedEndpoint lr = Some ep" using assms by (auto simp: attached_state_def)
  have "\<exists>x y. run_state (LazyRuntime_start E c lr) w = (Returned x y, w) \<and> (\<forall>r. x = Some r \<longrightarrow> (\<exists>a. r = RI_Attached a))"
    by (auto simp: LazyRuntime_start_def ep with_process_def returned_def split: sum.splits)
  then obtain x y where xy: "run_state (LazyRuntime_start E c lr) w = (Returned x y, w)"
    "\<forall>r. x = Some r \<longrightarrow> (\<exists>a. r = RI_Attached a)" by blast
  show "attached_state (snd (result_of (LazyRuntime_get E c lr) w))" "events (LazyRuntime_get E c lr) w = []"
    using assms xy
    by (auto simp: result_of_def events_def world_after_def LazyRuntime_get_def lazy_get_def lazy_start_def
        attached_state_def)
qed

lemma attached_close:
  assumes "attached_state lr"
  shows "attached_state (snd (result_of (LazyRuntime_Close E lr) w))" and "events (LazyRuntime_Close E lr) w = []"
    and "lz_closeErr (lr_state lr) = None \<Longrightarrow> fst (result_of (LazyRuntime_Close E lr) w) = None"
  using assms
  by (auto simp: result_of_def events_def world_after_def LazyRuntime_Close_def lazy_close_def attached_state_def
      Attached_Close_def Let_def split: option.splits)

lemma fresh_attached:
  assumes "result_of (NewLazyRuntimeFromEnvOrStart E b options) w = Inr lr"
    and "EndpointConfiguredForBackend (getenv E) b"
  shows "attached_state lr" and "lr_state lr = zeroLazyState"
  using assms
  by (auto simp: NewLazyRuntimeFromEnvOrStart_def result_of_bind NewLazyRuntime_def attached_state_def zeroLazyState_def
      Let_def split: sum.splits)

end
