(* ===== verification/Serve_Facts.thy ===== *)
theory Serve_Facts
  imports Container_Facts Command
begin

section \<open>Serving, attaching and the command of an Omni container, as facts\<close>

subsection \<open>A served container is stopped\<close>

text \<open>A runtime as a start returns it: its container is there and nothing has closed it.\<close>

definition fresh_runtime :: "runtimeInstance \<Rightarrow> bool" where
  "fresh_runtime r =
     (case r of
        RI_Emulator e \<Rightarrow> e_container e \<noteq> None \<and> e_closeState e = None
      | RI_Omni o' \<Rightarrow> fresh_omni (Inr o')
      | RI_Attached a \<Rightarrow> False)"

lemma RunEmulator_fresh:
  "ensures (RunEmulator E c options) (\<lambda>r es. case r of Inl e \<Rightarrow> True | Inr emu \<Rightarrow> fresh_runtime (RI_Emulator emu))"
  unfolding RunEmulator_def
  apply (rule ensures_bind_process, rule ensures_sum, rule ensures_return, simp)
  apply (rule ensures_bind [OF newEmulator_spec], rule ensures_sum, rule ensures_return, simp)
   apply (rule ensures_bind [OF Emulator_capture_spec])
    apply (rule ensures_bind [OF setup_no_containers(1)])
       apply simp_all
     apply (rule ensures_option, rule ensures_return, simp add: fresh_runtime_def)
     apply (rule ensures_bind [OF Emulator_Close_stops])
       apply (auto intro!: ensures_return appends_intros)
  done

lemma runOmni_fresh:
  "ensures (runOmni E c options) (\<lambda>r es. case r of Inl e \<Rightarrow> True | Inr o' \<Rightarrow> fresh_runtime (RI_Omni o'))"
  unfolding runOmni_def bootstrapOmni_def
  apply (rule ensures_bind_process, rule ensures_sum, rule ensures_return, simp)
  apply (rule ensures_bind [OF startOmni_spec], rule ensures_sum, rule ensures_return, simp)
   apply (rule ensures_bind [OF setup_no_containers(2)])
      apply simp_all
    apply (rule ensures_option, rule ensures_return, simp add: fresh_runtime_def)
    apply (rule ensures_bind [OF omni_failed_spec])
      apply (auto intro!: ensures_return appends_intros)
  done

lemma Run_fresh:
  "ensures (Run E c backend options) (\<lambda>r es. container_balance r es \<and> (case r of Inl e \<Rightarrow> True | Inr rt \<Rightarrow> fresh_runtime rt))"
proof (rule ensures_conj [OF Run_balance(1)])
  have map: "ensures (run_as f m) (\<lambda>r es. case r of Inl e \<Rightarrow> True | Inr rt \<Rightarrow> fresh_runtime rt)"
    if "ensures m (\<lambda>r es. case r of Inl e \<Rightarrow> True | Inr x \<Rightarrow> fresh_runtime (f x))" for f and m :: "'r result io"
    unfolding run_as_def
    by (rule ensures_bind [OF that], rule ensures_return) (auto intro!: appends_intros split: sum.splits)
  show "ensures (Run E c backend options) (\<lambda>r es. case r of Inl e \<Rightarrow> True | Inr rt \<Rightarrow> fresh_runtime rt)"
    unfolding Run_def
    by (intro ensures_if map RunEmulator_fresh runOmni_fresh ensures_return) simp
qed

lemma rt_Close_stops:
  assumes "fresh_runtime r"
  shows "ensures (rt_Close E r) (\<lambda>_ es. started_containers es = 0 \<and> stopped_containers es = 1)"
proof (cases r)
  case (RI_Emulator e)
  with assms obtain ct where "e_container e = Some ct" "e_closeState e = None" by (auto simp: fresh_runtime_def)
  from Emulator_Close_stops [OF this] RI_Emulator show ?thesis
    by (auto intro!: ensures_bind ensures_return appends_intros)
next
  case (RI_Omni o')
  with assms obtain ct where "o_container o' = Some ct" "o_closeState o' = ensureCloseState None"
    by (auto simp: fresh_runtime_def fresh_omni_def)
  from omni_Close_stops [OF this] RI_Omni show ?thesis
    by (auto intro!: ensures_bind ensures_return appends_intros)
next
  case (RI_Attached a)
  with assms show ?thesis by (simp add: fresh_runtime_def)
qed

lemma only_os_step [only_intros]: "kind_of c \<in> K \<Longrightarrow> only K (os_step E c check done failed)"
  by (auto simp: only_def emits_def appends_os_step events_def world_after_def run_os_step split: option.splits)

lemma kind_of_os [simp]:
  "kind_of (MkdirAll p m) = ProcessCall" "kind_of (WriteTemp p d) = ProcessCall" "kind_of (ChmodTemp p m) = ProcessCall"
  "kind_of (CloseTemp p) = ProcessCall" "kind_of (RenameFile p q) = ProcessCall" "kind_of (RemoveFile p) = ProcessCall"
  "kind_of (CreateTemp p q) = ProcessCall" "kind_of (AwaitCancel c) = ProcessCall" "kind_of (ReadFile p) = ProcessCall"
  "kind_of (WriteFile p d m) = ProcessCall"
  by (simp_all add: kind_of_def)

lemma only_CreateTemp [only_intros]: "ProcessCall \<in> K \<Longrightarrow> only K (os_CreateTemp E dir pattern)"
  by (auto simp: only_def emits_def appends_def events_def world_after_def os_CreateTemp_def run_os_step Let_def
      split: option.splits)

lemma only_await_done [only_intros]: "ProcessCall \<in> K \<Longrightarrow> only K (await_done E c)"
  by (auto simp: only_def emits_def appends_def events_def world_after_def await_done_def Let_def)

lemma only_SaveEndpoint [only_intros]: "ProcessCall \<in> K \<Longrightarrow> only K (SaveEndpoint E path ep)"
  unfolding SaveEndpoint_def save_temp_def os_MkdirAll_def tmp_Write_def tmp_Chmod_def tmp_Close_def os_Rename_def
    os_Remove_def
  by (intro only_intros) simp_all

lemma only_serve_body [only_intros]: "ProcessCall \<in> K \<Longrightarrow> only K (serve_body E c runtime path)"
  unfolding serve_body_def os_Remove_def by (intro only_intros) simp_all

lemma Serve_stops:
  "ensures (Serve E c backend path options) (\<lambda>r es. started_containers es = stopped_containers es)"
proof -
  note body = only_balanced [OF only_serve_body [of "{ProcessCall}" E c _ path], simplified]
  show ?thesis
    unfolding Serve_def
    apply (rule ensures_bind [OF Run_fresh], rule ensures_sum, rule ensures_return)
      apply (simp add: container_balance_def)
     apply (rule ensures_bind [OF body])
      apply (rule ensures_bind [OF rt_Close_stops])
        apply (auto simp: container_balance_def intro!: ensures_return appends_intros ensures_appends [OF body])
    done
qed

end
