(* ===== verification/Lifecycle_Facts.thy ===== *)
theory Lifecycle_Facts
  imports Serve_Facts
begin

section \<open>The life of a served backend: serve cleans up, stop finds and ends it\<close>

text \<open>
  Facts about \<open>ServeFromConfig\<close> and \<open>StopFromConfig\<close> as the two ends of one life: what serve leaves of
  its files, that stop reads the process of serve from either file, and what stop answers.
\<close>

subsection \<open>Stop finds the process of serve\<close>

lemma valid_utf8_ascii_text: "list_all (in_bytes 0 0x7F) s \<Longrightarrow> valid_utf8 s"
  by (induction s) (simp_all add: valid_utf8_ascii del: valid_utf8.simps(2))

lemma valid_utf8_RFC3339: "valid_utf8 (format_RFC3339 now)"
proof (rule valid_utf8_ascii_text)
  have "list_all (in_bytes 0 0x7F) (show_padded w i)" for w i
    using show_padded_digits [of w i] by (auto simp: list_all_iff is_digit_def in_bytes_def)
  then show "list_all (in_bytes 0 0x7F) (format_RFC3339 now)"
    by (simp add: format_RFC3339_def civil_text_def Let_def split_beta in_bytes_def)
qed

lemma servedEndpoint_text_ok:
  assumes "endpoint_text_ok ep" and "minInt \<le> getpid E" "getpid E \<le> maxInt"
  shows "endpoint_text_ok (servedEndpoint E now ep)"
proof -
  have "valid_utf8 ''spanemuboost serve''" by code_simp
  with assms valid_utf8_RFC3339 [of now] show ?thesis by (simp add: endpoint_text_ok_def servedEndpoint_def)
qed

text \<open>
  What is at a path: the PID file that \<open>ServeFromConfig\<close> has written, or the endpoint file that
  \<open>Serve\<close> has saved for an endpoint whose texts are valid UTF-8.
\<close>

definition pid_file_of_serve :: "env \<Rightarrow> string \<Rightarrow> os_file \<Rightarrow> bool" where
  "pid_file_of_serve E path f \<longleftrightarrow>
     (\<exists>w. os_fail E w (WriteFile path (pid_text (getpid E)) 384) = None \<and>
        files (world_after (os_WriteFile E path (pid_text (getpid E)) 384) w) path = Some f)"

definition endpoint_file_of_serve :: "env \<Rightarrow> string \<Rightarrow> os_file \<Rightarrow> bool" where
  "endpoint_file_of_serve E path f \<longleftrightarrow>
     (\<exists>w now ep. endpoint_text_ok ep \<and> temp_name_new E path w \<and>
        result_of (SaveEndpoint E path (servedEndpoint E now ep)) w = None \<and>
        files (world_after (SaveEndpoint E path (servedEndpoint E now ep)) w) path = Some f)"

lemma stop_reads_pid_file:
  assumes "pid_file_of_serve E (trimSpace (st_PIDFile cfg)) f" and "files w (trimSpace (st_PIDFile cfg)) = Some f"
    and "trimSpace (st_PIDFile cfg) \<noteq> []" and "os_fail E' w (ReadFile (trimSpace (st_PIDFile cfg))) = None"
    and "0 < getpid E" "getpid E \<le> maxInt"
  shows "result_of (resolveServePID E' cfg) w = Inr (getpid E)"
proof -
  from assms(1) have "content f = pid_text (getpid E)"
    unfolding pid_file_of_serve_def using WriteFile_written by (metis option.inject)
  from resolveServePID_reads [OF assms(2) this assms(3-6)] show ?thesis .
qed

lemma stop_reads_endpoint_file:
  assumes "endpoint_file_of_serve E (trimSpace (st_EndpointFile cfg)) f"
    and "files w (trimSpace (st_EndpointFile cfg)) = Some f"
    and "trimSpace (st_PIDFile cfg) = []" "trimSpace (st_EndpointFile cfg) \<noteq> []"
    and "os_fail E' w (ReadFile (trimSpace (st_EndpointFile cfg))) = None"
    and "0 < getpid E" "getpid E \<le> maxInt"
  shows "result_of (resolveServePID E' cfg) w = Inr (getpid E)"
proof -
  let ?path = "trimSpace (st_EndpointFile cfg)"
  from assms(1) obtain w' now ep where ep: "endpoint_text_ok ep" "temp_name_new E ?path w'"
    and saved: "result_of (SaveEndpoint E ?path (servedEndpoint E now ep)) w' = None"
    and f: "files (world_after (SaveEndpoint E ?path (servedEndpoint E now ep)) w') ?path = Some f"
    by (auto simp: endpoint_file_of_serve_def)
  have ok: "endpoint_text_ok (servedEndpoint E now ep)"
    using servedEndpoint_text_ok [OF ep(1)] assms(6,7) by (simp add: minInt_def)
  have "result_of (ReadEndpointFile E' ?path) w = Inr (servedEndpoint E now ep)"
    by (rule SaveEndpoint_then_Read [OF ep(2) ok saved]) (simp_all add: assms f)
  with assms(3,4,6) show ?thesis
    by (simp add: resolveServePID_def Let_def result_of_bind servedEndpoint_def)
qed

subsection \<open>How stop ends\<close>

text \<open>
  A signal fails only when the process is done: \<open>stop\<close> may signal the server.  Nothing is assumed of
  a process that was signalled; one that was killed and that nobody has reaped yet still answers
  the probes, which are signal 0.  The background context never ends.
\<close>

definition signals_fail_when_done :: "env \<Rightarrow> bool" where
  "signals_fail_when_done E \<longleftrightarrow> (\<forall>w pid s e. rpc E w (SendSignal pid s) = Some e \<longrightarrow> isProcessDone E e)"

definition background_never_ends :: "env \<Rightarrow> bool" where
  "background_never_ends E \<longleftrightarrow> (\<forall>w d. rpc E w (AwaitTimer Background d) = None)"

text \<open>Files can be removed.\<close>

definition removable :: "env \<Rightarrow> string \<Rightarrow> bool" where
  "removable E path \<longleftrightarrow> (\<forall>w. os_fail E w (RemoveFile path) = None)"

lemma remove_stale_ok: "removable E path \<Longrightarrow> fst (run_state (remove_stale E path) w) = None"
  by (auto simp: remove_stale_def os_Remove_def run_os_step exists_check_def removable_def isNotExist_def split: option.splits)

lemma cleanup_nil:
  assumes "removable E (trimSpace (st_EndpointFile cfg))"
  shows "ensures (finishStopCleanup E cfg fuel) (\<lambda>r es. r \<in> {None, Some None} \<and> signals es = [])"
proof (rule ensures_conj [OF _ silent_ensures(1)], rule ensuresI)
  have "fst (run_state (await_endpoint E c path dl fuel) w) \<in> {None, Some None}" if "removable E path" for c path dl w
    using remove_stale_ok [OF that]
    by (auto simp: await_endpoint_def split_beta Let_def split: option.splits bool.splits)
  with assms show "result_of (finishStopCleanup E cfg fuel) w \<in> {None, Some None}" for w
    by (simp add: result_of_def finishStopCleanup_def waitForEndpointCleanup_def split_beta Let_def)
qed (rule ensures_appends [OF silent_ensures(1)])

text \<open>A process was found gone when it refused a signal or a probe.\<close>

definition refused :: "(int \<times> signal \<times> error option) list \<Rightarrow> bool" where
  "refused sg = list_ex (\<lambda>(p, s, r). r \<noteq> None) sg"

lemma refused_simps [simp]:
  "\<not> refused []" "refused ((p, s, r) # sg) \<longleftrightarrow> r \<noteq> None \<or> refused sg" "refused (xs @ ys) \<longleftrightarrow> refused xs \<or> refused ys"
  "\<not> refused (replicate n (p, s, None))"
  by (simp_all add: refused_def) (simp add: list_ex_iff)

lemma await_exit_background:
  assumes "background_never_ends E"
  shows "fst (run_state (await_exit E Background pid deadline fuel) w) \<in> {None, Some Gone, Some Alive}"
proof (induction fuel arbitrary: w)
  case (Suc fuel)
  then show ?case
    using assms by (auto simp: run_wait_for split_beta background_never_ends_def split: option.splits)
qed simp

lemma await_exit_answer:
  assumes "background_never_ends E"
  shows "ensures (await_exit E Background pid deadline fuel)
    (\<lambda>r es. r = Some Gone \<and> refused (signals es) \<or> r \<in> {None, Some Alive} \<and> \<not> refused (signals es))"
proof -
  from await_exit_background [OF assms] have "ensures (await_exit E Background pid deadline fuel) (\<lambda>r es. r \<in> {None, Some Gone, Some Alive})"
    by (intro ensuresI ensures_appends [OF await_exit_signals]) (simp only: result_of_def)
  from ensures_conj [OF this await_exit_signals] show ?thesis by (rule ensures_mono) auto
qed

text \<open>
  The answer of \<open>stop\<close>, unless it runs out of fuel: nil when the process was found gone, else that it
  did not exit.
\<close>

definition did_not_exit :: "int \<Rightarrow> Duration \<Rightarrow> error" where
  "did_not_exit pid timeout = Errorf ''spanemuboost: serve process %d did not exit within %s'' [AInt pid, AInt timeout]"

definition stop_answer :: "int \<Rightarrow> Duration \<Rightarrow> error option option \<Rightarrow> event list \<Rightarrow> bool" where
  "stop_answer pid timeout r es \<longleftrightarrow>
     r = None \<or> r = Some (if refused (signals es) then None else Some (did_not_exit pid timeout))"

lemma stop_answer_refused: "r \<in> {None, Some None} \<Longrightarrow> refused (signals es) \<Longrightarrow> stop_answer pid t r es"
  by (auto simp: stop_answer_def)

lemma stop_answer_append: "\<not> refused (signals xs) \<Longrightarrow> stop_answer pid t r es \<Longrightarrow> stop_answer pid t r (xs @ es)"
  by (simp add: stop_answer_def)

lemma ensures_bind_signal:
  assumes "signals_fail_when_done E" and "\<And>x. appends (f x)"
    and "ensures (f None) (\<lambda>y es. Q y ((SendSignal pid s, None) # es))"
    and "\<And>e. isProcessDone E e \<Longrightarrow> ensures (f (Some e)) (\<lambda>y es. Q y ((SendSignal pid s, Some e) # es))"
  shows "ensures (State_Monad.bind (invoke E (SendSignal pid s)) f) Q"
proof (rule ensures_bind [where R = "\<lambda>r es. es = [(SendSignal pid s, r)] \<and> (\<forall>e. r = Some e \<longrightarrow> isProcessDone E e)"])
  show "ensures (invoke E (SendSignal pid s)) (\<lambda>r es. es = [(SendSignal pid s, r)] \<and> (\<forall>e. r = Some e \<longrightarrow> isProcessDone E e))"
    using assms(1) by (intro ensuresI) (auto simp: signals_fail_when_done_def)
  show "ensures (f r) (\<lambda>y es'. Q y (es @ es'))"
    if "es = [(SendSignal pid s, r)] \<and> (\<forall>e. r = Some e \<longrightarrow> isProcessDone E e)" for r es
    using assms(3,4) that by (cases r) auto
qed (rule assms(2))

lemma stop_killed_answer:
  assumes "removable E (trimSpace (st_EndpointFile cfg))" "background_never_ends E"
  shows "ensures (stop_killed E Background cfg pid t fuel) (stop_answer pid t)"
  unfolding stop_killed_def
  apply (rule ensures_bind_time_Now)
   apply (rule ensures_bind [OF await_exit_answer [OF assms(2)]])
    apply (elim disjE conjE)
     apply (auto simp: stop_answer_def did_not_exit_def intro!: ensures_return ensures_mono [OF cleanup_nil [OF assms(1)]]) [2]
   apply (auto intro!: appends_intros ensures_appends [OF cleanup_nil [OF assms(1)]]
      ensures_appends [OF await_exit_answer [OF assms(2)]] split: option.splits liveness.splits)
  done

lemma stop_kill_answer:
  assumes "removable E (trimSpace (st_EndpointFile cfg))" "background_never_ends E" "signals_fail_when_done E"
  shows "ensures (stop_kill E Background cfg pid t fuel) (stop_answer pid t)"
  unfolding stop_kill_def
  by (rule ensures_bind_signal [OF assms(3)])
    (auto simp: stop_answer_def intro!: appends_intros ensures_mono [OF cleanup_nil [OF assms(1)]]
      ensures_mono [OF stop_killed_answer [OF assms(1,2)]] ensures_appends [OF cleanup_nil [OF assms(1)]]
      ensures_appends [OF stop_killed_answer [OF assms(1,2)]] split: option.splits)

lemma stop_term_answer:
  assumes "removable E (trimSpace (st_EndpointFile cfg))" "background_never_ends E" "signals_fail_when_done E"
  shows "ensures (stop_term E Background cfg pid t fuel) (stop_answer pid t)"
proof -
  note a = ensures_appends [OF cleanup_nil [OF assms(1)]] ensures_appends [OF stop_kill_answer [OF assms]]
    ensures_appends [OF await_exit_answer [OF assms(2)]]
  show ?thesis
    unfolding stop_term_def
    apply (rule ensures_bind_signal [OF assms(3)])
      apply (auto intro!: appends_intros a split: option.splits liveness.splits) [1]
     apply simp
     apply (rule ensures_bind_time_Now)
      apply (rule ensures_bind [OF await_exit_answer [OF assms(2)]])
       apply (elim disjE conjE)
        apply (auto simp: stop_answer_def intro!: ensures_return ensures_mono [OF cleanup_nil [OF assms(1)]]
        ensures_mono [OF stop_kill_answer [OF assms]]) [2]
      apply (auto intro!: appends_intros a split: option.splits liveness.splits) [2]
    apply (auto simp: stop_answer_def intro!: ensures_mono [OF cleanup_nil [OF assms(1)]])
    done
qed

lemma appends_stop_term: "appends (stop_term E c cfg pid t fuel)"
  by (rule ensures_appends [OF stop_term_signals])

lemma stop_after_resolving:
  assumes "result_of (resolveServePID E cfg) w = Inr pid" and "\<And>w. rpc E w (FindProcess pid) = None"
  defines "w1 \<equiv> record_event (FindProcess pid, None) (world_after (resolveServePID E cfg) w)"
  shows "result_of (StopFromConfig E c cfg fuel) w = result_of (stop_term E c cfg pid (stopTimeout cfg) fuel) w1"
    and "world_after (StopFromConfig E c cfg fuel) w = world_after (stop_term E c cfg pid (stopTimeout cfg) fuel) w1"
    and "signals (events (StopFromConfig E c cfg fuel) w) = signals (events (stop_term E c cfg pid (stopTimeout cfg) fuel) w1)"
proof -
  note found = assms(2) [of "world_after (resolveServePID E cfg) w"]
  show "result_of (StopFromConfig E c cfg fuel) w = result_of (stop_term E c cfg pid (stopTimeout cfg) fuel) w1"
    "world_after (StopFromConfig E c cfg fuel) w = world_after (stop_term E c cfg pid (stopTimeout cfg) fuel) w1"
    by (simp_all add: StopFromConfig_def result_of_bind world_after_bind assms(1) found w1_def)
  note resolved = ensures_appends [OF silent_ensures(2)]
  have "signals (events (resolveServePID E cfg) w) = []" by (rule ensuresD [OF silent_ensures(2)])
  then show "signals (events (StopFromConfig E c cfg fuel) w) = signals (events (stop_term E c cfg pid (stopTimeout cfg) fuel) w1)"
    unfolding StopFromConfig_def
    by (subst events_bind [OF resolved]) (auto simp: assms(1) found w1_def events_bind appends_stop_term
        intro!: appends_intros split: sum.splits option.splits)
qed

lemma stop_answers:
  assumes "timers_fire_late E" "stop_fuel cfg \<le> fuel" "removable E (trimSpace (st_EndpointFile cfg))"
    and "signals_fail_when_done E" "background_never_ends E"
    and "result_of (resolveServePID E cfg) w = Inr pid" and "\<And>w. rpc E w (FindProcess pid) = None"
  shows "result_of (StopFromConfig E Background cfg fuel) w =
    Some (if refused (signals (events (StopFromConfig E Background cfg fuel) w)) then None else Some (did_not_exit pid (stopTimeout cfg)))"
proof -
  let ?w1 = "record_event (FindProcess pid, None) (world_after (resolveServePID E cfg) w)"
  have "result_of (StopFromConfig E Background cfg fuel) w \<noteq> None"
    using stop_returns [OF assms(1,2)] by (simp add: result_of_def)
  with ensuresD [OF stop_term_answer [OF assms(3,5,4)], of pid "stopTimeout cfg" fuel ?w1] show ?thesis
    by (auto simp: stop_after_resolving [OF assms(6,7)] stop_answer_def)
qed

text \<open>Before it says so, \<open>stop\<close> has given the process its timeout twice.\<close>

lemma await_exit_alive:
  "fst (run_state (await_exit E c pid deadline fuel) w) = Some Alive \<Longrightarrow>
   deadline \<le> clock (snd (run_state (await_exit E c pid deadline fuel) w))"
proof (induction fuel arbitrary: w)
  case (Suc fuel)
  then show ?case by (auto simp: run_wait_for split_beta split: option.splits if_splits)
qed simp

lemma cleanup_not_alive:
  assumes "removable E (trimSpace (st_EndpointFile cfg))"
  shows "fst (run_state (finishStopCleanup E cfg fuel) w) \<noteq> Some (Some e)"
  using ensuresD [OF cleanup_nil [OF assms], of fuel w] by (auto simp: result_of_def)

lemma stop_killed_patient:
  assumes "removable E (trimSpace (st_EndpointFile cfg))" "background_never_ends E"
    and "fst (run_state (stop_killed E Background cfg pid t fuel) w) = Some (Some e)"
  shows "clock w + t \<le> clock (snd (run_state (stop_killed E Background cfg pid t fuel) w))"
  using assms(3) await_exit_alive [of E Background pid "clock w + t" fuel w]
    await_exit_background [OF assms(2), of pid "clock w + t" fuel w]
  by (auto simp: stop_killed_def split_beta cleanup_not_alive [OF assms(1)] split: option.splits liveness.splits)

lemma stop_kill_patient:
  assumes "removable E (trimSpace (st_EndpointFile cfg))" "background_never_ends E" "signals_fail_when_done E"
    and "fst (run_state (stop_kill E Background cfg pid t fuel) w) = Some (Some e)"
  shows "clock w + t \<le> clock (snd (run_state (stop_kill E Background cfg pid t fuel) w))"
  using assms(3,4) stop_killed_patient [OF assms(1,2), of pid t fuel "record_event (SendSignal pid SIGKILL, None) w" e]
  by (auto simp: stop_kill_def split_beta cleanup_not_alive [OF assms(1)] signals_fail_when_done_def split: option.splits)

lemma stop_term_patient:
  assumes "removable E (trimSpace (st_EndpointFile cfg))" "background_never_ends E" "signals_fail_when_done E"
    and "fst (run_state (stop_term E Background cfg pid t fuel) w) = Some (Some e)"
  shows "clock w + 2 * t \<le> clock (snd (run_state (stop_term E Background cfg pid t fuel) w))"
proof -
  let ?w = "record_event (SendSignal pid SIGTERM, None) w"
  let ?r = "run_state (await_exit E Background pid (clock ?w + t) fuel) ?w"
  have alive: "rpc E w (SendSignal pid SIGTERM) = None" "fst ?r = Some Alive"
    "run_state (stop_term E Background cfg pid t fuel) w = run_state (stop_kill E Background cfg pid t fuel) (snd ?r)"
    using assms(3,4) await_exit_background [OF assms(2), of pid "clock ?w + t" fuel ?w]
    by (auto simp: stop_term_def split_beta cleanup_not_alive [OF assms(1)] signals_fail_when_done_def split: option.splits)
  have "clock w + t \<le> clock (snd ?r)" using await_exit_alive [OF alive(2)] by simp
  moreover have "clock (snd ?r) + t \<le> clock (snd (run_state (stop_kill E Background cfg pid t fuel) (snd ?r)))"
    using assms(4) unfolding alive(3) by (rule stop_kill_patient [OF assms(1-3)])
  ultimately show ?thesis unfolding alive(3) by simp
qed

lemma resolving_takes_no_time: "clock (world_after (resolveServePID E cfg) w) = clock w"
proof -
  have "clock (snd (run_state (os_ReadFile E path) w)) = clock w" for path
    by (auto simp: os_ReadFile_def run_os_step exists_check_def record_event_def split: option.splits)
  then show ?thesis
    by (simp add: resolveServePID_def ReadEndpointFile_def world_after_def Let_def split_beta split: sum.splits)
qed

lemma stop_is_patient:
  assumes "removable E (trimSpace (st_EndpointFile cfg))" "signals_fail_when_done E" "background_never_ends E"
    and "result_of (resolveServePID E cfg) w = Inr pid" and "\<And>w. rpc E w (FindProcess pid) = None"
    and "result_of (StopFromConfig E Background cfg fuel) w = Some (Some e)"
  shows "clock w + 2 * stopTimeout cfg \<le> clock (world_after (StopFromConfig E Background cfg fuel) w)"
  using stop_term_patient [OF assms(1,3,2), of pid "stopTimeout cfg" fuel
      "record_event (FindProcess pid, None) (world_after (resolveServePID E cfg) w)" e, folded result_of_def world_after_def]
    assms(6)
  by (simp add: stop_after_resolving [OF assms(4,5)] resolving_takes_no_time)

subsection \<open>Serve cleans up\<close>

lemma remove_ok:
  "removable E path \<Longrightarrow> files (world_after (os_Remove E path) w) = (files w)(path := None)"
  by (auto simp: world_after_def os_Remove_def run_os_step removable_def exists_check_def fun_eq_iff record_event_def)

text \<open>Only the operations on files and the waits touch files; a program that makes none of them does not.\<close>

definition keeps_files :: "'a io \<Rightarrow> bool" where
  "keeps_files m \<longleftrightarrow> (\<forall>w. files (world_after m w) = files w)"

named_theorems keeps_files_intros

lemma keeps_files_basic [keeps_files_intros]:
  "keeps_files (State_Monad.return x)" "keeps_files (invoke E c)" "keeps_files (construct E c)"
  "keeps_files (with_process E g)" "keeps_files time_Now" "keeps_files (run_container E call)"
  "keeps_files (inspect E c' ct)" "keeps_files (State (\<lambda>w. (h w, w)))"
  by (simp_all add: keeps_files_def world_after_def record_event_def with_process_def time_Now_def run_container_def inspect_def)

lemma keeps_files_bind [keeps_files_intros]:
  "keeps_files m \<Longrightarrow> (\<And>x. keeps_files (f x)) \<Longrightarrow> keeps_files (m \<bind> f)"
  by (simp add: keeps_files_def world_after_bind)

lemma keeps_files_cases [keeps_files_intros]:
  "(b \<Longrightarrow> keeps_files m) \<Longrightarrow> (\<not> b \<Longrightarrow> keeps_files n) \<Longrightarrow> keeps_files (if b then m else n)"
  "keeps_files m \<Longrightarrow> (\<And>y. keeps_files (f y)) \<Longrightarrow> keeps_files (case x of None \<Rightarrow> m | Some y \<Rightarrow> f y)"
  "(\<And>e. keeps_files (g e)) \<Longrightarrow> (\<And>y. keeps_files (h y)) \<Longrightarrow> keeps_files (case z of Inl e \<Rightarrow> g e | Inr y \<Rightarrow> h y)"
  "(\<And>a b. keeps_files (k a b)) \<Longrightarrow> keeps_files (case p of (a, b) \<Rightarrow> k a b)"
  "(\<And>v. keeps_files (l v)) \<Longrightarrow> keeps_files (let v = y in l v)"
  by (auto split: option.splits sum.splits prod.splits)

lemma keeps_files_closeState: "keeps_files fn \<Longrightarrow> keeps_files (closeState_close s fn n)"
  unfolding closeState_close_def by (intro keeps_files_intros)

lemma keeps_files_terminate: "keeps_files (terminate_owned E ct)"
  unfolding terminate_owned_def by (cases ct) (auto intro: keeps_files_intros)

lemma keeps_files_closes:
  "keeps_files (Emulator_Close E e)" "keeps_files (omni_Close E o')"
  unfolding Emulator_Close_def omni_Close_def close_slot_def
  by (intro keeps_files_intros keeps_files_closeState keeps_files_terminate)+

lemma keeps_files_rt_Close: "keeps_files (rt_Close E r)"
  by (cases r) (auto simp: Attached_Close_def intro!: keeps_files_intros keeps_files_closes)

text \<open>Starting a runtime touches no file.\<close>

lemma keeps_files_calls [keeps_files_intros]:
  "keeps_files m \<Longrightarrow> keeps_files n \<Longrightarrow> keeps_files (deferred m n)"
  "keeps_files m' \<Longrightarrow> keeps_files (withInstanceAdminLock E c p m' x)"
  "keeps_files m'' \<Longrightarrow> keeps_files (run_as g m'')"
  unfolding deferred_def withInstanceAdminLock_def run_as_def
  by (intro keeps_files_intros; assumption)+

lemmas start_defs = newEmulator_def terminateContainerAfterStartupError_def Emulator_captureImageProvenance_def
  omni_captureImageProvenance_def observeContainerImage_def bootstrap_def bootstrapWithManagedClientConfig_def
  with_instance_client_def with_database_client_def bootstrapInstance_def bootstrapDatabase_def createInstance_def
  createDatabase_def createDatabaseLocked_def updateDDLs_def executeDMLs_def executeDMLsWithClient_def
  newOmni_def startOmni_def bootstrapOmni_def omni_bootstrap_failed_def

lemma keeps_files_Run: "keeps_files (Run E c backend options)"
  unfolding Run_def RunEmulator_def runOmni_def start_defs
  by (intro keeps_files_intros keeps_files_closes)

lemma serve_body_cleans:
  assumes "result_of (serve_body E c r path) w = None" and "path \<noteq> []" "removable E path"
  shows "files (world_after (serve_body E c r path) w) path = None"
  using assms
  by (auto simp: serve_body_def result_of_bind world_after_bind remove_ok split: sum.splits option.splits)

lemma Serve_cleans:
  assumes "result_of (Serve E c b path options) w = None" and "path \<noteq> []" "removable E path"
  shows "files (world_after (Serve E c b path options) w) path = None"
  using assms serve_body_cleans [OF _ assms(2,3)] keeps_files_rt_Close
  by (auto simp: Serve_def result_of_bind world_after_bind keeps_files_def split_beta split: sum.splits)

lemma ServeFromConfig_cleans:
  assumes "result_of (ServeFromConfig E c cfg) w = None" and "removable E (sc_EndpointFile cfg)" "removable E (sc_PIDFile cfg)"
  shows "\<forall>path \<in> {sc_EndpointFile cfg, sc_PIDFile cfg} - {[]}. files (world_after (ServeFromConfig E c cfg) w) path = None"
proof (cases "sc_PIDFile cfg = []")
  case True
  with assms have "files (world_after (ServeFromConfig E c cfg) w) (sc_EndpointFile cfg) = None"
    if "sc_EndpointFile cfg \<noteq> []"
    using that Serve_cleans [of E c "sc_Backend cfg" "sc_EndpointFile cfg" "sc_Options cfg" w]
    by (auto simp: ServeFromConfig_def)
  then show ?thesis by (cases "sc_EndpointFile cfg = []") (auto simp: True)
next
  case False
  with assms show ?thesis
    using Serve_cleans [of E c "sc_Backend cfg" "sc_EndpointFile cfg" "sc_Options cfg"]
    by (auto simp: ServeFromConfig_def result_of_bind world_after_bind remove_ok split: option.splits)
qed

end
