(* ===== verification/Serve_and_Stop.thy ===== *)
theory Serve_and_Stop
  imports Lifecycle_Facts
begin

section \<open>Serving and stopping composed\<close>

text \<open>
  \<open>serve\<close> blocks in one place, the wait for its context, so its run has two halves: coming up, until
  the files are there and the wait begins, and going down.  \<open>stop\<close> is another process, with an
  environment of its own; what the two share are the files.
\<close>

definition serve_up :: "env \<Rightarrow> ctx \<Rightarrow> ServeConfig \<Rightarrow> runtimeInstance result io" where
  "serve_up E c cfg = do {
     err \<leftarrow> (if sc_PIDFile cfg \<noteq> [] then os_WriteFile E (sc_PIDFile cfg) (pid_text (getpid E)) 384
            else State_Monad.return None);
     case err of
       Some e \<Rightarrow> State_Monad.return (Inl e)
     | None \<Rightarrow> do {
         started \<leftarrow> Run E c (sc_Backend cfg) (sc_Options cfg);
         case started of
           Inl e \<Rightarrow> State_Monad.return (Inl e)
         | Inr runtime \<Rightarrow>
             (case EndpointFromRuntime (Some runtime) of
                Inl e \<Rightarrow> State_Monad.return (Inl e)
              | Inr endpoint \<Rightarrow> do {
                  now \<leftarrow> time_Now;
                  err \<leftarrow> (if sc_EndpointFile cfg \<noteq> []
                         then SaveEndpoint E (sc_EndpointFile cfg) (servedEndpoint E now endpoint)
                         else State_Monad.return None);
                  State_Monad.return (case err of Some e \<Rightarrow> Inl e | None \<Rightarrow> Inr runtime)
                })
       }
   }"

definition serve_down :: "env \<Rightarrow> ctx \<Rightarrow> ServeConfig \<Rightarrow> runtimeInstance \<Rightarrow> error option io" where
  "serve_down E c cfg runtime = do {
     ctxErr \<leftarrow> await_done E c;
     _ \<leftarrow> (if sc_EndpointFile cfg \<noteq> [] then os_Remove E (sc_EndpointFile cfg) else State_Monad.return None);
     _ \<leftarrow> rt_Close E runtime;
     _ \<leftarrow> (if sc_PIDFile cfg \<noteq> [] then os_Remove E (sc_PIDFile cfg) else State_Monad.return None);
     State_Monad.return (if ctxErr \<noteq> None \<and> ctxErr \<noteq> Some Canceled then ctxErr else None)
   }"

text \<open>A serve that has come up goes down next, and that is all of \<open>ServeFromConfig\<close>.\<close>

lemma serve_splits:
  assumes "result_of (serve_up E c cfg) w = Inr runtime"
  shows "result_of (ServeFromConfig E c cfg) w = result_of (serve_down E c cfg runtime) (world_after (serve_up E c cfg) w)"
    and "world_after (ServeFromConfig E c cfg) w = world_after (serve_down E c cfg runtime) (world_after (serve_up E c cfg) w)"
  using assms
  by (auto simp: serve_up_def serve_down_def ServeFromConfig_def Serve_def serve_body_def
      result_of_bind world_after_bind split: option.splits sum.splits if_splits)

subsection \<open>What is there when serve waits\<close>

text \<open>
  What the theorems assume of a configuration, as the command line makes it and as \<open>os.CreateTemp\<close>
  is documented: the paths have no space around them and differ, there is an endpoint file, and
  a temporary name is new when at most the PID file has come into being.
\<close>

definition serve_paths_ok :: "env \<Rightarrow> ServeConfig \<Rightarrow> world \<Rightarrow> bool" where
  "serve_paths_ok E cfg w \<longleftrightarrow>
     sc_EndpointFile cfg \<noteq> [] \<and> sc_PIDFile cfg \<noteq> sc_EndpointFile cfg \<and>
     trimSpace (sc_EndpointFile cfg) = sc_EndpointFile cfg \<and> trimSpace (sc_PIDFile cfg) = sc_PIDFile cfg \<and>
     (\<forall>w'. dom (files w') \<subseteq> insert (sc_PIDFile cfg) (dom (files w)) \<longrightarrow> temp_name_new E (sc_EndpointFile cfg) w')"

lemma WriteFile_ok:
  assumes "result_of (os_WriteFile E p data m) w = None"
  shows "os_fail E w (WriteFile p data m) = None" and "dom (files (world_after (os_WriteFile E p data m) w)) = insert p (dom (files w))"
  using assms
  by (auto simp: os_WriteFile_def result_of_def world_after_def run_os_step no_check_def written_def record_event_def Let_def
      split: option.splits)

lemma serve_up_files:
  assumes up: "result_of (serve_up E c cfg) w = Inr r" and paths: "serve_paths_ok E cfg w"
    and utf8: "\<And>ep. EndpointFromRuntime (Some r) = Inr ep \<Longrightarrow> endpoint_text_ok ep"
  shows "\<exists>f. files (world_after (serve_up E c cfg) w) (sc_EndpointFile cfg) = Some f \<and> endpoint_file_of_serve E (sc_EndpointFile cfg) f"
    and "sc_PIDFile cfg \<noteq> [] \<Longrightarrow>
      \<exists>f. files (world_after (serve_up E c cfg) w) (sc_PIDFile cfg) = Some f \<and> pid_file_of_serve E (sc_PIDFile cfg) f"
proof -
  let ?pid = "sc_PIDFile cfg" and ?path = "sc_EndpointFile cfg"
  let ?pidWrite = "os_WriteFile E ?pid (pid_text (getpid E)) 384" and ?run = "Run E c (sc_Backend cfg) (sc_Options cfg)"
  define w1 where "w1 = (if ?pid \<noteq> [] then world_after ?pidWrite w else w)"
  define w3 where "w3 = world_after time_Now (world_after ?run w1)"
  from up paths obtain ep now where wrote: "?pid \<noteq> [] \<Longrightarrow> result_of ?pidWrite w = None"
    and ep: "EndpointFromRuntime (Some r) = Inr ep"
    and saved: "result_of (SaveEndpoint E ?path (servedEndpoint E now ep)) w3 = None"
    and ws: "world_after (serve_up E c cfg) w = world_after (SaveEndpoint E ?path (servedEndpoint E now ep)) w3"
    unfolding w1_def w3_def serve_paths_ok_def
    by (auto simp: serve_up_def result_of_bind world_after_bind split: option.splits sum.splits if_splits)
  have f3: "files w3 = files w1"
    using keeps_files_Run keeps_files_basic(5) by (simp add: w3_def keeps_files_def)
  have "dom (files w3) \<subseteq> insert ?pid (dom (files w))"
    using WriteFile_ok(2) [OF wrote] by (auto simp: f3 w1_def)
  then have new: "temp_name_new E ?path w3" using paths unfolding serve_paths_ok_def by blast
  from SaveEndpoint_saved [OF new, of "servedEndpoint E now ep"] saved
  obtain g where files_s: "files (world_after (serve_up E c cfg) w) = (files w3)(?path \<mapsto> g)"
    unfolding ws by (auto simp: saved_def)
  with new utf8 [OF ep] saved show "\<exists>f. files (world_after (serve_up E c cfg) w) ?path = Some f \<and> endpoint_file_of_serve E ?path f"
    unfolding endpoint_file_of_serve_def ws by (metis fun_upd_same)
  show "\<exists>f. files (world_after (serve_up E c cfg) w) ?pid = Some f \<and> pid_file_of_serve E ?pid f" if "?pid \<noteq> []"
  proof -
    note ok = WriteFile_ok(1) [OF wrote [OF that]]
    from WriteFile_written [OF ok] obtain f where f: "files (world_after ?pidWrite w) ?pid = Some f" by blast
    with ok have "pid_file_of_serve E ?pid f" unfolding pid_file_of_serve_def by blast
    with f show ?thesis using that paths by (simp add: files_s f3 w1_def serve_paths_ok_def)
  qed
qed

subsection \<open>What is served can be stopped\<close>

text \<open>
  The environment of \<open>stop\<close>: a timer that fired has let its time pass and the background context never
  ends, as documented; \<open>stop\<close> may signal the server, read the files and remove the endpoint file, and
  \<open>os.FindProcess\<close> gives a process, as it does on Unix.
\<close>

definition stop_env_ok :: "env \<Rightarrow> StopConfig \<Rightarrow> bool" where
  "stop_env_ok E cfg \<longleftrightarrow>
     timers_fire_late E \<and> signals_fail_when_done E \<and> background_never_ends E \<and> removable E (trimSpace (st_EndpointFile cfg)) \<and>
     (\<forall>w path. os_fail E w (ReadFile path) = None) \<and> (\<forall>w pid. rpc E w (FindProcess pid) = None)"

text \<open>The configuration of \<open>stop\<close> for the files of a \<open>serve\<close>.\<close>

definition stop_for :: "ServeConfig \<Rightarrow> Duration \<Rightarrow> StopConfig" where
  "stop_for cfg timeout = \<lparr>st_EndpointFile = sc_EndpointFile cfg, st_PIDFile = sc_PIDFile cfg, st_Timeout = timeout\<rparr>"

lemma stop_resolves_served:
  assumes up: "result_of (serve_up E c cfg) w = Inr r" and paths: "serve_paths_ok E cfg w"
    and utf8: "\<And>ep. EndpointFromRuntime (Some r) = Inr ep \<Longrightarrow> endpoint_text_ok ep"
    and pid: "0 < getpid E" "getpid E \<le> maxInt"
    and same: "\<And>path. path \<in> {sc_EndpointFile cfg, sc_PIDFile cfg} \<Longrightarrow> files w' path = files (world_after (serve_up E c cfg) w) path"
    and env: "stop_env_ok E' (stop_for cfg timeout)"
  shows "result_of (resolveServePID E' (stop_for cfg timeout)) w' = Inr (getpid E)"
proof -
  have read: "os_fail E' w' (ReadFile p) = None" for p using env by (simp add: stop_env_ok_def)
  have trim: "trimSpace (st_PIDFile (stop_for cfg timeout)) = sc_PIDFile cfg"
    "trimSpace (st_EndpointFile (stop_for cfg timeout)) = sc_EndpointFile cfg" "sc_EndpointFile cfg \<noteq> []"
    using paths by (simp_all add: stop_for_def serve_paths_ok_def)
  show ?thesis
  proof (cases "sc_PIDFile cfg = []")
    case True
    with serve_up_files(1) [OF up paths utf8] stop_reads_endpoint_file [of E "stop_for cfg timeout" _ w' E'] trim same read pid
    show ?thesis by auto
  next
    case False
    with serve_up_files(2) [OF up paths utf8] stop_reads_pid_file [of E "stop_for cfg timeout" _ w' E'] trim same read pid
    show ?thesis by auto
  qed
qed

lemma served_stops:
  assumes "result_of (serve_up E c cfg) w = Inr r" "serve_paths_ok E cfg w"
    and "\<And>ep. EndpointFromRuntime (Some r) = Inr ep \<Longrightarrow> endpoint_text_ok ep" "0 < getpid E" "getpid E \<le> maxInt"
    and "\<And>path. path \<in> {sc_EndpointFile cfg, sc_PIDFile cfg} \<Longrightarrow> files w' path = files (world_after (serve_up E c cfg) w) path"
    and env: "stop_env_ok E' (stop_for cfg timeout)" and fuel: "stop_fuel (stop_for cfg timeout) \<le> fuel"
  defines "stop \<equiv> StopFromConfig E' Background (stop_for cfg timeout) fuel" and "t \<equiv> stopTimeout (stop_for cfg timeout)"
  shows "stop_signals (getpid E) (signals (events stop w'))"
    and "refused (signals (events stop w')) \<Longrightarrow> result_of stop w' = Some None \<and> files (world_after stop w') (sc_EndpointFile cfg) = None"
    and "\<not> refused (signals (events stop w')) \<Longrightarrow>
      result_of stop w' = Some (Some (did_not_exit (getpid E) t)) \<and> clock w' + 2 * t \<le> clock (world_after stop w')"
proof -
  have pid: "result_of (resolveServePID E' (stop_for cfg timeout)) w' = Inr (getpid E)"
    by (rule stop_resolves_served [OF assms(1-7)])
  have ok: "timers_fire_late E'" "signals_fail_when_done E'" "background_never_ends E'"
    "removable E' (trimSpace (st_EndpointFile (stop_for cfg timeout)))" "\<And>w. rpc E' w (FindProcess (getpid E)) = None"
    using env by (simp_all add: stop_env_ok_def)
  note answer = stop_answers [OF ok(1) fuel ok(4,2,3) pid ok(5), folded stop_def t_def]
  show "stop_signals (getpid E) (signals (events stop w'))"
    using ensuresD [OF stop_term_signals] by (simp add: stop_def stop_after_resolving(3) [OF pid ok(5)])
  have path: "trimSpace (st_EndpointFile (stop_for cfg timeout)) = sc_EndpointFile cfg" "sc_EndpointFile cfg \<noteq> []"
    using assms(2) by (simp_all add: stop_for_def serve_paths_ok_def)
  show "result_of stop w' = Some None \<and> files (world_after stop w') (sc_EndpointFile cfg) = None"
    if "refused (signals (events stop w'))"
    using answer that stop_leaves_none(4) [OF path, of E' Background fuel]
    by (simp add: stop_def leaves_none_def result_of_def world_after_def)
  show "result_of stop w' = Some (Some (did_not_exit (getpid E) t)) \<and> clock w' + 2 * t \<le> clock (world_after stop w')"
    if "\<not> refused (signals (events stop w'))"
    using answer that stop_is_patient [OF ok(4,2,3) pid ok(5), of fuel "did_not_exit (getpid E) t", folded stop_def t_def]
    by simp
qed

text \<open>And the served process ends well, when what it waited for is the cancellation.\<close>

lemma served_ends:
  assumes "result_of (serve_up E c cfg) w = Inr r"
    and "rpc E (world_after (serve_up E c cfg) w) (AwaitCancel c) \<in> {None, Some Canceled}"
  shows "result_of (ServeFromConfig E c cfg) w = None"
proof -
  have "result_of (await_done E c) (world_after (serve_up E c cfg) w) \<in> {None, Some Canceled}"
    using assms(2) by (simp add: await_done_def result_of_def Let_def)
  then show ?thesis unfolding serve_splits(1) [OF assms(1)] by (auto simp: serve_down_def result_of_bind)
qed

end
