(* ===== verification/Test_Sessions.thy ===== *)
theory Test_Sessions
  imports Serve_Facts Attach_Facts
begin

section \<open>A handle used by tests leaves no container behind (testing.go)\<close>

text \<open>
  \<open>TestMain\<close> runs tests that share a handle and closes it.  The tests are any sequence of
  operations on the handle: getting the runtime, opening clients against it and closing them,
  closing it early.  The contract that a handle needs for that is a locale: every operation keeps
  account of the containers that the handle still owes a termination, and \<open>Close\<close> settles it.
\<close>

subsection \<open>The account of a handle\<close>

text \<open>Events that start as many containers as they terminate, but for what is owed before and after.\<close>

definition account :: "nat \<Rightarrow> nat \<Rightarrow> event list \<Rightarrow> bool" where
  "account before after es \<longleftrightarrow> started_containers es + before = stopped_containers es + after"

lemma account_trans: "account a b xs \<Longrightarrow> account b c ys \<Longrightarrow> account a c (xs @ ys)"
  by (simp add: account_def)

lemma account_idle: "started_containers es = 0 \<Longrightarrow> stopped_containers es = 0 \<Longrightarrow> account a a es"
  by (simp add: account_def)

fun uses :: "('u \<Rightarrow> 'h \<Rightarrow> 'h io) \<Rightarrow> 'u list \<Rightarrow> 'h \<Rightarrow> 'h io" where
  "uses op [] h = State_Monad.return h"
| "uses op (u # us) h = do { h \<leftarrow> op u h; uses op us h }"

text \<open>Tests that use the handle and end with an exit code.\<close>

definition tests_using :: "('u \<Rightarrow> 'h \<Rightarrow> 'h io) \<Rightarrow> 'u list \<Rightarrow> int \<Rightarrow> 'h \<Rightarrow> (int \<times> 'h) io" where
  "tests_using op us code h = do { h \<leftarrow> uses op us h; State_Monad.return (code, h) }"

locale accountable =
  fixes op :: "env \<Rightarrow> 'u \<Rightarrow> 'h \<Rightarrow> 'h io" and close :: "env \<Rightarrow> 'h \<Rightarrow> (error option \<times> 'h) io"
    and ok :: "'h \<Rightarrow> bool" and owes :: "'h \<Rightarrow> nat"
  assumes op_account: "ok h \<Longrightarrow> ensures (op E u h) (\<lambda>h' es. ok h' \<and> account (owes h) (owes h') es)"
    and op_appends: "appends (op E u h)"
    and close_settles: "ok h \<Longrightarrow> ensures (close E h) (\<lambda>(e, h') es. ok h' \<and> account (owes h) 0 es)"
    and close_appends: "appends (close E h)"
begin

lemma uses_appends: "appends (uses (op E) us h)"
  by (induction us arbitrary: h) (auto intro!: appends_intros op_appends)

lemma uses_account:
  "ok h \<Longrightarrow> ensures (uses (op E) us h) (\<lambda>h' es. ok h' \<and> account (owes h) (owes h') es)"
proof (induction us arbitrary: h)
  case Nil
  then show ?case by (auto intro!: ensures_return account_idle)
next
  case (Cons u us)
  show ?case
    unfolding uses.simps
    by (rule ensures_bind [OF op_account [OF Cons.prems]])
      (auto intro: ensures_mono [OF Cons.IH] account_trans uses_appends)
qed

text \<open>The tests, the close, and the exit code.\<close>

lemma main_settles:
  assumes "ok h"
  shows "ensures (runTestMain (tests_using (op E) us code) (close E) h)
    (\<lambda>r es. started_containers es + owes h = stopped_containers es \<and> (r = code \<or> code = 0 \<and> r = 1))"
proof -
  have tests: "ensures (tests_using (op E) us code h) (\<lambda>(c, h') es. c = code \<and> ok h' \<and> account (owes h) (owes h') es)"
    unfolding tests_using_def
    by (rule ensures_bind [OF uses_account [OF assms]]) (auto intro!: ensures_return appends_intros)
  show ?thesis
    unfolding runTestMain_def
    apply (rule ensures_bind [OF tests], rule ensures_prod)
     apply (simp only: prod.case, elim conjE)
     apply (rule ensures_bind [OF close_settles], assumption, rule ensures_prod, rule ensures_return)
      apply (auto simp: account_def intro!: appends_intros close_appends split: prod.split)
    done
qed

end

subsection \<open>Lazy handles\<close>

text \<open>The runtime that a lazy state holds, and what it owes: the container of a runtime that is not closed.\<close>

definition lazy_holds :: "runtimeInstance lazyRuntimeState \<Rightarrow> bool" where
  "lazy_holds s \<longleftrightarrow> (\<not> lz_once s \<longrightarrow> lz_runtime s = None \<and> \<not> lz_closeOnce s) \<and>
     (\<forall>r. lz_runtime s = Some r \<longrightarrow> \<not> lz_closeOnce s \<longrightarrow> fresh_runtime r \<or> (\<exists>a. r = RI_Attached a))"

definition lazy_owes :: "runtimeInstance lazyRuntimeState \<Rightarrow> nat" where
  "lazy_owes s =
     (case lz_runtime s of
        None \<Rightarrow> 0
      | Some (RI_Attached a) \<Rightarrow> 0
      | Some r \<Rightarrow> if lz_closeOnce s then 0 else 1)"

lemma lazy_owes_zero [simp]: "lazy_holds zeroLazyState" "lazy_owes zeroLazyState = 0"
  by (simp_all add: lazy_holds_def lazy_owes_def zeroLazyState_def)

text \<open>What a start promises: a fresh runtime and its container, or an attached one and none, or no runtime.\<close>

definition start_account :: "runtimeInstance outcome \<Rightarrow> event list \<Rightarrow> bool" where
  "start_account out es \<longleftrightarrow>
     (case out of
        Returned (Some (RI_Attached a)) e \<Rightarrow> started_containers es = stopped_containers es
      | Returned (Some r) e \<Rightarrow> fresh_runtime r \<and> started_containers es = Suc (stopped_containers es)
      | Returned None e \<Rightarrow> started_containers es = stopped_containers es
      | Panicked v \<Rightarrow> started_containers es = stopped_containers es)"

lemma start_of_run:
  assumes "ensures m (\<lambda>r es. container_balance r es \<and> (case r of Inl e \<Rightarrow> True | Inr rt \<Rightarrow> fresh_runtime rt))"
  shows "ensures (do { x \<leftarrow> m; State_Monad.return (returned x) }) start_account"
  by (rule ensures_bind [OF assms], rule ensures_return)
    (auto simp: start_account_def returned_def container_balance_def fresh_runtime_def intro!: appends_intros
      split: sum.splits runtimeInstance.splits)

lemma lazy_get_account:
  assumes "ensures start start_account" and "lazy_holds s"
  shows "ensures (lazy_get start msg s) (\<lambda>(out, s') es. lazy_holds s' \<and> account (lazy_owes s) (lazy_owes s') es)"
proof (cases "lz_once s")
  case True
  then show ?thesis
    using assms(2) by (auto simp: lazy_get_once intro!: ensures_return account_idle)
next
  case False
  have s: "lz_runtime s = None" "\<not> lz_closeOnce s" "lazy_owes s = 0"
    using False assms(2) by (auto simp: lazy_holds_def lazy_owes_def)
  show ?thesis
    unfolding lazy_get_def lazy_start_def
    apply (simp only: False if_False)
    apply (rule ensures_bind [OF ensures_bind [OF assms(1)], OF ensures_return, where R = "\<lambda>s' es. lazy_holds s' \<and> account (lazy_owes s) (lazy_owes s') es"])
       apply (auto simp: start_account_def lazy_holds_def lazy_owes_def account_def s intro!: appends_intros ensures_return
        split: outcome.splits option.splits runtimeInstance.splits)
    done
qed

lemma lazy_close_account:
  assumes "lazy_holds s"
  shows "ensures (lazy_close (rt_Close E) s)
    (\<lambda>(e, s') es. lazy_holds s' \<and> lazy_owes s' = 0 \<and> account (lazy_owes s) 0 es)"
proof (cases "lz_closeOnce s \<or> lz_runtime s = None")
  case True
  then show ?thesis
    using assms
    by (auto simp: lazy_close_def Let_def lazy_holds_def lazy_owes_def intro!: ensures_return account_idle
        split: option.splits runtimeInstance.splits)
next
  case False
  then obtain r where r: "lz_runtime s = Some r" "\<not> lz_closeOnce s" "lz_once s"
    using assms by (auto simp: lazy_holds_def)
  have owes: "ensures (rt_Close E r) (\<lambda>_ es. account (lazy_owes s) 0 es)"
  proof (cases "fresh_runtime r")
    case True
    from rt_Close_stops [OF this, of E] show ?thesis
      by (rule ensures_mono)
        (use True in \<open>auto simp: account_def lazy_owes_def r fresh_runtime_def split: runtimeInstance.splits\<close>)
  next
    case False
    with r assms obtain a where "r = RI_Attached a" by (auto simp: lazy_holds_def)
    with r show ?thesis
      by (auto simp: Attached_Close_def lazy_owes_def intro!: ensures_bind ensures_return account_idle appends_intros)
  qed
  show ?thesis
    unfolding lazy_close_def Let_def
    by (simp add: r, rule ensures_bind [OF owes])
      (auto simp: lazy_holds_def lazy_owes_def r intro!: ensures_return appends_intros split: runtimeInstance.splits)
qed

lemma LazyRuntime_start_account: "ensures (LazyRuntime_start E c lr) start_account"
  unfolding LazyRuntime_start_def
proof (rule ensures_option)
  show "ensures (do { x \<leftarrow> Run E c (lr_backend lr) (lr_opts lr); State_Monad.return (returned x) }) start_account"
    by (rule start_of_run [OF Run_fresh])
next
  fix ep
  show "ensures (do {
      a \<leftarrow> with_process E (\<lambda>genv r. NewAttachedRuntime genv r ep (lr_opts lr));
      State_Monad.return (returned (case a of Inl e \<Rightarrow> Inl e | Inr x \<Rightarrow> Inr (RI_Attached x))) }) start_account"
    by (rule ensures_bind_process, rule ensures_return) (auto simp: start_account_def returned_def split: sum.splits)
qed

lemma LazyEmulator_start_account: "ensures (LazyEmulator_start E c le) start_account"
  unfolding LazyEmulator_start_def
proof (rule start_of_run, rule ensures_conj)
  show "ensures (run_as RI_Emulator (RunEmulator E c (le_opts le))) container_balance"
    unfolding run_as_def by (rule ensures_map_result [OF RunEmulator_balance])
  show "ensures (run_as RI_Emulator (RunEmulator E c (le_opts le))) (\<lambda>r es. case r of Inl e \<Rightarrow> True | Inr rt \<Rightarrow> fresh_runtime rt)"
    unfolding run_as_def
    by (rule ensures_bind [OF RunEmulator_fresh], rule ensures_return) (auto intro!: appends_intros split: sum.splits)
qed

subsection \<open>Using a handle\<close>

datatype handle_use =
    UseGet ctx
  | UseClients ctx "Option list"
  | UsePlatform ctx
  | UseProvenance ctx
  | UseClose

text \<open>A test that opens clients closes them.\<close>

definition close_opened :: "env \<Rightarrow> Clients outcome \<Rightarrow> unit io" where
  "close_opened E out =
     (case out of
        Returned (Some cl) None \<Rightarrow> do { _ \<leftarrow> Clients_Close E cl; State_Monad.return () }
      | _ \<Rightarrow> State_Monad.return ())"

definition use_handle ::
    "(env \<Rightarrow> ctx \<Rightarrow> 'l \<Rightarrow> ('v \<times> 'l) io) \<Rightarrow> (env \<Rightarrow> 'l \<Rightarrow> (error option \<times> 'l) io) \<Rightarrow> ('l \<Rightarrow> RuntimeHandle) \<Rightarrow> (RuntimeHandle \<Rightarrow> 'l)
      \<Rightarrow> env \<Rightarrow> handle_use \<Rightarrow> 'l \<Rightarrow> 'l io" where
  "use_handle Get Close handle unhandle E u l =
     (case u of
        UseGet c \<Rightarrow> do { (_, l) \<leftarrow> Get E c l; State_Monad.return l }
      | UseClients c options \<Rightarrow> do {
          (out, h) \<leftarrow> OpenClients E c (handle l) options;
          _ \<leftarrow> close_opened E out;
          State_Monad.return (unhandle h)
        }
      | UsePlatform c \<Rightarrow> do { (_, h) \<leftarrow> RuntimePlatform E c (handle l); State_Monad.return (unhandle h) }
      | UseProvenance c \<Rightarrow> do { (_, h) \<leftarrow> RuntimeImageProvenance E c (handle l); State_Monad.return (unhandle h) }
      | UseClose \<Rightarrow> do { (_, l) \<leftarrow> Close E l; State_Monad.return l })"

definition LazyRuntime_use :: "env \<Rightarrow> handle_use \<Rightarrow> LazyRuntime \<Rightarrow> LazyRuntime io" where
  "LazyRuntime_use = use_handle LazyRuntime_Get LazyRuntime_Close (\<lambda>lr. H_LazyRuntime (Some lr))
     (\<lambda>h. case h of H_LazyRuntime (Some lr) \<Rightarrow> lr | _ \<Rightarrow> NewLazyRuntime [] [])"

definition LazyEmulator_use :: "env \<Rightarrow> handle_use \<Rightarrow> LazyEmulator \<Rightarrow> LazyEmulator io" where
  "LazyEmulator_use = use_handle LazyEmulator_Get LazyEmulator_Close (\<lambda>le. H_LazyEmulator (Some le))
     (\<lambda>h. case h of H_LazyEmulator (Some le) \<Rightarrow> le | _ \<Rightarrow> NewLazyEmulator [])"

lemma close_opened_no_containers: "ensures (close_opened E out) no_containers"
proof (rule only_balanced)
  show "only {ClientCall, RemoveCall, LockCall, WaitCall} (close_opened E out)"
    unfolding close_opened_def by (auto intro!: only_intros split: outcome.split option.split)
qed simp_all

lemma appends_close_opened [appends_intros]: "appends (close_opened E out)"
  by (rule ensures_appends [OF close_opened_no_containers])

text \<open>What the events of resolving a handle satisfy, the operation satisfies, if events without containers keep it.\<close>

definition container_blind :: "('a \<Rightarrow> event list \<Rightarrow> bool) \<Rightarrow> bool" where
  "container_blind P \<longleftrightarrow> (\<forall>x es es'. P x es \<longrightarrow> started_containers es' = 0 \<longrightarrow> stopped_containers es' = 0 \<longrightarrow> P x (es @ es'))"

lemma container_blind_account: "container_blind (\<lambda>x es. Q x \<and> account a (f x) es)"
  by (auto simp: container_blind_def account_def)

lemma blind_then:
  assumes "container_blind P" "P h es" and "ensures m no_containers"
  shows "ensures m (\<lambda>_ es'. P h (es @ es'))"
  by (rule ensures_mono [OF assms(3)]) (use assms(1,2) in \<open>auto simp: container_blind_def\<close>)

lemma platform_no_containers: "ensures (rt_runtimePlatform E c r) no_containers"
proof (rule only_balanced)
  show "only {InspectCall} (rt_runtimePlatform E c r)"
    by (cases r)
      (auto simp: Emulator_runtimePlatform_def omni_runtimePlatform_def Attached_runtimePlatform_def containerPlatform_def
        intro!: only_intros split: option.splits)
qed simp_all

lemma appends_runtimePlatform [appends_intros]: "appends (rt_runtimePlatform E c r)"
  by (rule ensures_appends [OF platform_no_containers])

lemma handle_operations:
  assumes "ensures (resolveRuntime E c h) (\<lambda>(out, h') es. P h' es)" and "container_blind P"
  shows "ensures (OpenClients E c h options) (\<lambda>(out, h') es. P h' es)"
    and "ensures (RuntimePlatform E c h) (\<lambda>(out, h') es. P h' es)"
    and "ensures (RuntimeImageProvenance E c h) (\<lambda>(out, h') es. P h' es)"
proof -
  note open_no_containers = setup_no_containers(3) [of _ E c]
  note blind = blind_then [OF assms(2)]
  show "ensures (OpenClients E c h options) (\<lambda>(out, h') es. P h' es)"
    unfolding OpenClients_def
    apply (rule ensures_bind [OF assms(1)], rule ensures_prod)
     apply (simp split: outcome.split option.split)
     apply (intro conjI allI impI ensures_return; simp)
     apply (rule ensures_bind_process, rule ensures_sum, rule ensures_return, simp)
     apply (rule ensures_bind [OF blind [OF _ open_no_containers]])
        apply (auto intro!: ensures_return appends_intros split: outcome.split option.split)
    done
  show "ensures (RuntimePlatform E c h) (\<lambda>(out, h') es. P h' es)"
    unfolding RuntimePlatform_def
    apply (rule ensures_bind [OF assms(1)], rule ensures_prod)
     apply (simp split: outcome.split option.split)
     apply (intro conjI allI impI ensures_return; simp)
     apply (rule ensures_bind [OF blind [OF _ platform_no_containers]])
       apply (auto intro!: ensures_return appends_intros
        split: outcome.split option.split)
    done
  show "ensures (RuntimeImageProvenance E c h) (\<lambda>(out, h') es. P h' es)"
    unfolding RuntimeImageProvenance_def
    by (rule ensures_bind [OF assms(1)], rule ensures_prod, rule ensures_return) (auto intro!: appends_intros)
qed

text \<open>A handle with a lazy state in it: what a run leaves of it, and the account of the run.\<close>

definition leaves_lazy ::
    "('l \<Rightarrow> RuntimeHandle) \<Rightarrow> ('l \<Rightarrow> runtimeInstance lazyRuntimeState) \<Rightarrow> 'l \<Rightarrow> RuntimeHandle \<Rightarrow> event list \<Rightarrow> bool" where
  "leaves_lazy handle st l h es \<longleftrightarrow>
     (\<exists>l'. h = handle l' \<and> lazy_holds (st l') \<and> account (lazy_owes (st l)) (lazy_owes (st l')) es)"

lemma leaves_lazy_blind: "container_blind (leaves_lazy handle st l)"
  by (auto simp: container_blind_def leaves_lazy_def account_def)

text \<open>
  A lazy handle: its \<open>Get\<close>, its resolution by the functions that take any handle and its \<open>Close\<close>
  keep the account of its state.
\<close>

locale lazy_handle =
  fixes Get :: "env \<Rightarrow> ctx \<Rightarrow> 'l \<Rightarrow> ('v \<times> 'l) io" and Close :: "env \<Rightarrow> 'l \<Rightarrow> (error option \<times> 'l) io"
    and as_handle :: "'l \<Rightarrow> RuntimeHandle" and unhandle :: "RuntimeHandle \<Rightarrow> 'l"
    and st :: "'l \<Rightarrow> runtimeInstance lazyRuntimeState"
  assumes Get_account: "lazy_holds (st l) \<Longrightarrow> ensures (Get E c l)
      (\<lambda>(v, l') es. lazy_holds (st l') \<and> account (lazy_owes (st l)) (lazy_owes (st l')) es)"
    and resolve_account: "lazy_holds (st l) \<Longrightarrow>
      ensures (resolveRuntime E c (as_handle l)) (\<lambda>(out, h) es. leaves_lazy as_handle st l h es)"
    and Close_account: "lazy_holds (st l) \<Longrightarrow>
      ensures (Close E l) (\<lambda>(e, l') es. lazy_holds (st l') \<and> lazy_owes (st l') = 0 \<and> account (lazy_owes (st l)) 0 es)"
    and appends: "appends (Get E c l)" "appends (Close E l)" "appends (resolveRuntime E c (as_handle l))"
    and unhandle_handle: "unhandle (as_handle l) = l"
begin

lemma use_account:
  assumes "lazy_holds (st l)"
  shows "ensures (use_handle Get Close as_handle unhandle E u l)
    (\<lambda>l' es. lazy_holds (st l') \<and> account (lazy_owes (st l)) (lazy_owes (st l')) es)"
proof -
  note ops = handle_operations [OF resolve_account [OF assms] leaves_lazy_blind]
  show ?thesis
  proof (cases u)
    case (UseGet c)
    then show ?thesis
      unfolding use_handle_def
      by (simp, intro ensures_bind [OF Get_account [OF assms]]) (auto intro!: ensures_return appends_intros)
  next
    case (UseClients c options)
    then show ?thesis
      unfolding use_handle_def
      apply simp
      apply (rule ensures_bind [OF ops(1)], rule ensures_prod)
       apply (simp only: prod.case)
       apply (rule ensures_bind [OF blind_then [OF leaves_lazy_blind _ close_opened_no_containers]], assumption)
        apply (auto simp: leaves_lazy_def unhandle_handle intro!: ensures_return appends_intros)
      done
  next
    case (UsePlatform c)
    then show ?thesis
      unfolding use_handle_def
      by (simp, intro ensures_bind [OF ops(2)]) (auto simp: leaves_lazy_def unhandle_handle intro!: ensures_return appends_intros)
  next
    case (UseProvenance c)
    then show ?thesis
      unfolding use_handle_def
      by (simp, intro ensures_bind [OF ops(3)]) (auto simp: leaves_lazy_def unhandle_handle intro!: ensures_return appends_intros)
  next
    case UseClose
    then show ?thesis
      unfolding use_handle_def
      by (simp, intro ensures_bind [OF Close_account [OF assms]]) (auto intro!: ensures_return appends_intros)
  qed
qed

end

sublocale lazy_handle \<subseteq> accountable "use_handle Get Close as_handle unhandle" Close "\<lambda>l. lazy_holds (st l)" "\<lambda>l. lazy_owes (st l)"
proof
  fix E u l
  show "ensures (use_handle Get Close as_handle unhandle E u l)
      (\<lambda>l' es. lazy_holds (st l') \<and> account (lazy_owes (st l)) (lazy_owes (st l')) es)" if "lazy_holds (st l)"
    by (rule use_account [OF that])
  show "appends (use_handle Get Close as_handle unhandle E u l)"
    unfolding use_handle_def OpenClients_def RuntimePlatform_def RuntimeImageProvenance_def
    by (auto intro!: appends_intros appends split: handle_use.split outcome.split option.split sum.split)
  show "ensures (Close E l) (\<lambda>(e, l') es. lazy_holds (st l') \<and> account (lazy_owes (st l)) 0 es)" if "lazy_holds (st l)"
    by (rule ensures_mono [OF Close_account [OF that]]) auto
  show "appends (Close E l)" by (rule appends)
qed

text \<open>The two lazy handles.\<close>

lemma appends_lazy_starts [appends_intros]: "appends (LazyRuntime_start E c lr)" "appends (LazyEmulator_start E c le)"
  by (rule ensures_appends [OF LazyRuntime_start_account], rule ensures_appends [OF LazyEmulator_start_account])

lemma appends_lazy_gets [appends_intros]: "appends (LazyRuntime_get E c lr)" "appends (LazyEmulator_get E c le)"
  "appends (LazyRuntime_Get E c lr)" "appends (LazyEmulator_Get E c le)"
  unfolding LazyRuntime_Get_def LazyEmulator_Get_def LazyRuntime_get_def LazyEmulator_get_def
  by (intro appends_intros)+

interpretation lazy_runtime_handle: lazy_handle LazyRuntime_Get LazyRuntime_Close "\<lambda>lr. H_LazyRuntime (Some lr)"
  "\<lambda>h. case h of H_LazyRuntime (Some lr) \<Rightarrow> lr | _ \<Rightarrow> NewLazyRuntime [] []" lr_state
proof
  fix E c and l :: LazyRuntime
  assume ok: "lazy_holds (lr_state l)"
  have get: "ensures (LazyRuntime_get E c l)
      (\<lambda>(out, l') es. lazy_holds (lr_state l') \<and> account (lazy_owes (lr_state l)) (lazy_owes (lr_state l')) es)"
    unfolding LazyRuntime_get_def
    by (rule ensures_bind [OF lazy_get_account [OF LazyRuntime_start_account ok]]) (auto intro!: ensures_return appends_intros)
  show "ensures (LazyRuntime_Get E c l)
      (\<lambda>(v, l') es. lazy_holds (lr_state l') \<and> account (lazy_owes (lr_state l)) (lazy_owes (lr_state l')) es)"
    unfolding LazyRuntime_Get_def by (rule ensures_bind [OF get]) (auto intro!: ensures_return appends_intros)
  show "ensures (resolveRuntime E c (H_LazyRuntime (Some l)))
      (\<lambda>(out, h) es. leaves_lazy (\<lambda>lr. H_LazyRuntime (Some lr)) lr_state l h es)"
    by (simp, rule ensures_bind [OF get]) (auto simp: leaves_lazy_def intro!: ensures_return appends_intros)
  show "ensures (LazyRuntime_Close E l) (\<lambda>(e, l') es. lazy_holds (lr_state l') \<and> lazy_owes (lr_state l') = 0 \<and>
      account (lazy_owes (lr_state l)) 0 es)"
    unfolding LazyRuntime_Close_def
    by (rule ensures_bind [OF lazy_close_account [OF ok]]) (auto intro!: ensures_return appends_intros)
qed (auto intro!: appends_intros lazy_runtime.close_appends)

interpretation lazy_emulator_handle: lazy_handle LazyEmulator_Get LazyEmulator_Close "\<lambda>le. H_LazyEmulator (Some le)"
  "\<lambda>h. case h of H_LazyEmulator (Some le) \<Rightarrow> le | _ \<Rightarrow> NewLazyEmulator []" le_state
proof
  fix E c and l :: LazyEmulator
  assume ok: "lazy_holds (le_state l)"
  have get: "ensures (LazyEmulator_get E c l)
      (\<lambda>(out, l') es. lazy_holds (le_state l') \<and> account (lazy_owes (le_state l)) (lazy_owes (le_state l')) es)"
    unfolding LazyEmulator_get_def
    by (rule ensures_bind [OF lazy_get_account [OF LazyEmulator_start_account ok]]) (auto intro!: ensures_return appends_intros)
  show "ensures (LazyEmulator_Get E c l)
      (\<lambda>(v, l') es. lazy_holds (le_state l') \<and> account (lazy_owes (le_state l)) (lazy_owes (le_state l')) es)"
    unfolding LazyEmulator_Get_def by (rule ensures_bind [OF get]) (auto intro!: ensures_return appends_intros)
  show "ensures (resolveRuntime E c (H_LazyEmulator (Some l)))
      (\<lambda>(out, h) es. leaves_lazy (\<lambda>le. H_LazyEmulator (Some le)) le_state l h es)"
    by (simp, rule ensures_bind [OF get]) (auto simp: leaves_lazy_def intro!: ensures_return appends_intros)
  show "ensures (LazyEmulator_Close E l) (\<lambda>(e, l') es. lazy_holds (le_state l') \<and> lazy_owes (le_state l') = 0 \<and>
      account (lazy_owes (le_state l)) 0 es)"
    unfolding LazyEmulator_Close_def
    by (rule ensures_bind [OF lazy_close_account [OF ok]]) (auto intro!: ensures_return appends_intros)
qed (auto intro!: appends_intros lazy_emulator.close_appends)

subsection \<open>A lazy runtime attached to an endpoint\<close>

text \<open>
  It stays attached whatever is done with it, and its use touches no container: none is started,
  and, above all, none is terminated, as the backend belongs to another process.
\<close>

definition leaves_attached :: "RuntimeHandle \<Rightarrow> event list \<Rightarrow> bool" where
  "leaves_attached h es \<longleftrightarrow> (\<exists>lr. h = H_LazyRuntime (Some lr) \<and> attached_state lr) \<and>
     started_containers es = 0 \<and> stopped_containers es = 0"

lemma leaves_attached_blind: "container_blind leaves_attached"
  by (simp add: container_blind_def leaves_attached_def)

lemma attached_get_ensures:
  assumes "attached_state lr"
  shows "ensures (LazyRuntime_get E c lr) (\<lambda>(out, lr') es. attached_state lr' \<and> es = [])"
  using attached_get [OF assms, of E c] by (simp add: ensures_def appends_lazy_gets case_prod_unfold)

lemma attached_Get_ensures:
  assumes "attached_state lr"
  shows "ensures (LazyRuntime_Get E c lr) (\<lambda>(v, lr') es. attached_state lr' \<and> es = [])"
  unfolding LazyRuntime_Get_def
  by (rule ensures_bind [OF attached_get_ensures [OF assms]]) (auto intro!: ensures_return appends_intros)

lemma attached_resolve:
  assumes "attached_state lr"
  shows "ensures (resolveRuntime E c (H_LazyRuntime (Some lr))) (\<lambda>(out, h) es. leaves_attached h es)"
  by (simp, rule ensures_bind [OF attached_get_ensures [OF assms]])
    (auto simp: leaves_attached_def intro!: ensures_return appends_intros)

lemma attached_close_ensures:
  assumes "attached_state lr"
  shows "ensures (LazyRuntime_Close E lr) (\<lambda>(e, lr') es. attached_state lr' \<and> es = [])"
  using attached_close(1,2) [OF assms, of E] by (simp add: ensures_def lazy_runtime.close_appends case_prod_unfold)

lemma attached_use:
  assumes "attached_state lr"
  shows "ensures (LazyRuntime_use E u lr) (\<lambda>lr' es. attached_state lr' \<and> started_containers es = 0 \<and> stopped_containers es = 0)"
proof -
  note ops = handle_operations [OF attached_resolve [OF assms] leaves_attached_blind]
  show ?thesis
  proof (cases u)
    case (UseGet c)
    then show ?thesis
      unfolding LazyRuntime_use_def use_handle_def
      by (simp, intro ensures_bind [OF attached_Get_ensures [OF assms]]) (auto intro!: ensures_return appends_intros)
  next
    case (UseClients c options)
    then show ?thesis
      unfolding LazyRuntime_use_def use_handle_def
      apply simp
      apply (rule ensures_bind [OF ops(1)], rule ensures_prod)
       apply (simp only: prod.case)
       apply (rule ensures_bind [OF blind_then [OF leaves_attached_blind _ close_opened_no_containers]], assumption)
        apply (auto simp: leaves_attached_def intro!: ensures_return appends_intros)
      done
  next
    case (UsePlatform c)
    then show ?thesis
      unfolding LazyRuntime_use_def use_handle_def
      by (simp, intro ensures_bind [OF ops(2)]) (auto simp: leaves_attached_def intro!: ensures_return appends_intros)
  next
    case (UseProvenance c)
    then show ?thesis
      unfolding LazyRuntime_use_def use_handle_def
      by (simp, intro ensures_bind [OF ops(3)]) (auto simp: leaves_attached_def intro!: ensures_return appends_intros)
  next
    case UseClose
    then show ?thesis
      unfolding LazyRuntime_use_def use_handle_def
      by (simp, intro ensures_bind [OF attached_close_ensures [OF assms]]) (auto intro!: ensures_return appends_intros)
  qed
qed

lemma attached_uses:
  "attached_state lr \<Longrightarrow> ensures (uses (LazyRuntime_use E) us lr)
     (\<lambda>lr' es. attached_state lr' \<and> started_containers es = 0 \<and> stopped_containers es = 0)"
proof (induction us arbitrary: lr)
  case Nil
  then show ?case by (auto intro!: ensures_return)
next
  case (Cons u us)
  show ?case
    unfolding uses.simps
    by (rule ensures_bind [OF attached_use [OF Cons.prems]])
      (auto intro: ensures_mono [OF Cons.IH] lazy_runtime_handle.uses_appends [folded LazyRuntime_use_def])
qed

lemma attached_main:
  assumes "attached_state lr"
  shows "ensures (LazyRuntime_TestMain E (tests_using (LazyRuntime_use E) us code) lr) no_containers"
proof -
  have tests: "ensures (tests_using (LazyRuntime_use E) us code lr)
      (\<lambda>(c, lr') es. attached_state lr' \<and> started_containers es = 0 \<and> stopped_containers es = 0)"
    unfolding tests_using_def by (rule ensures_bind [OF attached_uses [OF assms]]) (auto intro!: ensures_return appends_intros)
  show ?thesis
    unfolding LazyRuntime_TestMain_def runTestMain_def
    apply (rule ensures_bind [OF tests], rule ensures_prod)
     apply (simp only: prod.case, elim conjE)
     apply (rule ensures_bind [OF attached_close_ensures], assumption, rule ensures_prod, rule ensures_return)
      apply (auto intro!: appends_intros lazy_runtime.close_appends split: prod.split)
    done
qed

end
