(* ===== verification/Lock_Table.thy ===== *)
theory Lock_Table
  imports Main
begin

section \<open>The lock table under concurrency (admin_ops.go)\<close>

text \<open>
  \<open>withInstanceAdminLock\<close> as interleaved steps of any number of goroutines: finding the
  semaphore of the path (created on first use, under the mutex), acquiring it, running the
  closure, releasing it.  A semaphore of weight 1 is the goroutine that holds it, or none.
  A goroutine waiting for a semaphore may give up when its context ends.
\<close>

type_synonym thread = nat
type_synonym path = string

datatype pc =
    Outside
  | Waiting path
  | InClosure path

record table_state =
  table :: "path \<Rightarrow> thread option option"
  pcs :: "thread \<Rightarrow> pc"

text \<open>\<open>table s p\<close>: None without a semaphore for the path, else its holder, if any.\<close>

definition initial_locks :: table_state where
  "initial_locks = \<lparr>table = (\<lambda>p. None), pcs = (\<lambda>t. Outside)\<rparr>"

definition instanceAdminSemaphore :: "path \<Rightarrow> table_state \<Rightarrow> table_state" where
  "instanceAdminSemaphore p s =
     (case table s p of None \<Rightarrow> s\<lparr>table := (table s)(p \<mapsto> None)\<rparr> | Some h \<Rightarrow> s)"

datatype lock_action =
    Find path
  | Acquire path
  | GiveUp path
  | Release path

inductive table_step :: "thread \<Rightarrow> lock_action \<Rightarrow> table_state \<Rightarrow> table_state \<Rightarrow> bool" where
  find: "pcs s t = Outside \<Longrightarrow> p \<noteq> [] \<Longrightarrow>
     table_step t (Find p) s ((instanceAdminSemaphore p s)\<lparr>pcs := (pcs s)(t := Waiting p)\<rparr>)"
| acquire: "pcs s t = Waiting p \<Longrightarrow> table s p = Some None \<Longrightarrow>
     table_step t (Acquire p) s (s\<lparr>table := (table s)(p \<mapsto> Some t), pcs := (pcs s)(t := InClosure p)\<rparr>)"
| give_up: "pcs s t = Waiting p \<Longrightarrow> table_step t (GiveUp p) s (s\<lparr>pcs := (pcs s)(t := Outside)\<rparr>)"
| release: "pcs s t = InClosure p \<Longrightarrow>
     table_step t (Release p) s (s\<lparr>table := (table s)(p \<mapsto> None), pcs := (pcs s)(t := Outside)\<rparr>)"

inductive_cases table_stepE: "table_step t a s s'"

text \<open>
  The invariant: a goroutine in its closure is the holder of the semaphore of its path, a
  holder is in its closure, and a waiting goroutine waits for a semaphore that exists.
\<close>

definition lock_inv :: "table_state \<Rightarrow> bool" where
  "lock_inv s \<longleftrightarrow>
     (\<forall>t p. pcs s t = InClosure p \<longrightarrow> table s p = Some (Some t)) \<and>
     (\<forall>t p. table s p = Some (Some t) \<longrightarrow> pcs s t = InClosure p) \<and>
     (\<forall>t p. pcs s t = Waiting p \<longrightarrow> table s p \<noteq> None) \<and> table s [] = None"

lemma semaphore_simps [simp]:
  "pcs (instanceAdminSemaphore p s) = pcs s"
  "table (instanceAdminSemaphore p s) = (if table s p = None then (table s)(p \<mapsto> None) else table s)"
  by (auto simp: instanceAdminSemaphore_def split: option.splits)

lemma lock_inv_initial: "lock_inv initial_locks"
  by (simp add: lock_inv_def initial_locks_def)

lemma lock_invI:
  "(\<And>t p. pcs s t = InClosure p \<Longrightarrow> table s p = Some (Some t)) \<Longrightarrow>
   (\<And>t p. table s p = Some (Some t) \<Longrightarrow> pcs s t = InClosure p) \<Longrightarrow>
   (\<And>t p. pcs s t = Waiting p \<Longrightarrow> table s p \<noteq> None) \<Longrightarrow> table s [] = None \<Longrightarrow> lock_inv s"
  unfolding lock_inv_def by blast

lemma lock_invD:
  assumes "lock_inv s"
  shows "pcs s t = InClosure p \<Longrightarrow> table s p = Some (Some t)"
    and "table s p = Some (Some t) \<Longrightarrow> pcs s t = InClosure p"
    and "pcs s t = Waiting p \<Longrightarrow> table s p \<noteq> None" and "table s [] = None"
  using assms unfolding lock_inv_def by blast+

text \<open>Mutual exclusion: two goroutines are never in closures under the same path.\<close>

lemma closure_unique:
  "lock_inv s \<Longrightarrow> pcs s t = InClosure p \<Longrightarrow> pcs s u = InClosure p \<Longrightarrow> t = u"
  using lock_invD(1) [of s t p] lock_invD(1) [of s u p] by simp

lemma lock_inv_step:
  assumes "table_step t a s s'" and "lock_inv s"
  shows "lock_inv s'"
  using assms(1)
proof cases
  case (find p)
  then show ?thesis
    by (intro lock_invI) (auto split: if_splits simp: lock_invD(4) [OF assms(2)] dest: lock_invD(1-3) [OF assms(2)])
next
  case (acquire p)
  then show ?thesis
    by (intro lock_invI) (auto split: if_splits simp: lock_invD(4) [OF assms(2)] dest: lock_invD(1-3) [OF assms(2)])
next
  case (give_up p)
  then show ?thesis
    by (intro lock_invI) (auto split: if_splits simp: lock_invD(4) [OF assms(2)] dest: lock_invD(1-3) [OF assms(2)])
next
  case (release p)
  then show ?thesis
    by (intro lock_invI) (auto split: if_splits simp: lock_invD(4) [OF assms(2)] dest: lock_invD(1-3) [OF assms(2)] closure_unique [OF assms(2)])
qed

text \<open>A step moves no goroutine but the one that takes it.\<close>

lemma table_step_others: "table_step t a s s' \<Longrightarrow> u \<noteq> t \<Longrightarrow> pcs s' u = pcs s u"
  by (induction rule: table_step.induct) auto

text \<open>No semaphore is ever replaced or removed.\<close>

lemma table_grows: "table_step t a s s' \<Longrightarrow> table s p \<noteq> None \<Longrightarrow> table s' p \<noteq> None"
  by (induction rule: table_step.induct) auto

end
