(* ===== verification/Lock_Composition.thy ===== *)
theory Lock_Composition
  imports Call_Kinds Lock_Table
begin

section \<open>Goroutines that share the lock table\<close>

text \<open>
  The sequential model answers \<open>AcquireLock\<close> as the environment likes and records what a program
  does in its trace; \<open>Lock_Table\<close> has the semaphores.  Here both meet: each goroutine has the trace
  of a program of the package still before it, and its lock events are steps of the table, so
  only the schedules remain in which the semaphores grant what the traces say.  A call is in
  flight while it is the next event of its goroutine; the events before it are in \<open>past\<close>, the
  latest first.
\<close>

record lock_system =
  locks :: table_state
  todo :: "thread \<Rightarrow> event list"
  past :: "thread \<Rightarrow> event list"

fun lock_action_of :: "event \<Rightarrow> lock_action option" where
  "lock_action_of (AcquireLock c p, None) = Some (Acquire p)"
| "lock_action_of (AcquireLock c p, Some e) = Some (GiveUp p)"
| "lock_action_of (ReleaseLock p, r) = Some (Release p)"
| "lock_action_of e = None"

inductive system_step :: "thread \<Rightarrow> lock_system \<Rightarrow> lock_system \<Rightarrow> bool" where
  queue: "todo s t = (AcquireLock c p, r) # es \<Longrightarrow> table_step t (Find p) (locks s) l \<Longrightarrow>
     system_step t s (s\<lparr>locks := l\<rparr>)"
| lock: "todo s t = e # es \<Longrightarrow> lock_action_of e = Some a \<Longrightarrow> table_step t a (locks s) l \<Longrightarrow>
     system_step t s (s\<lparr>locks := l, todo := (todo s)(t := es), past := (past s)(t := e # past s t)\<rparr>)"
| other: "todo s t = e # es \<Longrightarrow> lock_action_of e = None \<Longrightarrow>
     system_step t s (s\<lparr>todo := (todo s)(t := es), past := (past s)(t := e # past s t)\<rparr>)"

inductive system_steps :: "nat \<Rightarrow> lock_system \<Rightarrow> lock_system \<Rightarrow> bool" where
  stay: "system_steps 0 s s"
| step: "system_steps n s s' \<Longrightarrow> system_step t s' s'' \<Longrightarrow> system_steps (Suc n) s s''"

definition initial_system :: "(thread \<Rightarrow> event list) \<Rightarrow> lock_system" where
  "initial_system traces = \<lparr>locks = initial_locks, todo = traces, past = (\<lambda>t. [])\<rparr>"

text \<open>
  A database of the instance \<open>i\<close> of the project \<open>p\<close> is being created or dropped by \<open>t\<close>: the call in
  flight creates one with this instance as its parent, waits for the latest such creation, or
  drops one whose path lies under this instance.  Neither the code's locks nor its way from the path
  of a database to that of its instance have a part in this.
\<close>

fun last_parent :: "event list \<Rightarrow> string option" where
  "last_parent [] = None"
| "last_parent ((CreateDatabase c q, r) # es) = Some (cdr_Parent q)"
| "last_parent (e # es) = last_parent es"

definition admin_call_in_flight :: "lock_system \<Rightarrow> thread \<Rightarrow> string \<Rightarrow> string \<Rightarrow> bool" where
  "admin_call_in_flight s t p i =
     (case todo s t of
        [] \<Rightarrow> False
      | e # es \<Rightarrow>
          (case fst e of
             CreateDatabase c q \<Rightarrow> cdr_Parent q = instancePath p i
           | WaitCreateDatabase c \<Rightarrow> last_parent (past s t) = Some (instancePath p i)
           | DropDatabase c db \<Rightarrow> hasPrefix db (instancePath p i @ ''/databases/'')
           | _ \<Rightarrow> False))"

subsection \<open>Creations and their waits\<close>

text \<open>A wait for a creation directly follows it; \<open>b\<close> tells whether the call before the events is one.\<close>

definition creates_database :: "call \<Rightarrow> bool" where
  "creates_database x = (case x of CreateDatabase c q \<Rightarrow> True | _ \<Rightarrow> False)"

definition waits_for_database :: "call \<Rightarrow> bool" where
  "waits_for_database x = (case x of WaitCreateDatabase c \<Rightarrow> True | _ \<Rightarrow> False)"

fun waits_follow :: "bool \<Rightarrow> event list \<Rightarrow> bool" where
  "waits_follow b [] = True"
| "waits_follow b (e # es) = ((waits_for_database (fst e) \<longrightarrow> b) \<and> waits_follow (creates_database (fst e)) es)"

lemma waits_follow_mono: "waits_follow False es \<Longrightarrow> waits_follow b es"
  by (cases es) auto

lemma waits_follow_append: "waits_follow b xs \<Longrightarrow> waits_follow False ys \<Longrightarrow> waits_follow b (xs @ ys)"
  by (induction xs arbitrary: b) (auto intro: waits_follow_mono)

interpretation waits: trace_property "waits_follow False"
  by unfold_locales (auto intro: waits_follow_append)

lemma waits_without_creation: "only K m \<Longrightarrow> CreateCall \<notin> K \<Longrightarrow> emits (waits_follow False) m"
  unfolding only_def
proof (erule emits_mono)
  show "waits_follow False es" if "list_all (\<lambda>e. kind_of (fst e) \<in> K) es" "CreateCall \<notin> K" for es
  proof -
    have no_wait: "\<not> waits_for_database x" if "kind_of x \<in> K" for x
      using that \<open>CreateCall \<notin> K\<close> by (auto simp: waits_for_database_def split: call.splits)
    show ?thesis using that(1) by (induction es) (auto simp: no_wait intro: waits_follow_mono)
  qed
qed

lemma waits_deferred: "emits (waits_follow False) n \<Longrightarrow> emits (waits_follow False) m \<Longrightarrow> emits (waits_follow False) (deferred n m)"
  unfolding deferred_def by (intro waits.emits_rules)

lemma waits_withLock:
  "emits (waits_follow False) fn \<Longrightarrow> emits (waits_follow False) (withInstanceAdminLock E c p fn x)"
  unfolding withInstanceAdminLock_def by (intro waits.emits_rules) (simp_all add: waits_for_database_def)

lemma waits_createDatabaseLocked: "emits (waits_follow False) (createDatabaseLocked E c q)"
proof -
  have "appends (createDatabaseLocked E c q)"
    unfolding createDatabaseLocked_def by (intro appends_intros)
  moreover have "waits_follow False (events (createDatabaseLocked E c q) w)" for w
    unfolding createDatabaseLocked_def
    by (subst events_bind) (auto intro!: appends_intros simp: waits_for_database_def creates_database_def split: option.splits)
  ultimately show ?thesis by (simp add: emits_def)
qed

lemma waits_createDatabase: "emits (waits_follow False) (createDatabase E c opts)"
  unfolding createDatabase_def by (intro waits.emits_rules waits_withLock waits_createDatabaseLocked)

lemma waits_bootstrapDatabase: "emits (waits_follow False) (bootstrapDatabase E c opts)"
  unfolding bootstrapDatabase_def updateDDLs_def
  by (intro waits.emits_rules waits_createDatabase) (simp_all add: waits_for_database_def)

lemma waits_bootstrapInstance: "emits (waits_follow False) (bootstrapInstance E c opts)"
  unfolding bootstrapInstance_def createInstance_def
  by (intro waits.emits_rules) (simp_all add: waits_for_database_def)

lemma waits_DMLs: "emits (waits_follow False) (executeDMLsWithClient E c opts)" "emits (waits_follow False) (executeDMLs E c opts co)"
  unfolding executeDMLsWithClient_def executeDMLs_def
  by (intro waits.emits_rules waits_deferred; simp add: waits_for_database_def)+

lemmas waits_parts = waits_bootstrapInstance waits_bootstrapDatabase waits_DMLs waits_deferred

lemma waits_bootstraps:
  "emits (waits_follow False) (bootstrap E c opts co)" "emits (waits_follow False) (bootstrapWithManagedClientConfig E c opts co)"
  unfolding bootstrap_def bootstrapWithManagedClientConfig_def with_instance_client_def with_database_client_def
  by (intro waits.emits_rules waits_parts; simp add: waits_for_database_def)+

lemma waits_setup: "emits (waits_follow False) (bootstrapAndCreateClientsWithOptions E c uri opts co)"
proof -
  have "emits (waits_follow False) (setup_failed E opts e v)" for e v
    by (rule waits_without_creation [OF only_setup_failed [OF order_refl]]) simp
  then show ?thesis
    unfolding bootstrapAndCreateClientsWithOptions_def setup_body_def
    by (intro waits.emits_rules waits_parts; simp add: waits_for_database_def)
qed

subsection \<open>The invariant\<close>

fun held :: "pc \<Rightarrow> string option" where
  "held (InClosure p) = Some p"
| "held Outside = None"
| "held (Waiting p) = None"

text \<open>
  What is left of a trace keeps the discipline from the lock that its goroutine holds, and a
  goroutine that waits has an acquisition of this lock before it.  A goroutine whose last event has
  created a database is still under the lock of the parent, and only such a one waits for it.
\<close>

definition goroutine_ok :: "pc \<Rightarrow> event list \<Rightarrow> bool" where
  "goroutine_ok pc es \<longleftrightarrow> lock_run (held pc) es = Some None \<and>
     (\<forall>p. pc = Waiting p \<longrightarrow> (\<exists>c r es'. es = (AcquireLock c p, r) # es'))"

definition creation_ok :: "pc \<Rightarrow> event list \<Rightarrow> event list \<Rightarrow> bool" where
  "creation_ok pc before after \<longleftrightarrow>
     (case before of
        [] \<Rightarrow> waits_follow False after
      | e # es \<Rightarrow> waits_follow (creates_database (fst e)) after \<and>
          (\<forall>c q. fst e = CreateDatabase c q \<longrightarrow> pc = InClosure (cdr_Parent q)))"

definition system_inv :: "lock_system \<Rightarrow> bool" where
  "system_inv s \<longleftrightarrow> lock_inv (locks s) \<and> (\<forall>t. goroutine_ok (pcs (locks s) t) (todo s t)) \<and>
     (\<forall>t. creation_ok (pcs (locks s) t) (past s t) (todo s t))"

lemma system_invD:
  assumes "system_inv s"
  shows "lock_inv (locks s)" "goroutine_ok (pcs (locks s) t) (todo s t)" "creation_ok (pcs (locks s) t) (past s t) (todo s t)"
  using assms by (simp_all add: system_inv_def)

lemma goroutine_ok_queue:
  "goroutine_ok pc ((AcquireLock c p, r) # es) \<Longrightarrow> goroutine_ok (Waiting p) ((AcquireLock c p, r) # es)"
  by (cases pc) (auto simp: goroutine_ok_def split: if_splits)

lemma goroutine_ok_lock:
  assumes "goroutine_ok (pcs l t) (e # es)" and "lock_action_of e = Some a" and "table_step t a l l'"
  shows "goroutine_ok (pcs l' t) es"
  using assms(3,1,2)
  by (induction rule: table_step.induct; cases e rule: lock_action_of.cases)
    (auto simp: goroutine_ok_def split: if_splits)

lemma lock_step_other: "lock_action_of e = None \<Longrightarrow> lock_step h e = Some h' \<Longrightarrow> h' = h"
  by (cases "(h, e)" rule: lock_step.cases; cases e rule: lock_action_of.cases) (auto split: if_splits)

lemma goroutine_ok_other:
  assumes "goroutine_ok pc (e # es)" and "lock_action_of e = None"
  shows "goroutine_ok pc es"
  using assms lock_step_other [OF assms(2), of "held pc"]
  by (cases e rule: lock_action_of.cases) (auto simp: goroutine_ok_def split: option.splits)

lemma creation_ok_next:
  assumes "creation_ok pc before (e # es)" and "\<And>c q. fst e = CreateDatabase c q \<Longrightarrow> pc' = InClosure (cdr_Parent q)"
  shows "creation_ok pc' (e # before) es"
  using assms by (cases "before") (auto simp: creation_ok_def)

lemma creation_ok_queue: "creation_ok Outside before after \<Longrightarrow> creation_ok (Waiting p) before after"
  by (auto simp: creation_ok_def split: list.splits)

lemma creates_under_parent:
  assumes "goroutine_ok pc (e # es)" and "fst e = CreateDatabase c q"
  shows "pc = InClosure (cdr_Parent q)"
  using assms by (cases pc; cases e) (auto simp: goroutine_ok_def split: if_splits)

lemma system_inv_step:
  assumes "system_step t s s'" and "system_inv s"
  shows "system_inv s'"
proof -
  note inv = system_invD(1) [OF assms(2)] and ok = system_invD(2) [OF assms(2)] and made = system_invD(3) [OF assms(2)]
  from assms(1) show ?thesis
  proof cases
    case (queue c p r es l)
    have pc: "pcs (locks s) t = Outside" "pcs l t = Waiting p" using queue(3) by (auto elim: table_stepE)
    have "goroutine_ok (pcs l u) (todo s u)" for u
      using pc ok [of u] table_step_others [OF queue(3), of u] queue(2) goroutine_ok_queue by (cases "u = t") auto
    moreover have "creation_ok (pcs l u) (past s u) (todo s u)" for u
      using pc made [of u] table_step_others [OF queue(3), of u] creation_ok_queue by (cases "u = t") auto
    ultimately show ?thesis using queue(1) lock_inv_step [OF queue(3) inv] by (simp add: system_inv_def)
  next
    case (lock e es a l)
    have "goroutine_ok (pcs l t) es" by (rule goroutine_ok_lock [OF _ lock(3,4)]) (use ok [of t] lock(2) in simp)
    moreover have "creation_ok (pcs l t) (e # past s t) es"
      by (rule creation_ok_next) (use made [of t] lock(2,3) in \<open>auto elim: lock_action_of.elims\<close>)
    ultimately show ?thesis
      using lock ok made table_step_others [OF lock(4)] lock_inv_step [OF lock(4) inv] by (simp add: system_inv_def)
  next
    case (other e es)
    with ok [of t] goroutine_ok_other have "goroutine_ok (pcs (locks s) t) es" by metis
    moreover have "creation_ok (pcs (locks s) t) (e # past s t) es"
      using made [of t] ok [of t] other(2) by (auto intro: creation_ok_next creates_under_parent)
    ultimately show ?thesis using other ok made inv by (simp add: system_inv_def)
  qed
qed

lemma system_inv_initial:
  "(\<And>t. keeps_lock None (traces t)) \<Longrightarrow> (\<And>t. waits_follow False (traces t)) \<Longrightarrow> system_inv (initial_system traces)"
  by (simp add: system_inv_def initial_system_def lock_inv_initial creation_ok_def)
    (simp add: initial_locks_def goroutine_ok_def keeps_lock_def)

lemma system_inv_steps: "system_steps n s s' \<Longrightarrow> system_inv s \<Longrightarrow> system_inv s'"
  by (induction rule: system_steps.induct) (auto intro: system_inv_step)

subsection \<open>Exclusion\<close>

text \<open>
  Who has a call in flight for an instance is under the lock of this instance, as long as the code
  finds the instance of its databases; by \<open>instancePathFromDatabasePath_iff\<close> that is when neither
  of the two IDs is the word \<open>databases\<close>.
\<close>

lemma waiting_for_database:
  assumes "creation_ok pc before (e # es)" "waits_for_database (fst e)" "last_parent before = Some path"
  shows "pc = InClosure path"
proof -
  obtain f fs where f: "before = f # fs" "creates_database (fst f)"
    using assms(1,2) by (auto simp: creation_ok_def split: list.splits)
  then obtain c q r where "f = (CreateDatabase c q, r)"
    by (cases f; cases "fst f") (simp_all add: creates_database_def)
  with f(1) assms(1,3) show ?thesis by (simp add: creation_ok_def)
qed

lemma in_flight_holds:
  assumes "system_inv s" and "admin_call_in_flight s t p i" and "plain_instance p i"
  shows "pcs (locks s) t = InClosure (instancePath p i)"
proof -
  note ok = system_invD(2) [OF assms(1), of t] and made = system_invD(3) [OF assms(1), of t]
  from assms(2) obtain e es where es: "todo s t = e # es" by (cases "todo s t") (auto simp: admin_call_in_flight_def)
  from assms(2) es consider (create) c q where "fst e = CreateDatabase c q" "cdr_Parent q = instancePath p i"
    | (wait) c where "fst e = WaitCreateDatabase c" "last_parent (past s t) = Some (instancePath p i)"
    | (drop) c db where "fst e = DropDatabase c db" "hasPrefix db (instancePath p i @ ''/databases/'')"
    by (auto simp: admin_call_in_flight_def split: call.splits)
  then show ?thesis
  proof cases
    case create
    with ok es creates_under_parent show ?thesis by metis
  next
    case wait
    with made es show ?thesis by (intro waiting_for_database [of _ "past s t" e es]) (simp_all add: waits_for_database_def)
  next
    case drop
    with ok es under_instance [OF _ assms(3)] show ?thesis
      by (cases "pcs (locks s) t"; cases e) (auto simp: goroutine_ok_def split: if_splits)
  qed
qed

lemma in_flight_unique:
  assumes "system_inv s" and "admin_call_in_flight s t p i" "admin_call_in_flight s u p i" and "plain_instance p i"
  shows "t = u"
  using closure_unique [of "locks s" t "instancePath p i" u] in_flight_holds [OF assms(1) _ assms(4)] assms
  by (simp add: system_inv_def)

subsection \<open>Progress\<close>

text \<open>Some goroutine can take a step as long as one has something to do.\<close>

lemma holder_can_step:
  assumes "system_inv s" and "pcs (locks s) t = InClosure p"
  shows "\<exists>s'. system_step t s s'"
proof -
  have ok: "lock_run (Some p) (todo s t) = Some None"
    using system_invD(2) [OF assms(1), of t] assms(2) by (simp add: goroutine_ok_def)
  then obtain e es where es: "todo s t = e # es" by (cases "todo s t") auto
  show ?thesis
  proof (cases "lock_action_of e")
    case None
    with es show ?thesis by (blast intro: system_step.other)
  next
    case (Some a)
    with ok es have "a = Release p" by (cases e rule: lock_action_of.cases) (auto split: if_splits option.splits)
    with es Some table_step.release [OF assms(2)] show ?thesis by (blast intro: system_step.lock)
  qed
qed

lemma outside_can_step:
  assumes "system_inv s" and "todo s t = e # es" and "pcs (locks s) t = Outside"
  shows "\<exists>s'. system_step t s s'"
proof (cases "lock_action_of e")
  case None
  with assms(2) show ?thesis by (blast intro: system_step.other)
next
  case (Some a)
  have "lock_run None (e # es) = Some None"
    using system_invD(2) [OF assms(1), of t] assms(2,3) by (simp add: goroutine_ok_def)
  with Some obtain c p r where "e = (AcquireLock c p, r)" "p \<noteq> []"
    by (cases e rule: lock_action_of.cases) (auto split: if_splits option.splits)
  with assms(2) table_step.find [OF assms(3)] show ?thesis by (blast intro: system_step.queue)
qed

lemma system_not_stuck:
  assumes "system_inv s" and "todo s t \<noteq> []"
  shows "\<exists>u s'. system_step u s s'"
proof (cases "pcs (locks s) t")
  case Outside
  with assms outside_can_step show ?thesis by (cases "todo s t") blast+
next
  case (InClosure p)
  with assms(1) holder_can_step show ?thesis by blast
next
  case (Waiting p)
  have "goroutine_ok (Waiting p) (todo s t)" using system_invD(2) [OF assms(1), of t] Waiting by simp
  then obtain c r es where es: "todo s t = (AcquireLock c p, r) # es" by (auto simp: goroutine_ok_def)
  note inv = system_invD(1) [OF assms(1)]
  show ?thesis
  proof (cases r)
    case (Some e)
    with es table_step.give_up [OF Waiting] show ?thesis by (metis system_step.lock lock_action_of.simps(2))
  next
    case None
    from lock_invD(3) [OF inv Waiting] consider "table (locks s) p = Some None" | u where "table (locks s) p = Some (Some u)"
      by (cases "table (locks s) p") auto
    then show ?thesis
    proof cases
      case 1
      with None es table_step.acquire [OF Waiting] show ?thesis by (metis system_step.lock lock_action_of.simps(1))
    next
      case (2 u)
      with lock_invD(2) [OF inv] holder_can_step [OF assms(1)] show ?thesis by blast
    qed
  qed
qed

text \<open>
  The work of the first \<open>n\<close> goroutines: two steps for an event, one of them taken when the
  goroutine already waits.  Every step is a piece of it.
\<close>

definition goroutine_work :: "lock_system \<Rightarrow> thread \<Rightarrow> nat" where
  "goroutine_work s t = 2 * length (todo s t) - (case pcs (locks s) t of Waiting p \<Rightarrow> 1 | _ \<Rightarrow> 0)"

definition system_work :: "nat \<Rightarrow> lock_system \<Rightarrow> nat" where
  "system_work n s = (\<Sum>t < n. goroutine_work s t)"

lemma goroutine_work_step: "system_step t s s' \<Longrightarrow> goroutine_work s' t < goroutine_work s t"
  by (induction rule: system_step.induct)
    (auto simp: goroutine_work_def elim!: table_stepE split: pc.splits)

lemma step_others:
  assumes "system_step t s s'" "u \<noteq> t"
  shows "todo s' u = todo s u" "goroutine_work s' u = goroutine_work s u"
  using assms by (induction rule: system_step.induct) (simp_all add: goroutine_work_def table_step_others)

lemma system_work_step:
  assumes "system_step t s s'" "t < n"
  shows "system_work n s' < system_work n s"
  unfolding system_work_def
proof (rule sum_strict_mono_ex1)
  show "\<forall>u \<in> {..<n}. goroutine_work s' u \<le> goroutine_work s u"
    using step_others(2) [OF assms(1)] goroutine_work_step [OF assms(1)] by (metis le_less)
  show "\<exists>u \<in> {..<n}. goroutine_work s' u < goroutine_work s u"
    using goroutine_work_step [OF assms(1)] assms(2) by blast
qed simp

text \<open>Only goroutines with something to do take steps.\<close>

lemma step_has_work: "system_step t s s' \<Longrightarrow> todo s t \<noteq> []"
  by (induction rule: system_step.induct) simp_all

lemma idle_stays:
  assumes "system_step t s s'" "todo s u = []"
  shows "todo s' u = []"
  using assms step_has_work [OF assms(1)] step_others(1) [OF assms(1)] by (cases "u = t") auto

lemma system_steps_work:
  assumes "system_steps k s s'" and "\<And>t. n \<le> t \<Longrightarrow> todo s t = []"
  shows "k + system_work n s' \<le> system_work n s \<and> (\<forall>t \<ge> n. todo s' t = [])"
  using assms
proof (induction rule: system_steps.induct)
  case (step k s s' t s'')
  then have IH: "k + system_work n s' \<le> system_work n s" "\<And>t. n \<le> t \<Longrightarrow> todo s' t = []" by blast+
  have "t < n" using step_has_work [OF step.hyps(2)] IH(2) not_le by blast
  from system_work_step [OF step.hyps(2) this] IH idle_stays [OF step.hyps(2)] show ?case by fastforce
qed simp

subsection \<open>The programs of the package\<close>

text \<open>
  The operations that create or drop databases: opening clients, the two bootstraps, closing
  clients, and a drop of its own.
\<close>

datatype admin_program =
    OpenClientsJob ctx string emulatorOptions "ClientOption list"
  | BootstrapJob ctx emulatorOptions "ClientOption list"
  | ManagedBootstrapJob ctx emulatorOptions "ClientOption list"
  | CloseClientsJob Clients
  | DropJob ctx string string string
  | NoJob

fun program_events :: "env \<Rightarrow> world \<Rightarrow> admin_program \<Rightarrow> event list" where
  "program_events E w (OpenClientsJob c uri opts co) = events (bootstrapAndCreateClientsWithOptions E c uri opts co) w"
| "program_events E w (BootstrapJob c opts co) = events (bootstrap E c opts co) w"
| "program_events E w (ManagedBootstrapJob c opts co) = events (bootstrapWithManagedClientConfig E c opts co) w"
| "program_events E w (CloseClientsJob cl) = events (Clients_Close E cl) w"
| "program_events E w (DropJob c p i d) = events (dropDatabaseWithRetry E c True (databasePath p i d)) w"
| "program_events E w NoJob = []"

lemma drop_resources_keeps_lock: "emits (keeps_lock None) (drop_resources E c)"
proof -
  have "instancePathFromDatabasePath (Clients_DatabasePath c) \<noteq> []" by (simp add: Clients_DatabasePath_def)
  then show ?thesis
    unfolding drop_resources_def
    by (intro keeps_lock.emits_rules dropDatabaseWithRetry_keeps_lock) (simp_all add: keeps_lock_def)
qed

lemma Clients_close_body_keeps_lock: "emits (keeps_lock None) (Clients_close_body E c)"
  unfolding Clients_close_body_def close_data_client_def close_admin_clients_def
  by (intro keeps_lock.emits_rules drop_resources_keeps_lock) (simp_all add: keeps_lock_def)

lemma Clients_Close_keeps_lock: "keeps_lock None (events (Clients_Close E c) w)"
proof (cases "is_open (cl_closeState c)")
  case True
  with Clients_close_body_keeps_lock [of E c] show ?thesis by (simp add: Clients_Close_open emits_def)
next
  case False
  then obtain e where "closed_with (cl_closeState c) e" using not_is_open by blast
  from clients.close_closed [OF this] show ?thesis by (simp add: keeps_lock_def)
qed

lemma program_keeps_lock: "keeps_lock None (program_events E w job)"
proof (cases job)
  case (OpenClientsJob c uri opts co)
  then show ?thesis using ensuresD [OF setup_spec, of E c uri opts co w] by simp
next
  case (BootstrapJob c opts co)
  then show ?thesis using ensuresD [OF bootstrap_inv, of E c opts co w] by (simp add: boot_inv_def)
next
  case (ManagedBootstrapJob c opts co)
  then show ?thesis using ensuresD [OF bootstrapWithManagedClientConfig_inv, of E c opts co w] by (simp add: boot_inv_def)
next
  case (DropJob c p i d)
  then show ?thesis using dropDatabaseWithRetry_keeps_lock [of "databasePath p i d" E c True] by (simp add: emits_def)
next
  case (CloseClientsJob cl)
  with Clients_Close_keeps_lock show ?thesis by simp
qed (simp add: keeps_lock_def)

text \<open>What can be reached when every goroutine runs such a program, each with its own answers.\<close>

definition programs_reach :: "(thread \<Rightarrow> env) \<Rightarrow> (thread \<Rightarrow> world) \<Rightarrow> (thread \<Rightarrow> admin_program) \<Rightarrow> lock_system \<Rightarrow> bool" where
  "programs_reach E w jobs s \<longleftrightarrow> (\<exists>n. system_steps n (initial_system (\<lambda>t. program_events (E t) (w t) (jobs t))) s)"

lemma program_waits_follow: "waits_follow False (program_events E w job)"
proof (cases job)
  case (CloseClientsJob cl)
  with waits_without_creation [OF only_Clients_Close [OF order_refl], of E cl] show ?thesis by (simp add: emits_def)
next
  case (DropJob c p i d)
  with waits_without_creation [OF only_drop [OF order_refl], of E c True "databasePath p i d"] show ?thesis
    by (simp add: emits_def)
qed (use waits_setup waits_bootstraps in \<open>simp_all add: emits_def\<close>)

lemma programs_inv: "programs_reach E w jobs s \<Longrightarrow> system_inv s"
  using system_inv_initial [of "\<lambda>t. program_events (E t) (w t) (jobs t)"] system_inv_steps
  unfolding programs_reach_def by (metis program_keeps_lock program_waits_follow)

lemma programs_others_idle:
  assumes "programs_reach E w jobs s" and "\<And>t. n \<le> t \<Longrightarrow> jobs t = NoJob" and "n \<le> t"
  shows "todo s t = []"
proof -
  have "todo (initial_system (\<lambda>t. program_events (E t) (w t) (jobs t))) u = []" if "n \<le> u" for u
    using assms(2) [OF that] by (simp add: initial_system_def)
  with assms(1,3) system_steps_work show ?thesis unfolding programs_reach_def by blast
qed

end
