(* ===== verification/Goroutines.thy ===== *)
theory Goroutines
  imports Main
begin

section \<open>Goroutines and what they share (sync)\<close>

text \<open>
  What the models of concurrent code have in common: goroutines have numbers, a \<open>sync.Once\<close> has
  three states, and a run of one goroutine alone is a path through positions of its code.
\<close>

type_synonym goroutine = nat

datatype sync_once = Fresh | Running goroutine | Done

text \<open>A \<open>sync.Once\<close> only advances: from unused, through running in one goroutine, to done.\<close>

instantiation sync_once :: "{order_bot, order_top}"
begin

definition less_eq_sync_once :: "sync_once \<Rightarrow> sync_once \<Rightarrow> bool" where
  "less_eq_sync_once a b \<longleftrightarrow> a = Fresh \<or> a = b \<or> b = Done"

definition less_sync_once :: "sync_once \<Rightarrow> sync_once \<Rightarrow> bool" where
  "less_sync_once a b \<longleftrightarrow> a \<le> b \<and> a \<noteq> b"

definition bot_sync_once :: sync_once where
  "bot_sync_once = Fresh"

definition top_sync_once :: sync_once where
  "top_sync_once = Done"

instance
  by standard (auto simp: less_eq_sync_once_def less_sync_once_def bot_sync_once_def top_sync_once_def)

end

lemma once_order [simp]: "Fresh \<le> o'" "o' \<le> Done" "Done \<le> o' \<longleftrightarrow> o' = Done" "Running t \<le> o' \<longleftrightarrow> o' \<in> {Running t, Done}"
  by (auto simp: less_eq_sync_once_def)

text \<open>
  A run of the goroutine \<open>t\<close> through given positions, for a step relation labelled with goroutines
  and the function that gives their positions.
\<close>

inductive solo :: "(goroutine \<Rightarrow> 's \<Rightarrow> 's \<Rightarrow> bool) \<Rightarrow> ('s \<Rightarrow> goroutine \<Rightarrow> 'pc) \<Rightarrow> goroutine \<Rightarrow> 'pc list \<Rightarrow> 's \<Rightarrow> 's \<Rightarrow> bool"
  for step and pcs and t where
  arrived: "solo step pcs t [] s s"
| walk: "step t s s' \<Longrightarrow> pcs s' t = pc \<Longrightarrow> solo step pcs t ps s' s'' \<Longrightarrow> solo step pcs t (pc # ps) s s''"

lemma last_step: "step t s s' \<Longrightarrow> pcs s' t = pc \<Longrightarrow> solo step pcs t [pc] s s'"
  by (blast intro: solo.intros)

lemma solo_append: "solo step pcs t ps s s' \<Longrightarrow> solo step pcs t qs s' s'' \<Longrightarrow> solo step pcs t (ps @ qs) s s''"
  by (induction rule: solo.induct) (auto intro: solo.walk)

lemma solo_ends: "solo step pcs t ps s s' \<Longrightarrow> ps \<noteq> [] \<Longrightarrow> pcs s' t = last ps"
proof (induction rule: solo.induct)
  case (walk s s' pc ps s'')
  then show ?case by (cases "ps = []") (auto elim: solo.cases)
qed simp

subsection \<open>Calls that return\<close>

text \<open>
  \<open>left\<close> is the number of steps that a call has before it at most, by its position; a goroutine
  with none is in no call.  \<open>returning n s s'\<close> is a run of \<open>n\<close> steps that only calls in progress take.
\<close>

definition in_call :: "('s \<Rightarrow> goroutine \<Rightarrow> 'pc) \<Rightarrow> ('pc \<Rightarrow> nat) \<Rightarrow> 's \<Rightarrow> goroutine set" where
  "in_call pcs left s = {t. left (pcs s t) \<noteq> 0}"

definition work :: "('s \<Rightarrow> goroutine \<Rightarrow> 'pc) \<Rightarrow> ('pc \<Rightarrow> nat) \<Rightarrow> 's \<Rightarrow> nat" where
  "work pcs left s = (\<Sum>t \<in> in_call pcs left s. left (pcs s t))"

inductive returning :: "(goroutine \<Rightarrow> 's \<Rightarrow> 's \<Rightarrow> bool) \<Rightarrow> ('s \<Rightarrow> goroutine \<Rightarrow> 'pc) \<Rightarrow> ('pc \<Rightarrow> nat) \<Rightarrow> nat \<Rightarrow> 's \<Rightarrow> 's \<Rightarrow> bool"
  for step and pcs and left where
  rest: "returning step pcs left 0 s s"
| go_on: "returning step pcs left n s s' \<Longrightarrow> step t s' s'' \<Longrightarrow> t \<in> in_call pcs left s' \<Longrightarrow> returning step pcs left (Suc n) s s''"

text \<open>
  The contract of a model of calls: a step moves one goroutine, and shortens its call if it is in
  one; the good states are closed under steps, have finitely many calls in progress, and in them
  some call can go on as long as there is one.
\<close>

locale calls =
  fixes step :: "goroutine \<Rightarrow> 's \<Rightarrow> 's \<Rightarrow> bool" and pcs :: "'s \<Rightarrow> goroutine \<Rightarrow> 'pc"
    and left :: "'pc \<Rightarrow> nat" and good :: "'s \<Rightarrow> bool"
  assumes step_pcs: "step t s s' \<Longrightarrow> pcs s' = (pcs s)(t := pcs s' t)"
    and goes_on: "step t s s' \<Longrightarrow> left (pcs s t) \<noteq> 0 \<Longrightarrow> left (pcs s' t) < left (pcs s t)"
    and good_step: "good s \<Longrightarrow> step t s s' \<Longrightarrow> good s'"
    and good_finite: "good s \<Longrightarrow> finite (in_call pcs left s)"
    and can_step: "good s \<Longrightarrow> t \<in> in_call pcs left s \<Longrightarrow> \<exists>u s'. u \<in> in_call pcs left s \<and> step u s s'"
begin

lemma step_works:
  assumes "step t s s'" and "t \<in> in_call pcs left s" "good s"
  shows "work pcs left s' < work pcs left s"
proof -
  let ?A = "in_call pcs left s"
  have t: "left (pcs s t) \<noteq> 0" using assms(2) by (simp add: in_call_def)
  have "in_call pcs left s' \<subseteq> ?A"
    using t unfolding in_call_def by (subst step_pcs [OF assms(1)]) auto
  then have "work pcs left s' = (\<Sum>u \<in> ?A. left (pcs s' u))"
    unfolding work_def by (intro sum.mono_neutral_left [OF good_finite [OF assms(3)]]) (auto simp: in_call_def)
  also have "\<dots> < work pcs left s"
    unfolding work_def
  proof (rule sum_strict_mono_ex1 [OF good_finite [OF assms(3)]])
    show "\<forall>u \<in> ?A. left (pcs s' u) \<le> left (pcs s u)"
      using goes_on [OF assms(1) t] by (subst step_pcs [OF assms(1)]) auto
    show "\<exists>u \<in> ?A. left (pcs s' u) < left (pcs s u)"
      using assms(2) goes_on [OF assms(1) t] by blast
  qed
  finally show ?thesis .
qed

lemma returning_good: "returning step pcs left n s s' \<Longrightarrow> good s \<Longrightarrow> good s'"
  by (induction rule: returning.induct) (auto intro: good_step)

lemma returning_works: "returning step pcs left n s s' \<Longrightarrow> good s \<Longrightarrow> n + work pcs left s' \<le> work pcs left s"
proof (induction rule: returning.induct)
  case (go_on n s s' t s'')
  from step_works [OF go_on.hyps(2,3)] returning_good [OF go_on.hyps(1)] go_on show ?case by fastforce
qed simp

lemma returning_goes_on:
  assumes "returning step pcs left n s s'" "good s" and "in_call pcs left s' \<noteq> {}"
  shows "\<exists>s''. returning step pcs left (Suc n) s s''"
  using can_step [OF returning_good [OF assms(1,2)]] assms(3) returning.go_on [OF assms(1)] by blast

text \<open>Every call returns: a bound on the steps of those in progress, and no deadlock.\<close>

lemma calls_return:
  assumes "returning step pcs left n s s'" "good s"
  shows "n \<le> work pcs left s \<and> (in_call pcs left s' \<noteq> {} \<longrightarrow> (\<exists>s''. returning step pcs left (Suc n) s s''))"
  using returning_works [OF assms] returning_goes_on [OF assms] by auto

end

text \<open>A step adds no other goroutine to those in a call.\<close>

lemma in_call_step:
  assumes "pcs s' = (pcs s)(t := pcs s' t)"
  shows "in_call pcs left s' \<subseteq> insert t (in_call pcs left s)"
  unfolding in_call_def by (subst assms) auto

end
