(* ===== verification/Lazy_Concurrency.thy ===== *)
theory Lazy_Concurrency
  imports Goroutines
begin

section \<open>Lazy handles under concurrency (lazy.go)\<close>

text \<open>
  \<open>get\<close> and \<open>close\<close> of \<open>lazyRuntimeState\<close> as interleaved steps of any number of goroutines.  A
  \<open>sync.Once\<close> is unused, running in one goroutine, or done; a caller that finds it running
  waits.  Two counters count the starts and the calls of the runtime's \<open>Close\<close>.
\<close>

datatype lazy_pc =
    Away
  | GetOnce
  | GetStarting
  | GetReading
  | CloseFirst
  | CloseSecond
  | CloseRunning
  | CloseReturning

record lazy_conc =
  once :: sync_once
  started :: bool
  closeOnce :: sync_once
  starts :: nat
  closings :: nat
  lazy_pcs :: "goroutine \<Rightarrow> lazy_pc"

definition initial_lazy :: lazy_conc where
  "initial_lazy = \<lparr>once = Fresh, started = False, closeOnce = Fresh, starts = 0, closings = 0,
     lazy_pcs = (\<lambda>t. Away)\<rparr>"

definition goto :: "goroutine \<Rightarrow> lazy_pc \<Rightarrow> lazy_conc \<Rightarrow> lazy_conc" where
  "goto t pc s = s\<lparr>lazy_pcs := (lazy_pcs s)(t := pc)\<rparr>"

lemma goto_simps [simp]:
  "lazy_pcs (goto t pc s) = (lazy_pcs s)(t := pc)"
  "once (goto t pc s) = once s" "started (goto t pc s) = started s"
  "closeOnce (goto t pc s) = closeOnce s" "starts (goto t pc s) = starts s" "closings (goto t pc s) = closings s"
  by (simp_all add: goto_def)

text \<open>
  \<open>start_returns\<close>: the start function returns, with a runtime or without one (an error or a
  panic).  \<open>close_noop\<close>: the empty function that \<open>close\<close> gives to \<open>once\<close>, which takes the place of
  a start.  A step is labelled with the goroutine that takes it.
\<close>

inductive lazy_step :: "goroutine \<Rightarrow> lazy_conc \<Rightarrow> lazy_conc \<Rightarrow> bool" where
  get_call: "lazy_pcs s t = Away \<Longrightarrow> lazy_step t s (goto t GetOnce s)"
| start_begins: "lazy_pcs s t = GetOnce \<Longrightarrow> once s = Fresh \<Longrightarrow>
     lazy_step t s (goto t GetStarting (s\<lparr>once := Running t, starts := Suc (starts s)\<rparr>))"
| start_returns: "lazy_pcs s t = GetStarting \<Longrightarrow>
     lazy_step t s (goto t GetReading (s\<lparr>once := Done, started := ok\<rparr>))"
| get_waits: "lazy_pcs s t = GetOnce \<Longrightarrow> once s = Done \<Longrightarrow> lazy_step t s (goto t GetReading s)"
| get_returns: "lazy_pcs s t = GetReading \<Longrightarrow> lazy_step t s (goto t Away s)"
| close_call: "lazy_pcs s t = Away \<Longrightarrow> lazy_step t s (goto t CloseFirst s)"
| close_noop: "lazy_pcs s t = CloseFirst \<Longrightarrow> once s = Fresh \<Longrightarrow>
     lazy_step t s (goto t CloseSecond (s\<lparr>once := Done\<rparr>))"
| close_waits: "lazy_pcs s t = CloseFirst \<Longrightarrow> once s = Done \<Longrightarrow> lazy_step t s (goto t CloseSecond s)"
| close_begins: "lazy_pcs s t = CloseSecond \<Longrightarrow> closeOnce s = Fresh \<Longrightarrow> started s \<Longrightarrow>
     lazy_step t s (goto t CloseRunning (s\<lparr>closeOnce := Running t, closings := Suc (closings s)\<rparr>))"
| close_nothing: "lazy_pcs s t = CloseSecond \<Longrightarrow> closeOnce s = Fresh \<Longrightarrow> \<not> started s \<Longrightarrow>
     lazy_step t s (goto t CloseReturning (s\<lparr>closeOnce := Done\<rparr>))"
| close_ends: "lazy_pcs s t = CloseRunning \<Longrightarrow> lazy_step t s (goto t CloseReturning (s\<lparr>closeOnce := Done\<rparr>))"
| close_second: "lazy_pcs s t = CloseSecond \<Longrightarrow> closeOnce s = Done \<Longrightarrow> lazy_step t s (goto t CloseReturning s)"
| close_returns: "lazy_pcs s t = CloseReturning \<Longrightarrow> lazy_step t s (goto t Away s)"

inductive_cases lazy_stepE: "lazy_step t s s'"

inductive lazy_reachable :: "lazy_conc \<Rightarrow> bool" where
  initial: "lazy_reachable initial_lazy"
| step: "lazy_reachable s \<Longrightarrow> lazy_step t s s' \<Longrightarrow> lazy_reachable s'"

text \<open>The part of the invariant on the shared fields.\<close>

definition lazy_fields_ok :: "lazy_conc \<Rightarrow> bool" where
  "lazy_fields_ok s \<longleftrightarrow>
     starts s \<le> 1 \<and> (once s = Fresh \<longrightarrow> starts s = 0) \<and> (started s \<longrightarrow> starts s = 1 \<and> once s = Done) \<and>
     (closeOnce s \<noteq> Fresh \<longrightarrow> once s = Done) \<and>
     (\<forall>t. once s = Running t \<longrightarrow> starts s = 1) \<and>
     closings s = (if closeOnce s = Fresh \<or> \<not> started s then 0 else 1)"

text \<open>The part on the goroutines.\<close>

definition lazy_thread_ok :: "lazy_conc \<Rightarrow> goroutine \<Rightarrow> bool" where
  "lazy_thread_ok s t \<longleftrightarrow>
     (lazy_pcs s t = GetStarting \<longleftrightarrow> once s = Running t) \<and>
     (lazy_pcs s t = CloseRunning \<longleftrightarrow> closeOnce s = Running t) \<and>
     (lazy_pcs s t \<in> {GetReading, CloseSecond, CloseRunning, CloseReturning} \<longrightarrow> once s = Done) \<and>
     (lazy_pcs s t = CloseReturning \<longrightarrow> closeOnce s = Done)"

definition lazy_inv :: "lazy_conc \<Rightarrow> bool" where
  "lazy_inv s \<longleftrightarrow> lazy_fields_ok s \<and> (\<forall>t. lazy_thread_ok s t)"

lemma lazy_inv_initial: "lazy_inv initial_lazy"
  by (simp add: lazy_inv_def lazy_fields_ok_def lazy_thread_ok_def initial_lazy_def)

lemmas lazy_ok_defs = lazy_fields_ok_def lazy_thread_ok_def

text \<open>One step keeps the invariant: the part of the acting goroutine decides which case can happen.\<close>

lemma lazy_inv_step:
  assumes "lazy_step t s s'" and "lazy_inv s"
  shows "lazy_inv s'"
proof -
  from assms(2) have f: "lazy_fields_ok s" and th: "lazy_thread_ok s t'" for t'
    by (simp_all add: lazy_inv_def)
  have "lazy_fields_ok s'"
    using assms(1) f th [of t] by (elim lazy_stepE) (auto simp: lazy_ok_defs split: if_splits)
  moreover have "lazy_thread_ok s' u" for u
    using assms(1) f th [of t] th [of u] by (elim lazy_stepE) (auto simp: lazy_ok_defs)
  ultimately show ?thesis by (simp add: lazy_inv_def)
qed

lemma lazy_reachable_inv: "lazy_reachable s \<Longrightarrow> lazy_inv s"
  by (induction rule: lazy_reachable.induct) (auto intro: lazy_inv_initial lazy_inv_step)

text \<open>What the invariant says to a caller.\<close>

lemma lazy_inv_facts:
  assumes "lazy_inv s"
  shows "starts s \<le> 1" "closings s \<le> starts s" and "lazy_pcs s t = GetReading \<Longrightarrow> once s = Done"
    and "lazy_pcs s t = GetStarting \<and> lazy_pcs s u = GetStarting \<or> lazy_pcs s t = CloseRunning \<and> lazy_pcs s u = CloseRunning \<Longrightarrow> t = u"
    and "lazy_pcs s t = CloseRunning \<Longrightarrow> lazy_pcs s u \<noteq> GetStarting"
    and "lazy_pcs s t \<in> {CloseSecond, CloseRunning, CloseReturning} \<Longrightarrow> once s = Done"
  using assms by (fastforce simp: lazy_inv_def lazy_fields_ok_def lazy_thread_ok_def)+

inductive lazy_steps :: "lazy_conc \<Rightarrow> lazy_conc \<Rightarrow> bool" where
  stay: "lazy_steps s s"
| further: "lazy_steps s s' \<Longrightarrow> lazy_step t s' s'' \<Longrightarrow> lazy_steps s s''"

lemma lazy_steps_inv: "lazy_steps s s' \<Longrightarrow> lazy_inv s \<Longrightarrow> lazy_inv s'"
  by (induction rule: lazy_steps.induct) (auto intro: lazy_inv_step)

lemma lazy_steps_trans: "lazy_steps s' s'' \<Longrightarrow> lazy_steps s s' \<Longrightarrow> lazy_steps s s''"
  by (induction rule: lazy_steps.induct) (auto intro: lazy_steps.further)

lemma lazy_steps_reachable: "lazy_steps s s' \<Longrightarrow> lazy_reachable s \<Longrightarrow> lazy_reachable s'"
  by (induction rule: lazy_steps.induct) (auto intro: lazy_reachable.step)

subsection \<open>Nothing is undone\<close>

text \<open>
  What two states have in common, the later after the earlier: both uses of \<open>sync.Once\<close> have
  advanced, nothing is forgotten, and once the start is over its outcome and its count stay.
\<close>

definition lazy_later :: "lazy_conc \<Rightarrow> lazy_conc \<Rightarrow> bool" where
  "lazy_later s s' \<longleftrightarrow> once s \<le> once s' \<and> closeOnce s \<le> closeOnce s' \<and> starts s \<le> starts s' \<and> closings s \<le> closings s' \<and>
     (once s = Done \<longrightarrow> started s' = started s \<and> starts s' = starts s)"

lemma lazy_later_step:
  assumes "lazy_step t s s'" and "lazy_inv s"
  shows "lazy_later s s'"
proof -
  have "lazy_thread_ok s t" using assms(2) by (simp add: lazy_inv_def)
  with assms(1) show ?thesis by (elim lazy_stepE) (auto simp: lazy_thread_ok_def lazy_later_def)
qed

lemma lazy_later_trans: "lazy_later s s' \<Longrightarrow> lazy_later s' s'' \<Longrightarrow> lazy_later s s''"
  unfolding lazy_later_def by (metis order_trans once_order(3))

lemma lazy_steps_later:
  assumes "lazy_steps s s'" and "lazy_inv s"
  shows "lazy_later s s'"
  using assms
proof (induction rule: lazy_steps.induct)
  case (stay s)
  then show ?case by (simp add: lazy_later_def)
next
  case (further s s' t s'')
  then show ?case by (blast intro: lazy_later_trans lazy_later_step lazy_steps_inv)
qed

subsection \<open>Every call returns\<close>

text \<open>The steps that a call has before it at most, and those of all calls in progress.\<close>

primrec steps_left :: "lazy_pc \<Rightarrow> nat" where
  "steps_left Away = 0"
| "steps_left GetOnce = 3"
| "steps_left GetStarting = 2"
| "steps_left GetReading = 1"
| "steps_left CloseFirst = 4"
| "steps_left CloseSecond = 3"
| "steps_left CloseRunning = 2"
| "steps_left CloseReturning = 1"

lemma steps_left_0 [simp]: "steps_left pc = 0 \<longleftrightarrow> pc = Away"
  by (cases pc) simp_all

lemma step_pcs: "lazy_step t s s' \<Longrightarrow> lazy_pcs s' = (lazy_pcs s)(t := lazy_pcs s' t)"
  by (elim lazy_stepE) auto

lemma in_call_finite: "lazy_reachable s \<Longrightarrow> finite (in_call lazy_pcs steps_left s)"
proof (induction rule: lazy_reachable.induct)
  case initial
  then show ?case by (simp add: in_call_def initial_lazy_def)
next
  case (step s t s')
  with in_call_step [OF step_pcs [OF step.hyps(2)], where left = steps_left] show ?case by (simp add: finite_subset)
qed

text \<open>A goroutine whose call waits, waits for one that can go on.\<close>

lemma call_can_step:
  assumes "lazy_inv s" and "lazy_pcs s t \<noteq> Away"
  shows "\<exists>u s'. lazy_pcs s u \<noteq> Away \<and> lazy_step u s s'"
proof -
  have th: "lazy_thread_ok s u" for u using assms(1) by (simp add: lazy_inv_def)
  have first: "\<exists>u s'. lazy_pcs s u \<noteq> Away \<and> lazy_step u s s'" if "once s = Running u" for u
    using th [of u] that by (intro exI [of _ u]) (auto simp: lazy_thread_ok_def intro: lazy_step.start_returns)
  have second: "\<exists>u s'. lazy_pcs s u \<noteq> Away \<and> lazy_step u s s'" if "closeOnce s = Running u" for u
    using th [of u] that by (intro exI [of _ u]) (auto simp: lazy_thread_ok_def intro: lazy_step.close_ends)
  have own: "\<exists>s'. lazy_step t s s'" if "\<And>u. once s \<noteq> Running u" "\<And>u. closeOnce s \<noteq> Running u"
    using that assms(2)
    by (cases "lazy_pcs s t"; cases "once s"; cases "closeOnce s"; cases "started s") (auto intro: lazy_step.intros)
  from first second own assms(2) show ?thesis by blast
qed

interpretation lazy_calls: calls lazy_step lazy_pcs steps_left lazy_reachable
proof
  show "steps_left (lazy_pcs s' t) < steps_left (lazy_pcs s t)"
    if "lazy_step t s s'" "steps_left (lazy_pcs s t) \<noteq> 0" for t s s'
    using that by (elim lazy_stepE) auto
  show "\<exists>u s'. u \<in> in_call lazy_pcs steps_left s \<and> lazy_step u s s'"
    if "lazy_reachable s" "t \<in> in_call lazy_pcs steps_left s" for s t
    using call_can_step [OF lazy_reachable_inv [OF that(1)], of t] that(2) by (simp add: in_call_def)
qed (blast intro: step_pcs lazy_reachable.step in_call_finite)+

end
