(* ===== verification/Lazy_Refinement.thy ===== *)
theory Lazy_Refinement
  imports Lazy_State Lazy_Concurrency
begin

section \<open>The methods of a lazy handle refine the step relation (lazy.go)\<close>

text \<open>
  \<open>Lazy_State\<close> has the two methods as the code has them, with values and errors;
  \<open>Lazy_Concurrency\<close> has their steps, with no more of the state than the synchronisation
  needs.  A call that runs alone is a run of the steps of one goroutine: the abstraction of
  the state before leads to the abstraction of the state after.
\<close>

text \<open>The abstract state, when \<open>n\<close> starts and \<open>m\<close> closes of a runtime have happened and no call is in progress.\<close>

definition lazy_abs :: "'r lazyRuntimeState \<Rightarrow> nat \<Rightarrow> nat \<Rightarrow> lazy_conc" where
  "lazy_abs s n m =
     \<lparr>once = (if lz_once s then Done else Fresh), started = (lz_runtime s \<noteq> None),
      closeOnce = (if lz_closeOnce s then Done else Fresh), starts = n, closings = m, lazy_pcs = (\<lambda>t. Away)\<rparr>"

text \<open>A state that the methods produce: without a start, no runtime, no panic and no close.\<close>

definition lazy_wf :: "'r lazyRuntimeState \<Rightarrow> bool" where
  "lazy_wf s \<longleftrightarrow> (lz_once s \<or> lz_runtime s = None \<and> \<not> lz_panicked s \<and> \<not> lz_closeOnce s) \<and>
     (lz_panicked s \<longrightarrow> lz_runtime s = None)"

lemma lazy_abs_zero: "lazy_abs zeroLazyState 0 0 = initial_lazy" "lazy_wf zeroLazyState"
  by (simp_all add: lazy_abs_def zeroLazyState_def initial_lazy_def lazy_wf_def)

subsection \<open>The way of one call\<close>

abbreviation lazy_path :: "goroutine \<Rightarrow> lazy_pc list \<Rightarrow> lazy_conc \<Rightarrow> lazy_conc \<Rightarrow> bool" where
  "lazy_path \<equiv> solo lazy_step lazy_pcs"

lemmas lazy_walk = solo.walk [where step = lazy_step and pcs = lazy_pcs]
  and lazy_last_step = last_step [where step = lazy_step and pcs = lazy_pcs]

lemma lazy_path_steps: "lazy_path t pcs s s' \<Longrightarrow> lazy_steps s s'"
  by (induction rule: solo.induct) (blast intro: lazy_steps_trans lazy_steps.intros)+

text \<open>A state with no call in progress, and one with the goroutine \<open>t\<close> at a position.\<close>

definition idle :: "lazy_conc \<Rightarrow> bool" where
  "idle s \<longleftrightarrow> lazy_pcs s = (\<lambda>t. Away)"

lemma goto_norm [simp]:
  "goto t pc (goto t pc' s) = goto t pc s"
  "(goto t pc s)\<lparr>once := a\<rparr> = goto t pc (s\<lparr>once := a\<rparr>)" "(goto t pc s)\<lparr>started := b\<rparr> = goto t pc (s\<lparr>started := b\<rparr>)"
  "(goto t pc s)\<lparr>closeOnce := a\<rparr> = goto t pc (s\<lparr>closeOnce := a\<rparr>)" "(goto t pc s)\<lparr>starts := n\<rparr> = goto t pc (s\<lparr>starts := n\<rparr>)"
  "(goto t pc s)\<lparr>closings := n\<rparr> = goto t pc (s\<lparr>closings := n\<rparr>)"
  by (simp_all add: goto_def)

lemma goto_Away_idle: "idle s \<Longrightarrow> goto t Away s = s"
  by (simp add: idle_def goto_def fun_upd_idem)

lemma idle_update [simp]:
  "idle (s\<lparr>once := a\<rparr>) = idle s" "idle (s\<lparr>started := b\<rparr>) = idle s" "idle (s\<lparr>closeOnce := a\<rparr>) = idle s"
  "idle (s\<lparr>starts := n\<rparr>) = idle s" "idle (s\<lparr>closings := n\<rparr>) = idle s"
  by (simp_all add: idle_def)

lemma counts_last [simp]:
  "s\<lparr>starts := n, once := a\<rparr> = s\<lparr>once := a, starts := n\<rparr>" "s\<lparr>starts := n, started := b\<rparr> = s\<lparr>started := b, starts := n\<rparr>"
  "s\<lparr>closings := n, closeOnce := a\<rparr> = s\<lparr>closeOnce := a, closings := n\<rparr>"
  by simp_all

text \<open>The steps between such states.\<close>

lemma steps_of_get:
  "idle s \<Longrightarrow> lazy_step t s (goto t GetOnce s)"
  "once s = Fresh \<Longrightarrow>
     lazy_step t (goto t GetOnce s) (goto t GetStarting (s\<lparr>once := Running t, starts := Suc (starts s)\<rparr>))"
  "lazy_step t (goto t GetStarting s) (goto t GetReading (s\<lparr>once := Done, started := ok\<rparr>))"
  "once s = Done \<Longrightarrow> lazy_step t (goto t GetOnce s) (goto t GetReading s)"
  "idle s \<Longrightarrow> lazy_step t (goto t GetReading s) s"
  using lazy_step.get_call [of s t] lazy_step.start_begins [of "goto t GetOnce s" t]
    lazy_step.start_returns [of "goto t GetStarting s" t ok] lazy_step.get_waits [of "goto t GetOnce s" t]
    lazy_step.get_returns [of "goto t GetReading s" t]
  by (simp_all add: goto_Away_idle) (simp add: idle_def)

lemma steps_of_close:
  "idle s \<Longrightarrow> lazy_step t s (goto t CloseFirst s)"
  "once s \<in> {Fresh, Done} \<Longrightarrow> lazy_step t (goto t CloseFirst s) (goto t CloseSecond (s\<lparr>once := Done\<rparr>))"
  "closeOnce s = Done \<Longrightarrow> lazy_step t (goto t CloseSecond s) (goto t CloseReturning s)"
  "closeOnce s = Fresh \<Longrightarrow> \<not> started s \<Longrightarrow>
     lazy_step t (goto t CloseSecond s) (goto t CloseReturning (s\<lparr>closeOnce := Done\<rparr>))"
  "closeOnce s = Fresh \<Longrightarrow> started s \<Longrightarrow>
     lazy_step t (goto t CloseSecond s) (goto t CloseRunning (s\<lparr>closeOnce := Running t, closings := Suc (closings s)\<rparr>))"
  "lazy_step t (goto t CloseRunning s) (goto t CloseReturning (s\<lparr>closeOnce := Done\<rparr>))"
  "idle s \<Longrightarrow> lazy_step t (goto t CloseReturning s) s"
proof -
  show "lazy_step t (goto t CloseFirst s) (goto t CloseSecond (s\<lparr>once := Done\<rparr>))" if "once s \<in> {Fresh, Done}"
  proof (cases "once s = Done")
    case True
    then have same: "s\<lparr>once := Done\<rparr> = s" by simp
    show ?thesis unfolding same using True lazy_step.close_waits [of "goto t CloseFirst s" t] by simp
  next
    case False
    with that lazy_step.close_noop [of "goto t CloseFirst s" t] show ?thesis by simp
  qed
qed (use lazy_step.close_call [of s t] lazy_step.close_second [of "goto t CloseSecond s" t]
    lazy_step.close_nothing [of "goto t CloseSecond s" t] lazy_step.close_begins [of "goto t CloseSecond s" t]
    lazy_step.close_ends [of "goto t CloseRunning s" t] lazy_step.close_returns [of "goto t CloseReturning s" t]
    in \<open>auto simp: goto_Away_idle idle_def\<close>)

text \<open>The ways through the two methods, from a state with no call in progress back to one.\<close>

lemma idle_pc: "idle s \<Longrightarrow> lazy_pcs s t = Away"
  by (simp add: idle_def)

lemma path_get:
  assumes "idle s"
  shows "once s = Fresh \<Longrightarrow> lazy_path t [GetOnce, GetStarting, GetReading, Away] s
      (s\<lparr>once := Done, started := ok, starts := Suc (starts s)\<rparr>)"
    and "once s = Done \<Longrightarrow> lazy_path t [GetOnce, GetReading, Away] s s"
proof -
  show "lazy_path t [GetOnce, GetStarting, GetReading, Away] s (s\<lparr>once := Done, started := ok, starts := Suc (starts s)\<rparr>)"
    if "once s = Fresh"
    using steps_of_get(3) [of t "s\<lparr>once := Running t, starts := Suc (starts s)\<rparr>" ok]
    by (intro lazy_walk [OF steps_of_get(1) [OF assms]] lazy_walk [OF steps_of_get(2) [OF that]] lazy_last_step
        [OF steps_of_get(5)] lazy_walk [where s' = "goto t GetReading (s\<lparr>once := Done, started := ok, starts := Suc (starts s)\<rparr>)"])
      (simp_all add: assms idle_pc)
  show "lazy_path t [GetOnce, GetReading, Away] s s" if "once s = Done"
    by (intro lazy_walk [OF steps_of_get(1) [OF assms]] lazy_walk [OF steps_of_get(4) [OF that]]
        lazy_last_step [OF steps_of_get(5) [OF assms]]) (simp_all add: idle_pc assms)
qed

lemma path_close:
  assumes "idle s" "once s \<in> {Fresh, Done}"
  shows "closeOnce s = Done \<Longrightarrow> lazy_path t [CloseFirst, CloseSecond, CloseReturning, Away] s (s\<lparr>once := Done\<rparr>)"
    and "closeOnce s = Fresh \<Longrightarrow> \<not> started s \<Longrightarrow>
      lazy_path t [CloseFirst, CloseSecond, CloseReturning, Away] s (s\<lparr>once := Done, closeOnce := Done\<rparr>)"
    and "closeOnce s = Fresh \<Longrightarrow> started s \<Longrightarrow> lazy_path t [CloseFirst, CloseSecond, CloseRunning, CloseReturning, Away] s
      (s\<lparr>once := Done, closeOnce := Done, closings := Suc (closings s)\<rparr>)"
proof -
  let ?s = "s\<lparr>once := Done\<rparr>"
  note first = lazy_walk [OF steps_of_close(1) [OF assms(1)] _ lazy_walk [OF steps_of_close(2) [OF assms(2)]]]
  show "lazy_path t [CloseFirst, CloseSecond, CloseReturning, Away] s ?s" if "closeOnce s = Done"
    using that assms
    by (intro first lazy_walk [OF steps_of_close(3)] lazy_last_step [OF steps_of_close(7)]) (simp_all add: idle_pc)
  show "lazy_path t [CloseFirst, CloseSecond, CloseReturning, Away] s (?s\<lparr>closeOnce := Done\<rparr>)"
    if "closeOnce s = Fresh" "\<not> started s"
    using that assms
    by (intro first lazy_walk [OF steps_of_close(4)] lazy_last_step [OF steps_of_close(7)]) (simp_all add: idle_pc)
  show "lazy_path t [CloseFirst, CloseSecond, CloseRunning, CloseReturning, Away] s
      (?s\<lparr>closeOnce := Done, closings := Suc (closings s)\<rparr>)" if "closeOnce s = Fresh" "started s"
    using that assms steps_of_close(6) [of t "?s\<lparr>closeOnce := Running t, closings := Suc (closings s)\<rparr>"]
    by (intro first lazy_walk [OF steps_of_close(5)] lazy_last_step [OF steps_of_close(7)]
        lazy_walk [where s' = "goto t CloseReturning (?s\<lparr>closeOnce := Done, closings := Suc (closings s)\<rparr>)"])
      (simp_all add: idle_pc)
qed

subsection \<open>Refinement\<close>

lemma lazy_abs_simps [simp]:
  "once (lazy_abs s n m) = (if lz_once s then Done else Fresh)" "started (lazy_abs s n m) = (lz_runtime s \<noteq> None)"
  "closeOnce (lazy_abs s n m) = (if lz_closeOnce s then Done else Fresh)" "starts (lazy_abs s n m) = n"
  "closings (lazy_abs s n m) = m" "idle (lazy_abs s n m)"
  by (simp_all add: lazy_abs_def idle_def)

lemma lazy_get_first:
  assumes "lazy_wf s" "\<not> lz_once s"
  shows "lazy_wf (snd (result_of (lazy_get start msg s) w)) \<and> lz_once (snd (result_of (lazy_get start msg s) w)) \<and>
    lz_closeOnce (snd (result_of (lazy_get start msg s) w)) = lz_closeOnce s"
  using assms by (cases "result_of start w") (auto simp: lazy_get_def lazy_start_def result_of_bind lazy_wf_def)

text \<open>A get gives a runtime exactly when the abstract state has one.\<close>

lemma lazy_result_started: "lazy_wf s \<Longrightarrow> (\<exists>r e. lazy_result msg s = Returned (Some r) e) \<longleftrightarrow> lz_runtime s \<noteq> None"
  by (auto simp: lazy_result_def lazy_wf_def)

text \<open>
  The counters of the abstract state are read off the world, by \<open>n\<close> and \<open>m\<close>: functions that a run of
  the start function and of the runtime's \<open>Close\<close> advance.  So the abstraction counts the runs that
  take place, and not those that a method is expected to make.
\<close>

definition counts_calls :: "'r outcome io \<Rightarrow> ('r \<Rightarrow> (error option \<times> 'r) io) \<Rightarrow> (world \<Rightarrow> nat) \<Rightarrow> (world \<Rightarrow> nat) \<Rightarrow> bool" where
  "counts_calls start close n m \<longleftrightarrow>
     (\<forall>w. n (world_after start w) = Suc (n w) \<and> m (world_after start w) = m w) \<and>
     (\<forall>r w. n (world_after (close r) w) = n w \<and> m (world_after (close r) w) = Suc (m w))"

lemma lazy_get_world:
  "world_after (lazy_get start msg s) w = (if lz_once s then w else world_after start w)"
  by (simp add: lazy_get_def lazy_start_def world_after_bind)

lemma lazy_close_world:
  "world_after (lazy_close close s) w =
     (case lz_runtime s of None \<Rightarrow> w | Some r \<Rightarrow> if lz_closeOnce s then w else world_after (close r) w)"
  by (simp add: lazy_close_def world_after_bind Let_def split: option.split prod.split)

text \<open>What a get keeps is what the start gave, and what a close returns is what the runtime's \<open>Close\<close> gave.\<close>

lemma lazy_get_runtime:
  "lazy_wf s \<Longrightarrow> \<not> lz_once s \<Longrightarrow> lz_runtime (snd (result_of (lazy_get start msg s) w)) =
     (case result_of start w of Returned r e \<Rightarrow> r | Panicked v \<Rightarrow> None)"
  by (cases "result_of start w") (auto simp: lazy_get_def lazy_start_def result_of_bind lazy_wf_def)

lemma lazy_close_error:
  "\<not> lz_closeOnce s \<Longrightarrow> lz_runtime s = Some r \<Longrightarrow> fst (result_of (lazy_close close s) w) = fst (result_of (close r) w)"
  by (simp add: lazy_close_def result_of_bind Let_def split_beta)

lemma lazy_get_refines:
  fixes s :: "'r lazyRuntimeState" and start msg w
  assumes "lazy_wf s"
  defines "s' \<equiv> snd (result_of (lazy_get start msg s) w)"
  shows "lazy_wf s' \<and> lazy_path t (if lz_once s then [GetOnce, GetReading, Away] else [GetOnce, GetStarting, GetReading, Away])
     (lazy_abs s n m) (lazy_abs s' (if lz_once s then n else Suc n) m)"
proof (cases "lz_once s")
  case True
  then have "s' = s" by (simp add: s'_def lazy_get_once)
  with True path_get(2) [of "lazy_abs s n m" t] assms(1) show ?thesis by simp
next
  case False
  have s': "lazy_wf s'" "lz_once s'" "lz_closeOnce s' = lz_closeOnce s"
    using lazy_get_first [OF assms(1) False, of start msg w] by (simp_all add: s'_def)
  have "lazy_abs s' (Suc n) m = (lazy_abs s n m)\<lparr>once := Done, started := lz_runtime s' \<noteq> None, starts := Suc n\<rparr>"
    by (simp add: lazy_abs_def s')
  with False s'(1) path_get(1) [of "lazy_abs s n m" t] show ?thesis by simp
qed

lemma lazy_close_refines:
  fixes s :: "'r lazyRuntimeState" and close w
  assumes "lazy_wf s"
  defines "s' \<equiv> snd (result_of (lazy_close close s) w)" and "owned \<equiv> \<not> lz_closeOnce s \<and> lz_runtime s \<noteq> None"
  shows "lazy_wf s' \<and> lazy_path t
     (if owned then [CloseFirst, CloseSecond, CloseRunning, CloseReturning, Away]
      else [CloseFirst, CloseSecond, CloseReturning, Away])
     (lazy_abs s n m) (lazy_abs s' n (if owned then Suc m else m))"
proof (cases "lz_closeOnce s")
  case True
  then have s': "s' = s\<lparr>lz_once := True\<rparr>" by (simp add: s'_def lazy_close_def Let_def)
  with True path_close(1) [of "lazy_abs s n m" t] assms(1) show ?thesis
    by (simp add: owned_def lazy_wf_def) (simp add: lazy_abs_def)
next
  case False
  show ?thesis
  proof (cases "lz_runtime s")
    case None
    with False have s': "s' = s\<lparr>lz_once := True, lz_closeOnce := True\<rparr>" by (simp add: s'_def lazy_close_def Let_def)
    with False None path_close(2) [of "lazy_abs s n m" t] assms(1) show ?thesis
      by (simp add: owned_def lazy_wf_def) (simp add: lazy_abs_def)
  next
    case (Some r)
    with False assms(1) obtain r' e where s': "s' = s\<lparr>lz_once := True, lz_closeOnce := True, lz_runtime := Some r', lz_closeErr := e\<rparr>"
      by (auto simp: s'_def lazy_close_def Let_def result_of_bind split_beta)
    with False Some path_close(3) [of "lazy_abs s n m" t] assms(1) show ?thesis
      by (simp add: owned_def lazy_wf_def) (simp add: lazy_abs_def)
  qed
qed

text \<open>Both, with the counters of the world.\<close>

lemma lazy_get_counted:
  fixes s :: "'r lazyRuntimeState" and start msg w
  assumes "lazy_wf s" and "counts_calls start close n m"
  defines "s' \<equiv> snd (result_of (lazy_get start msg s) w)" and "w' \<equiv> world_after (lazy_get start msg s) w"
  shows "lazy_wf s' \<and> lazy_path t (if lz_once s then [GetOnce, GetReading, Away] else [GetOnce, GetStarting, GetReading, Away])
     (lazy_abs s (n w) (m w)) (lazy_abs s' (n w') (m w'))"
  using lazy_get_refines [OF assms(1), of start msg w t "n w" "m w"] assms(2)
  by (auto simp: s'_def w'_def lazy_get_world counts_calls_def)

lemma lazy_close_counted:
  fixes s :: "'r lazyRuntimeState" and close w
  assumes "lazy_wf s" and "counts_calls start close n m"
  defines "s' \<equiv> snd (result_of (lazy_close close s) w)" and "w' \<equiv> world_after (lazy_close close s) w"
  shows "lazy_wf s' \<and> lazy_path t
     (if \<not> lz_closeOnce s \<and> lz_runtime s \<noteq> None then [CloseFirst, CloseSecond, CloseRunning, CloseReturning, Away]
      else [CloseFirst, CloseSecond, CloseReturning, Away])
     (lazy_abs s (n w) (m w)) (lazy_abs s' (n w') (m w'))"
  using lazy_close_refines [OF assms(1), of close w t "n w" "m w"] assms(2)
  by (auto simp: s'_def w'_def lazy_close_world counts_calls_def split: option.splits)

end
