(* ===== verification/Close_Concurrency.thy ===== *)
theory Close_Concurrency
  imports Close_State Goroutines
begin

section \<open>Closing under concurrency (close.go)\<close>

text \<open>
  \<open>ensureCloseState(&slot).close(fn)\<close>, which every \<open>Close\<close> method is, as interleaved steps of any
  number of goroutines that close one value: the slot is filled under the mutex
  \<open>closeStateInitMu\<close>, in a test, a store and a load of their own, and the body runs in the
  \<open>sync.Once\<close> of the \<open>closeState\<close> that the slot points to.  Addresses are numbers; what was
  allocated at an address that is in no slot is not collected here.
\<close>

type_synonym address = nat

datatype close_pc =
    Idle
  | Locking
  | Testing
  | Storing
  | Loading
  | Unlocking address
  | AtOnce address
  | InBody address
  | Reading address

record close_conc =
  init_mu :: "goroutine option"
  slot_ptr :: "address option"
  heap_once :: "address \<Rightarrow> sync_once"
  heap_err :: "address \<Rightarrow> error option"
  next_address :: address
  bodies :: nat
  results :: "error option list"
  close_pcs :: "goroutine \<Rightarrow> close_pc"

text \<open>
  \<open>bodies\<close> counts the runs of the body; \<open>results\<close> are the values that calls have returned, the
  latest first.  A value starts with an empty slot.
\<close>

definition unclosed :: close_conc where
  "unclosed = \<lparr>init_mu = None, slot_ptr = None, heap_once = (\<lambda>a. Fresh), heap_err = (\<lambda>a. None), next_address = 0,
     bodies = 0, results = [], close_pcs = (\<lambda>t. Idle)\<rparr>"

definition move :: "goroutine \<Rightarrow> close_pc \<Rightarrow> close_conc \<Rightarrow> close_conc" where
  "move t pc s = s\<lparr>close_pcs := (close_pcs s)(t := pc)\<rparr>"

lemma move_simps [simp]:
  "close_pcs (move t pc s) = (close_pcs s)(t := pc)" "init_mu (move t pc s) = init_mu s"
  "slot_ptr (move t pc s) = slot_ptr s" "heap_once (move t pc s) = heap_once s" "heap_err (move t pc s) = heap_err s"
  "next_address (move t pc s) = next_address s" "bodies (move t pc s) = bodies s" "results (move t pc s) = results s"
  by (simp_all add: move_def)

text \<open>
  The body returns any error, or panics: then \<open>sync.Once\<close> counts as done, the error field keeps its
  zero value and the call returns nothing.
\<close>

inductive close_step :: "goroutine \<Rightarrow> close_conc \<Rightarrow> close_conc \<Rightarrow> bool" where
  call: "close_pcs s t = Idle \<Longrightarrow> close_step t s (move t Locking s)"
| mutex_lock: "close_pcs s t = Locking \<Longrightarrow> init_mu s = None \<Longrightarrow> close_step t s (move t Testing (s\<lparr>init_mu := Some t\<rparr>))"
| slot_empty: "close_pcs s t = Testing \<Longrightarrow> slot_ptr s = None \<Longrightarrow> close_step t s (move t Storing s)"
| slot_filled: "close_pcs s t = Testing \<Longrightarrow> slot_ptr s = Some a \<Longrightarrow> close_step t s (move t Loading s)"
| store: "close_pcs s t = Storing \<Longrightarrow>
     close_step t s (move t Loading (s\<lparr>slot_ptr := Some (next_address s), next_address := Suc (next_address s)\<rparr>))"
| load: "close_pcs s t = Loading \<Longrightarrow> slot_ptr s = Some a \<Longrightarrow> close_step t s (move t (Unlocking a) s)"
| mutex_unlock: "close_pcs s t = Unlocking a \<Longrightarrow> close_step t s (move t (AtOnce a) (s\<lparr>init_mu := None\<rparr>))"
| body_begins: "close_pcs s t = AtOnce a \<Longrightarrow> heap_once s a = Fresh \<Longrightarrow>
     close_step t s (move t (InBody a) (s\<lparr>heap_once := (heap_once s)(a := Running t), bodies := Suc (bodies s)\<rparr>))"
| once_done: "close_pcs s t = AtOnce a \<Longrightarrow> heap_once s a = Done \<Longrightarrow> close_step t s (move t (Reading a) s)"
| body_returns: "close_pcs s t = InBody a \<Longrightarrow>
     close_step t s (move t (Reading a) (s\<lparr>heap_once := (heap_once s)(a := Done), heap_err := (heap_err s)(a := e)\<rparr>))"
| body_panics: "close_pcs s t = InBody a \<Longrightarrow> close_step t s (move t Idle (s\<lparr>heap_once := (heap_once s)(a := Done)\<rparr>))"
| returns: "close_pcs s t = Reading a \<Longrightarrow> close_step t s (move t Idle (s\<lparr>results := heap_err s a # results s\<rparr>))"

inductive_cases close_stepE: "close_step t s s'"

inductive close_reachable :: "close_conc \<Rightarrow> bool" where
  unclosed: "close_reachable unclosed"
| step: "close_reachable s \<Longrightarrow> close_step t s s' \<Longrightarrow> close_reachable s'"

subsection \<open>The invariant\<close>

text \<open>The address of the \<open>closeState\<close> that a goroutine has, and whether it is in \<open>ensureCloseState\<close>.\<close>

fun has_address :: "close_pc \<Rightarrow> address option" where
  "has_address (Unlocking a) = Some a"
| "has_address (AtOnce a) = Some a"
| "has_address (InBody a) = Some a"
| "has_address (Reading a) = Some a"
| "has_address pc = None"

fun in_mutex :: "close_pc \<Rightarrow> bool" where
  "in_mutex Testing = True"
| "in_mutex Storing = True"
| "in_mutex Loading = True"
| "in_mutex (Unlocking a) = True"
| "in_mutex pc = False"

text \<open>The \<open>sync.Once\<close> of the slot: unused when the slot is empty.\<close>

definition slot_once :: "close_conc \<Rightarrow> sync_once" where
  "slot_once s = (case slot_ptr s of None \<Rightarrow> Fresh | Some a \<Rightarrow> heap_once s a)"

definition close_fields_ok :: "close_conc \<Rightarrow> bool" where
  "close_fields_ok s \<longleftrightarrow>
     (\<forall>a. next_address s \<le> a \<longrightarrow> heap_once s a = Fresh) \<and> (\<forall>a. slot_ptr s = Some a \<longrightarrow> a < next_address s) \<and>
     bodies s = (if slot_once s = Fresh then 0 else 1) \<and>
     (results s \<noteq> [] \<longrightarrow> slot_once s = Done) \<and>
     (\<forall>a. slot_ptr s = Some a \<longrightarrow> (\<forall>r \<in> set (results s). r = heap_err s a))"

fun in_body :: "close_pc \<Rightarrow> bool" where
  "in_body (InBody a) = True"
| "in_body pc = False"

lemma in_body_iff: "in_body pc \<longleftrightarrow> (\<exists>a. pc = InBody a)"
  by (cases pc) simp_all

definition close_thread_ok :: "close_conc \<Rightarrow> goroutine \<Rightarrow> bool" where
  "close_thread_ok s t \<longleftrightarrow>
     (in_mutex (close_pcs s t) \<longleftrightarrow> init_mu s = Some t) \<and>
     (close_pcs s t = Storing \<longrightarrow> slot_ptr s = None) \<and> (close_pcs s t = Loading \<longrightarrow> slot_ptr s \<noteq> None) \<and>
     (\<forall>a. has_address (close_pcs s t) = Some a \<longrightarrow> slot_ptr s = Some a) \<and>
     (in_body (close_pcs s t) \<longleftrightarrow> slot_once s = Running t) \<and>
     (\<forall>a. close_pcs s t = Reading a \<longrightarrow> slot_once s = Done)"

definition close_inv :: "close_conc \<Rightarrow> bool" where
  "close_inv s \<longleftrightarrow> close_fields_ok s \<and> (\<forall>t. close_thread_ok s t)"

lemma close_invD:
  assumes "close_inv s"
  shows "close_fields_ok s" "close_thread_ok s t"
  using assms by (simp_all add: close_inv_def)

lemma slot_once_simps [simp]:
  "slot_once (move t pc s) = slot_once s" "slot_once (s\<lparr>init_mu := m\<rparr>) = slot_once s"
  "slot_once (s\<lparr>slot_ptr := Some a, next_address := n\<rparr>) = heap_once s a"
  "slot_once (s\<lparr>heap_once := h, bodies := k\<rparr>) = slot_once (s\<lparr>heap_once := h\<rparr>)"
  "slot_once (s\<lparr>heap_once := h, heap_err := f\<rparr>) = slot_once (s\<lparr>heap_once := h\<rparr>)"
  "slot_once (s\<lparr>results := rs\<rparr>) = slot_once s"
  by (simp_all add: slot_once_def split: option.splits)

lemma slot_once_Some:
  "slot_ptr s = Some a \<Longrightarrow> slot_once s = heap_once s a"
  "slot_ptr s = Some a \<Longrightarrow> slot_once (s\<lparr>heap_once := (heap_once s)(a := x)\<rparr>) = x"
  by (simp_all add: slot_once_def)

lemma slot_once_None: "slot_ptr s = None \<Longrightarrow> slot_once s = Fresh"
  by (simp add: slot_once_def)

lemma close_inv_unclosed: "close_inv unclosed"
  by (simp add: close_inv_def close_fields_ok_def close_thread_ok_def slot_once_def unclosed_def)

lemma close_fields_step:
  assumes "close_step t s s'" and "close_inv s"
  shows "close_fields_ok s'"
  using assms(1) close_invD(1) [OF assms(2)] close_invD(2) [OF assms(2), of t]
  by (elim close_stepE) (auto simp: close_fields_ok_def close_thread_ok_def slot_once_Some slot_once_None)

lemma close_threads_step:
  assumes "close_step t s s'" and "close_inv s"
  shows "close_thread_ok s' u"
proof -
  note f = close_invD(1) [OF assms(2)] and t = close_invD(2) [OF assms(2), of t] and u = close_invD(2) [OF assms(2), of u]
  from assms(1) show ?thesis
  proof cases
    case store
    with f have "heap_once s (next_address s) = Fresh" by (simp add: close_fields_ok_def)
    with store t u show ?thesis by (cases "u = t") (auto simp: close_thread_ok_def slot_once_None)
  next
    case (body_begins a)
    with t u show ?thesis by (cases "u = t") (auto simp: close_thread_ok_def slot_once_Some)
  next
    case (once_done a)
    with t u show ?thesis by (cases "u = t") (auto simp: close_thread_ok_def slot_once_Some)
  next
    case (body_returns a e)
    with t u show ?thesis by (cases "u = t") (auto simp: close_thread_ok_def slot_once_Some)
  next
    case (body_panics a)
    with t u show ?thesis by (cases "u = t") (auto simp: close_thread_ok_def slot_once_Some)
  qed (use t u in \<open>cases "u = t"; auto simp: close_thread_ok_def\<close>)+
qed

lemma close_inv_step: "close_step t s s' \<Longrightarrow> close_inv s \<Longrightarrow> close_inv s'"
  unfolding close_inv_def [of s'] by (blast intro: close_fields_step close_threads_step)

lemma close_reachable_inv: "close_reachable s \<Longrightarrow> close_inv s"
  by (induction rule: close_reachable.induct) (auto intro: close_inv_unclosed close_inv_step)

text \<open>
  One run of the body at most; what calls return is one error, and is returned only after the run;
  two goroutines are never in the body, nor in \<open>ensureCloseState\<close>, at once, and no two of them
  have different \<open>closeState\<close>s.
\<close>

lemma close_inv_facts:
  assumes "close_inv s"
  shows "bodies s \<le> 1" and "r \<in> set (results s) \<Longrightarrow> slot_once s = Done \<and> slot_ptr s \<noteq> None \<and> r = heap_err s (the (slot_ptr s))"
    and "in_mutex (close_pcs s t) \<Longrightarrow> in_mutex (close_pcs s u) \<Longrightarrow> t = u"
    and "has_address (close_pcs s t) = Some a \<Longrightarrow> has_address (close_pcs s u) = Some b \<Longrightarrow> a = b"
    and "close_pcs s t = InBody a \<Longrightarrow> close_pcs s u = InBody b \<Longrightarrow> t = u"
proof -
  note f = close_invD(1) [OF assms] and t = close_invD(2) [OF assms, of t] and u = close_invD(2) [OF assms, of u]
  show "bodies s \<le> 1" using f by (simp add: close_fields_ok_def)
  show "slot_once s = Done \<and> slot_ptr s \<noteq> None \<and> r = heap_err s (the (slot_ptr s))" if "r \<in> set (results s)"
    using f that by (cases "results s"; cases "slot_ptr s") (auto simp: close_fields_ok_def slot_once_None)
  show "t = u" if "in_mutex (close_pcs s t)" "in_mutex (close_pcs s u)"
    using t u that by (simp add: close_thread_ok_def)
  show "a = b" if "has_address (close_pcs s t) = Some a" "has_address (close_pcs s u) = Some b"
    using t u that by (simp add: close_thread_ok_def)
  show "t = u" if "close_pcs s t = InBody a" "close_pcs s u = InBody b"
    using t u that by (simp add: close_thread_ok_def)
qed

subsection \<open>Every close returns\<close>

primrec close_left :: "close_pc \<Rightarrow> nat" where
  "close_left Idle = 0"
| "close_left Locking = 8"
| "close_left Testing = 7"
| "close_left Storing = 6"
| "close_left Loading = 5"
| "close_left (Unlocking a) = 4"
| "close_left (AtOnce a) = 3"
| "close_left (InBody a) = 2"
| "close_left (Reading a) = 1"

lemma close_left_0 [simp]: "close_left pc = 0 \<longleftrightarrow> pc = Idle"
  by (cases pc) simp_all

lemma close_step_pcs: "close_step t s s' \<Longrightarrow> close_pcs s' = (close_pcs s)(t := close_pcs s' t)"
  by (elim close_stepE) auto

lemma closes_finite: "close_reachable s \<Longrightarrow> finite (in_call close_pcs close_left s)"
proof (induction rule: close_reachable.induct)
  case unclosed
  then show ?case by (simp add: in_call_def unclosed_def)
next
  case (step s t s')
  with in_call_step [OF close_step_pcs [OF step.hyps(2)], where left = close_left] show ?case by (simp add: finite_subset)
qed

text \<open>Who is in the mutex or in the body can go on, and who waits, waits for one of them.\<close>

lemma in_mutex_can_step:
  assumes "close_inv s" and "in_mutex (close_pcs s t)"
  shows "\<exists>s'. close_step t s s'"
proof (cases "slot_ptr s")
  case None
  with assms(2) close_invD(2) [OF assms(1), of t] show ?thesis
    by (cases "close_pcs s t") (auto simp: close_thread_ok_def intro: close_step.intros)
next
  case (Some a)
  with assms(2) show ?thesis by (cases "close_pcs s t") (auto intro: close_step.intros)
qed

lemma close_can_step:
  assumes "close_inv s" and "close_pcs s t \<noteq> Idle"
  shows "\<exists>u s'. close_pcs s u \<noteq> Idle \<and> close_step u s s'"
proof (cases "init_mu s")
  case (Some u)
  with close_invD(2) [OF assms(1), of u] have "in_mutex (close_pcs s u)" by (simp add: close_thread_ok_def)
  with in_mutex_can_step [OF assms(1)] show ?thesis by (metis in_mutex.simps(5))
next
  case None
  with close_invD(2) [OF assms(1), of t] have out: "\<not> in_mutex (close_pcs s t)" by (simp add: close_thread_ok_def)
  show ?thesis
  proof (cases "\<exists>a u. close_pcs s t = AtOnce a \<and> heap_once s a = Running u")
    case True
    then obtain a u where "close_pcs s t = AtOnce a" "heap_once s a = Running u" by blast
    with close_invD(2) [OF assms(1), of t] close_invD(2) [OF assms(1), of u] slot_once_Some(1) [of s a]
    obtain b where "close_pcs s u = InBody b" by (auto simp: close_thread_ok_def in_body_iff)
    with close_step.body_returns [OF this] show ?thesis by (metis close_left.simps(1,8) zero_neq_numeral)
  next
    case False
    have once: "heap_once s a \<in> {Fresh, Done}" if "close_pcs s t = AtOnce a" for a
      using False that by (cases "heap_once s a") auto
    have "\<exists>s'. close_step t s s'"
      using assms(2) out None once by (cases "close_pcs s t") (auto intro: close_step.intros)
    with assms(2) show ?thesis by blast
  qed
qed

interpretation close_calls: calls close_step close_pcs close_left close_reachable
proof
  show "close_left (close_pcs s' t) < close_left (close_pcs s t)"
    if "close_step t s s'" "close_left (close_pcs s t) \<noteq> 0" for t s s'
    using that by (elim close_stepE) auto
  show "\<exists>u s'. u \<in> in_call close_pcs close_left s \<and> close_step u s s'"
    if "close_reachable s" "t \<in> in_call close_pcs close_left s" for s t
    using close_can_step [OF close_reachable_inv [OF that(1)], of t] that(2) by (simp add: in_call_def)
qed (blast intro: close_step_pcs close_reachable.step closes_finite)+

subsection \<open>Refinement\<close>

text \<open>
  The abstract state of a value with the slot of \<open>Close_State\<close>, when the body has run \<open>n\<close> times, the
  calls have returned \<open>rs\<close>, and none is in progress.
\<close>

definition close_abs :: "closeState option \<Rightarrow> nat \<Rightarrow> error option list \<Rightarrow> close_conc" where
  "close_abs slot n rs =
     \<lparr>init_mu = None, slot_ptr = map_option (\<lambda>s. 0) slot,
      heap_once = (\<lambda>a. Fresh)(0 := if is_open slot then Fresh else Done),
      heap_err = (\<lambda>a. None)(0 := close_err (ensureCloseState slot)),
      next_address = (if slot = None then 0 else 1), bodies = n, results = rs, close_pcs = (\<lambda>t. Idle)\<rparr>"

lemma close_abs_None: "close_abs None 0 [] = unclosed"
  by (simp add: close_abs_def unclosed_def ensureCloseState_def fun_upd_idem)

text \<open>The positions of a call that runs alone.\<close>

definition ensuring :: "closeState option \<Rightarrow> close_pc list" where
  "ensuring slot = [Locking, Testing] @ (if slot = None then [Storing] else []) @ [Loading, Unlocking 0, AtOnce 0]"

definition calling :: "closeState option \<Rightarrow> close_pc list" where
  "calling slot = (if is_open slot then [InBody 0] else []) @ [Reading 0, Idle]"

abbreviation close_path :: "goroutine \<Rightarrow> close_pc list \<Rightarrow> close_conc \<Rightarrow> close_conc \<Rightarrow> bool" where
  "close_path \<equiv> solo close_step close_pcs"

lemmas close_walk = solo.walk [where step = close_step and pcs = close_pcs]
  and close_last_step = last_step [where step = close_step and pcs = close_pcs]

text \<open>The way through \<open>ensureCloseState\<close>, which leaves the slot filled.\<close>

lemma move_norm [simp]:
  "move t pc (move t pc' s) = move t pc s"
  "(move t pc s)\<lparr>init_mu := m\<rparr> = move t pc (s\<lparr>init_mu := m\<rparr>)"
  "(move t pc s)\<lparr>slot_ptr := p, next_address := n\<rparr> = move t pc (s\<lparr>slot_ptr := p, next_address := n\<rparr>)"
  "(move t pc s)\<lparr>heap_once := h, bodies := k\<rparr> = move t pc (s\<lparr>heap_once := h, bodies := k\<rparr>)"
  "(move t pc s)\<lparr>heap_once := h, heap_err := f\<rparr> = move t pc (s\<lparr>heap_once := h, heap_err := f\<rparr>)"
  "(move t pc s)\<lparr>results := rs\<rparr> = move t pc (s\<lparr>results := rs\<rparr>)"
  by (simp_all add: move_def)

lemma path_ensure:
  assumes "close_pcs s t = Idle" "init_mu s = None"
  shows "slot_ptr s = Some a \<Longrightarrow> close_path t [Locking, Testing, Loading, Unlocking a, AtOnce a] s (move t (AtOnce a) s)"
    and "slot_ptr s = None \<Longrightarrow> next_address s = a \<Longrightarrow>
      close_path t [Locking, Testing, Storing, Loading, Unlocking a, AtOnce a] s
        (move t (AtOnce a) (s\<lparr>slot_ptr := Some a, next_address := Suc a\<rparr>))"
proof -
  note call = close_step.call [OF assms(1)]
  note lock = close_step.mutex_lock [of "move t Locking s" t, simplified, OF assms(2)]
  let ?s = "s\<lparr>init_mu := Some t\<rparr>"
  have unlock: "close_path t [Unlocking a, AtOnce a] (move t Loading u) (move t (AtOnce a) (u\<lparr>init_mu := None\<rparr>))"
    if "slot_ptr u = Some a" for u
    using close_step.load [of "move t Loading u" t a] close_step.mutex_unlock [of "move t (Unlocking a) u" t a] that
    by (intro close_walk [where s' = "move t (Unlocking a) u"] close_last_step) simp_all
  have same: "u\<lparr>init_mu := None\<rparr> = u" if "init_mu u = None" for u :: close_conc using that by simp
  show "close_path t [Locking, Testing, Loading, Unlocking a, AtOnce a] s (move t (AtOnce a) s)" if "slot_ptr s = Some a"
  proof -
    have test: "close_step t (move t Testing ?s) (move t Loading ?s)"
      using close_step.slot_filled [of "move t Testing ?s" t a] that by simp
    have out: "close_path t [Unlocking a, AtOnce a] (move t Loading ?s) (move t (AtOnce a) s)"
      using unlock [of ?s] that same [OF assms(2)] by simp
    show ?thesis by (rule close_walk [OF call _ close_walk [OF lock _ close_walk [OF test _ out]]]) simp_all
  qed
  show "close_path t [Locking, Testing, Storing, Loading, Unlocking a, AtOnce a] s
        (move t (AtOnce a) (s\<lparr>slot_ptr := Some a, next_address := Suc a\<rparr>))" if "slot_ptr s = None" "next_address s = a"
  proof -
    let ?s' = "s\<lparr>slot_ptr := Some a, next_address := Suc a\<rparr>"
    have test: "close_step t (move t Testing ?s) (move t Storing ?s)"
      using close_step.slot_empty [of "move t Testing ?s" t] that by simp
    let ?u = "?s\<lparr>slot_ptr := Some a, next_address := Suc a\<rparr>"
    have store: "close_step t (move t Storing ?s) (move t Loading ?u)"
      using close_step.store [of "move t Storing ?s" t] that by simp
    have "?u\<lparr>init_mu := None\<rparr> = ?s'" using assms(2) by (cases s) simp
    with unlock [of ?u] have out: "close_path t [Unlocking a, AtOnce a] (move t Loading ?u) (move t (AtOnce a) ?s')" by simp
    show ?thesis
      by (rule close_walk [OF call _ close_walk [OF lock _ close_walk [OF test _ close_walk [OF store _ out]]]]) simp_all
  qed
qed

text \<open>The way through \<open>closeState.close\<close>, with the body or without it.\<close>

lemma path_once:
  shows "heap_once s a = Done \<Longrightarrow>
      close_path t [Reading a, Idle] (move t (AtOnce a) s) (move t Idle (s\<lparr>results := heap_err s a # results s\<rparr>))"
    and "heap_once s a = Fresh \<Longrightarrow> close_path t [InBody a, Reading a, Idle] (move t (AtOnce a) s)
        (move t Idle (s\<lparr>heap_once := (heap_once s)(a := Done), heap_err := (heap_err s)(a := e),
          bodies := Suc (bodies s), results := e # results s\<rparr>))"
proof -
  have ret: "close_path t [Idle] (move t (Reading a) u) (move t Idle (u\<lparr>results := heap_err u a # results u\<rparr>))" for u
    using close_step.returns [of "move t (Reading a) u" t a] by (intro close_last_step) simp_all
  show "close_path t [Reading a, Idle] (move t (AtOnce a) s) (move t Idle (s\<lparr>results := heap_err s a # results s\<rparr>))"
    if "heap_once s a = Done"
  proof -
    have "close_step t (move t (AtOnce a) s) (move t (Reading a) s)"
      using close_step.once_done [of "move t (AtOnce a) s" t a] that by simp
    then show ?thesis by (rule close_walk [OF _ _ ret]) simp
  qed
  let ?s1 = "s\<lparr>heap_once := (heap_once s)(a := Running t), bodies := Suc (bodies s)\<rparr>"
  let ?s2 = "s\<lparr>bodies := Suc (bodies s), heap_once := (heap_once s)(a := Done), heap_err := (heap_err s)(a := e)\<rparr>"
  show "close_path t [InBody a, Reading a, Idle] (move t (AtOnce a) s)
        (move t Idle (s\<lparr>heap_once := (heap_once s)(a := Done), heap_err := (heap_err s)(a := e),
          bodies := Suc (bodies s), results := e # results s\<rparr>))" if "heap_once s a = Fresh"
  proof -
    have begins: "close_step t (move t (AtOnce a) s) (move t (InBody a) ?s1)"
      using close_step.body_begins [of "move t (AtOnce a) s" t a] that by simp
    have body: "close_step t (move t (InBody a) ?s1) (move t (Reading a) ?s2)"
      using close_step.body_returns [of "move t (InBody a) ?s1" t a e] by (simp add: move_def)
    have eq: "?s2\<lparr>results := heap_err ?s2 a # results ?s2\<rparr> = s\<lparr>heap_once := (heap_once s)(a := Done),
        heap_err := (heap_err s)(a := e), bodies := Suc (bodies s), results := e # results s\<rparr>"
      by simp
    show ?thesis
      unfolding eq [symmetric] by (rule close_walk [OF begins _ close_walk [OF body _ ret [of ?s2]]]) simp_all
  qed
qed

lemma path_ensuring:
  "close_path t (ensuring slot) (close_abs slot n rs) (move t (AtOnce 0) (close_abs (Some (ensureCloseState slot)) n rs))"
proof (cases slot)
  case None
  have "(close_abs None n rs)\<lparr>slot_ptr := Some 0, next_address := Suc 0\<rparr> = close_abs (Some (ensureCloseState None)) n rs"
    by (simp add: close_abs_def ensureCloseState_def is_open_def)
  with None path_ensure(2) [of "close_abs slot n rs" t 0] show ?thesis by (simp add: close_abs_def ensuring_def)
next
  case (Some st)
  with path_ensure(1) [of "close_abs slot n rs" t 0] show ?thesis
    by (simp add: close_abs_def ensuring_def ensureCloseState_def)
qed

lemma path_calling:
  assumes "slot = Some st"
  shows "is_open slot \<Longrightarrow> close_path t (calling slot) (move t (AtOnce 0) (close_abs slot n rs))
      (close_abs (Some \<lparr>once_done = True, close_err = e\<rparr>) (Suc n) (e # rs))"
    and "\<not> is_open slot \<Longrightarrow> close_path t (calling slot) (move t (AtOnce 0) (close_abs slot n rs))
      (close_abs slot n (close_err st # rs))"
proof -
  let ?s = "close_abs slot n rs"
  show "close_path t (calling slot) (move t (AtOnce 0) ?s) (close_abs (Some \<lparr>once_done = True, close_err = e\<rparr>) (Suc n) (e # rs))"
    if "is_open slot"
  proof -
    have "move t Idle (?s\<lparr>heap_once := (heap_once ?s)(0 := Done), heap_err := (heap_err ?s)(0 := e),
        bodies := Suc (bodies ?s), results := e # results ?s\<rparr>) = close_abs (Some \<lparr>once_done = True, close_err = e\<rparr>) (Suc n) (e # rs)"
      using assms by (simp add: close_abs_def move_def ensureCloseState_def is_open_def fun_upd_idem)
    with path_once(2) [of ?s 0 t e] that show ?thesis by (simp add: calling_def close_abs_def)
  qed
  show "close_path t (calling slot) (move t (AtOnce 0) ?s) (close_abs slot n (close_err st # rs))" if "\<not> is_open slot"
  proof -
    have "move t Idle (?s\<lparr>results := heap_err ?s 0 # results ?s\<rparr>) = close_abs slot n (close_err st # rs)"
      using assms by (simp add: close_abs_def move_def ensureCloseState_def fun_upd_idem)
    with path_once(1) [of ?s 0 t] that show ?thesis by (simp add: calling_def close_abs_def)
  qed
qed

text \<open>
  \<open>close_slot\<close> refines the steps: a call that runs alone goes through exactly these positions, ends in
  the abstraction of the slot that it leaves, and returns the error of \<open>close_slot\<close>.
\<close>

lemma close_slot_refines:
  "let (e, slot', nested') = result_of (close_slot slot fn nested) w
   in close_path t (ensuring slot @ calling slot) (close_abs slot n rs)
     (close_abs slot' (if is_open slot then Suc n else n) (e # rs))"
proof -
  let ?slot = "Some (ensureCloseState slot)"
  have same: "is_open ?slot = is_open slot" "calling ?slot = calling slot"
    by (simp_all add: calling_def is_open_def ensureCloseState_def split: option.splits)
  show ?thesis
  proof (cases "is_open slot")
    case True
    with path_calling(1) [OF refl, of "ensureCloseState slot" t n rs "fst (result_of fn w)"] close_slot_open [OF True, of fn nested w]
    show ?thesis by (auto simp: same result_of_def intro: solo_append [OF path_ensuring])
  next
    case False
    then obtain e where e: "closed_with slot e" using not_is_open by blast
    with False path_calling(2) [OF refl, of "ensureCloseState slot" t n rs] close_slot_closed [OF e, of fn nested]
    have "close_path t (calling slot) (move t (AtOnce 0) (close_abs ?slot n rs)) (close_abs slot n (e # rs))"
      by (simp add: same closed_with_def ensureCloseState_def)
    with False close_slot_closed [OF e, of fn nested] show ?thesis
      by (auto simp: same intro: solo_append [OF path_ensuring])
  qed
qed

text \<open>
  With the number of runs of the body read off the world, by a function that a run of the body
  advances; and what the body returned is what the call returns.
\<close>

lemma close_slot_counted:
  assumes "runs (world_after fn w) = Suc (runs w)"
  shows "let (e, slot', nested') = result_of (close_slot slot fn nested) w; w' = world_after (close_slot slot fn nested) w
   in close_path t (ensuring slot @ calling slot) (close_abs slot (runs w) rs) (close_abs slot' (runs w') (e # rs)) \<and>
      (if is_open slot then (e, nested') = result_of fn w \<and> w' = world_after fn w else close_err (the slot) = e \<and> w' = w)"
proof (cases "is_open slot")
  case True
  with close_slot_refines [of slot fn nested w t "runs w" rs] close_slot_open [OF True, of fn nested w] assms show ?thesis
    by (simp add: result_of_def [of "close_slot slot fn nested"] world_after_def [of "close_slot slot fn nested"])
next
  case False
  then obtain e where e: "closed_with slot e" using not_is_open by blast
  with False close_slot_refines [of slot fn nested w t "runs w" rs] close_slot_closed [OF e, of fn nested] show ?thesis
    by (auto simp: closed_with_def)
qed

text \<open>For example, two calls one after the other, of which the first runs the body.\<close>

lemma close_path_reachable: "close_path t ps s s' \<Longrightarrow> close_reachable s \<Longrightarrow> close_reachable s'"
  by (induction rule: solo.induct) (auto intro: close_reachable.step)

lemma closed_twice: "close_reachable (close_abs (Some \<lparr>once_done = True, close_err = e\<rparr>) 1 [e, e])"
proof -
  have "close_path t (ensuring None @ calling (Some (ensureCloseState None))) unclosed
      (close_abs (Some \<lparr>once_done = True, close_err = e\<rparr>) 1 [e])" for t
    using solo_append [OF path_ensuring [of t None 0 "[]"] path_calling(1) [OF refl, of "ensureCloseState None" t 0 "[]" e]]
    by (simp add: close_abs_None is_open_def ensureCloseState_def)
  then have once: "close_reachable (close_abs (Some \<lparr>once_done = True, close_err = e\<rparr>) 1 [e])"
    by (rule close_path_reachable) (rule close_reachable.unclosed)
  let ?slot = "Some \<lparr>once_done = True, close_err = e\<rparr>"
  have "close_path t (ensuring ?slot @ calling ?slot) (close_abs ?slot 1 [e]) (close_abs ?slot 1 [e, e])" for t
    using solo_append [OF path_ensuring [of t ?slot 1 "[e]"] path_calling(2) [OF refl, of "ensureCloseState ?slot" t 1 "[e]"]]
    by (simp add: is_open_def ensureCloseState_def)
  then show ?thesis using once by (rule close_path_reachable)
qed

end
