(* ===== verification/Spec2Isabelle.thy ===== *)
theory Spec2Isabelle
  imports Sample_Env Attach_Facts Serve_and_Stop Test_Sessions Lock_Composition Lazy_Refinement Close_Concurrency
begin

text \<open>
  spanemuboost starts a Cloud Spanner Emulator or a Spanner Omni container for tests, creates an
  instance and a database in it, applies setup statements, opens clients, and takes all of it
  down again.  This development models the Go package and its command, and proves what callers
  rely on: what a failed call has started or created is taken down again, closing is complete and
  idempotent, drops and creations of databases of one instance exclude each other, options are
  resolved to well-formed settings, endpoints survive being written and read, and stop
  finds what serve has served and reports truthfully how its process ended.

  \<^bold>\<open>Effects.\<close>  An operation is a state monad over the \<open>world\<close> (theory \<open>World\<close>): the trace of the calls
  made so far with their errors, the files, and the clock.  Everything that is not code of the
  repository is a field of the record \<open>env\<close>: what gRPC, testcontainers and operating system calls
  answer (\<open>rpc\<close>, an arbitrary function of the call and of the world before it), the container or
  text that comes with an answer, the failures of file operations, the process environment, the
  random numbers.  A container that a start gives back, with or without an error, is recorded in the
  trace as an event of its own (\<open>ContainerReturned\<close>), so that what was started can be counted against
  what was terminated.  A theorem about an arbitrary \<open>E\<close> therefore covers every sequence of answers.  An
  error is a value of the datatype \<open>error\<close>, a fallible function returns \<open>error + 'a\<close>, \<open>errors.Join\<close> and
  \<open>errors.Is\<close> are \<open>errors_Join\<close> and \<open>error_Is\<close> (\<open>Go_Error\<close>).  \<open>result_of\<close>, \<open>events\<close> and \<open>world_after\<close>
  are the result, the new trace and the final state of a run; \<open>ensures m Q\<close> says that every run
  of \<open>m\<close> ends with a result and a trace in \<open>Q\<close>, and \<open>emits P m\<close> that all its traces are in \<open>P\<close>.

  \<^bold>\<open>Theories and source files.\<close>
  \<^item> \<open>Go_Prelude\<close>, \<open>Go_Error\<close>, \<open>World\<close>, \<open>Files\<close>: the parts of the Go library the code uses (strings, numbers,
    errors, \<open>os\<close>, \<open>time\<close>) and the monad, with the collections of rules for traces.
  \<^item> \<open>Paths\<close> (util.go, admin_ops.go) and \<open>Resource_ID\<close> (options.go): resource paths, ID validation,
    random IDs.
  \<^item> \<open>Options\<close>, \<open>Package_Options\<close>, \<open>Finalize\<close> (options.go): the struct \<open>emulatorOptions\<close>, every option, the
    drop policy, \<open>finalizeOptions\<close>.  \<open>Omni_Options\<close> (omni.go): guardrails, \<open>finalizeOmniOptions\<close>, start
    arguments.  Both finalizations satisfy the locale \<open>option_finalizer\<close>.
  \<^item> \<open>Admin_Lock\<close> (admin_ops.go, close.go): \<open>withInstanceAdminLock\<close>, \<open>dropDatabaseWithRetry\<close>, and the lock
    discipline \<open>keeps_lock\<close> on traces.  \<open>Lock_Table\<close>: the shared table of semaphores as a step relation
    between goroutines.  \<open>Lock_Composition\<close>: goroutines whose traces are those of the package's programs,
    interleaved as far as the table grants their lock calls.
  \<^item> \<open>Close_State\<close> (close.go): \<open>closeState\<close> and the locale \<open>closer\<close>, the contract of every \<open>Close\<close>; it is
    interpreted on \<open>Clients\<close>, \<open>Emulator\<close>, \<open>omniRuntime\<close>, \<open>Env\<close>, \<open>RuntimeEnv\<close> and both lazy handles, and
    gives the same contract for pointers that may be nil.
  \<^item> \<open>Clients\<close> (spanemuboost.go): the struct and its \<open>Close\<close>.
  \<^item> \<open>Bootstrap\<close>, \<open>Open_Clients\<close> (internal.go): the emulator container, creating instance and database, the
    bootstraps, and \<open>bootstrapAndCreateClientsWithOptions\<close> with its rollback.  \<open>Rollback_Facts\<close> and
    \<open>Call_Kinds\<close> hold the lemmas on their traces.
  \<^item> \<open>Go_Time\<close>, \<open>Go_JSON\<close>, \<open>Go_JSON_Values\<close>: RFC 3339 times, JSON strings, the JSON printer and parser.  \<open>Endpoint_JSON\<close>
    (the struct tags of endpoint.go and provenance.go): the JSON text of an endpoint, read back.
  \<^item> \<open>Provenance\<close> (provenance.go), \<open>Endpoint\<close> (endpoint.go), \<open>Runtimes\<close> (emulator.go, omni.go, attached.go).
  \<^item> \<open>Goroutines\<close>: \<open>sync.Once\<close>, runs of one goroutine, and the locale \<open>calls\<close>: calls whose steps count down
    and that cannot all wait return.  \<open>Close_Concurrency\<close> (close.go) interleaves the closes of one value, with
    \<open>ensureCloseState\<close> in its steps under the mutex, and shows that \<open>close_slot\<close> refines the steps.
  \<^item> \<open>Lazy_State\<close> (lazy.go) runs \<open>get\<close> and \<open>close\<close> one after the other, with a panicking start as an
    outcome; \<open>Lazy_Concurrency\<close> interleaves their steps between goroutines, and \<open>Lazy_Refinement\<close> shows that
    the methods refine the steps.  \<open>Handles\<close> (runtime.go, lazy.go, emulator.go): \<open>LazyRuntime\<close>, \<open>LazyEmulator\<close>,
    \<open>resolveRuntime\<close>.
  \<^item> \<open>Entry_Points\<close> (spanemuboost.go, runtime.go, emulator.go, omni.go): \<open>OpenClients\<close>, \<open>Run\<close>,
    \<open>RunWithClients\<close> and the environments.  \<open>Container_Facts\<close> and \<open>Attach_Facts\<close> hold their lemmas.
  \<^item> \<open>Serve\<close> (serve.go), \<open>Stop\<close> (stop.go), \<open>Command\<close> (cmd/spanemuboost/main.go, testing.go); \<open>Serve_Facts\<close>.
  \<^item> \<open>Lifecycle_Facts\<close>: what serve leaves of its files, that stop finds the process of serve, and what
    stop answers: success, a refused SIGKILL, or a process that still answers probes after both timeouts,
    as a zombie does.  \<open>Serve_and_Stop\<close> splits \<open>ServeFromConfig\<close> where it waits, into \<open>serve_up\<close> and \<open>serve_down\<close>, and
    composes the first with a \<open>stop\<close> of another process.
  \<^item> \<open>Test_Sessions\<close>: lazy handles used by tests, with the account of their containers (locales \<open>accountable\<close>
    and \<open>lazy_handle\<close>).
  \<^item> \<open>Sample_Env\<close>: an environment, a world and options for the examples beside the properties.

  A definition has the name of the function it models, with the receiver's type in front of a
  method (\<open>Clients_Close\<close>); a field has a prefix where two structs share its name.  A nil pointer is
  \<open>None\<close>.  A method with a pointer receiver that changes the struct returns the new struct.

  \<^bold>\<open>Groups of lemmas.\<close>  The rollback lemmas follow a setup step by step and show which handles are open,
  what was created and what was removed in each outcome; \<open>only K m\<close> bounds the kinds of calls that
  a program makes; \<open>container_balance\<close> counts containers; the finalizer laws say what finalization
  keeps and guarantees; \<open>lock_inv\<close>, \<open>system_inv\<close>, \<open>close_inv\<close> and \<open>lazy_inv\<close> are the invariants of the concurrent models, by
  rule induction; the lemmas of \<open>Stop\<close> bound its loops and list its signals.

  \<^bold>\<open>Bounds and fuel.\<close>  The attempts of a drop are a function with a measure (three attempts).  The loops
  of \<open>Stop\<close> run until a deadline of the clock; they take fuel and give \<open>None\<close> without it, and
  \<open>stop_fuel\<close>, computed from the timeout, is shown to be enough when a fired timer has let its
  duration pass.  Durations are unbounded integers of nanoseconds; \<open>atoi\<close> keeps the range of a
  64-bit int.

  \<^bold>\<open>Not modelled.\<close>  Log output and the usage text; the text that \<open>fmt\<close> makes of an error (an error keeps
  its format, its arguments and what it wraps); which error encoding/json reports (its errors are one value); the reflection in \<open>isNilRuntimeValue\<close> (a handle says whether it is nil);
  \<open>testing.TB\<close>: how a helper ends is a value of \<open>tested\<close>, with the registered cleanup beside it; the
  concurrent use of anything but the lock table, lazy handles and the closes of one value.
\<close>

section \<open>Properties: setting up clients and rolling back\<close>

text \<open>
  C1. When opening clients fails, whatever the calls answered: the error has a cause among
  them; every client that was opened has been closed; only the instance or database that this
  very call created was removed, under the bounded context that does not depend on the caller's;
  and either what was created is gone or the returned error is joined with the rollback's, as long
  as acquiring a semaphore fails only with the error of its context, which is what it is
  documented to do.  Created is what a creation has reported when it was waited for, so a creation
  whose wait failed is not rolled back.  The instance lock is taken and released in order throughout.
\<close>

theorem setup_failure_rolls_back:
  assumes "result_of (bootstrapAndCreateClientsWithOptions E c uri opts co) w = Inl e"
  shows "setup_rolled_back E opts e (events (bootstrapAndCreateClientsWithOptions E c uri opts co) w) \<and>
    keeps_lock None (events (bootstrapAndCreateClientsWithOptions E c uri opts co) w)"
  using ensuresD [OF setup_spec, of E c uri opts co w] by (simp_all add: assms)

theorem setup_failure_rolls_back_witness:
  "setup_rolled_back (failingEnv (\<lambda>c. case c of NewSpannerClient c' db cfg co \<Rightarrow> True | _ \<Rightarrow> False)) sampleOptions (External 7)
     (events (bootstrapAndCreateClientsWithOptions
       (failingEnv (\<lambda>c. case c of NewSpannerClient c' db cfg co \<Rightarrow> True | _ \<Rightarrow> False)) Caller [] sampleOptions []) sampleWorld)"
proof (rule conjunct1 [OF setup_failure_rolls_back])
  show "result_of (bootstrapAndCreateClientsWithOptions
       (failingEnv (\<lambda>c. case c of NewSpannerClient c' db cfg co \<Rightarrow> True | _ \<Rightarrow> False)) Caller [] sampleOptions []) sampleWorld
     = Inl (External 7)"
    by code_simp
qed

text \<open>
  C2. When opening clients succeeds, one client of each kind is open and none is closed, nothing was
  removed, the clients carry the identity of the options, and they will drop the database
  (instance) on close exactly when the policy of the options says so and either this call
  created it or teardown is forced.
\<close>

theorem setup_success_opens:
  assumes "result_of (bootstrapAndCreateClientsWithOptions E c uri opts co) w = Inr cl"
  shows "setup_done c uri opts co cl (events (bootstrapAndCreateClientsWithOptions E c uri opts co) w)"
  using ensuresD [OF setup_spec, of E c uri opts co w] by (simp add: assms)

theorem setup_success_opens_witness:
  "\<exists>cl. setup_done Caller [] sampleOptions [] cl
     (events (bootstrapAndCreateClientsWithOptions sampleEnv Caller [] sampleOptions []) sampleWorld)"
proof -
  have "isl (result_of (bootstrapAndCreateClientsWithOptions sampleEnv Caller [] sampleOptions []) sampleWorld) = False"
    by code_simp
  then obtain cl where
    "result_of (bootstrapAndCreateClientsWithOptions sampleEnv Caller [] sampleOptions []) sampleWorld = Inr cl"
    by (metis isl_def sum.exhaust)
  then show ?thesis by (intro exI) (rule setup_success_opens)
qed

text \<open>
  C3. The two bootstraps that keep no clients close every client they opened, on success and on every
  error; they remove nothing, keep the lock discipline, and an error they return was returned by
  one of their calls.
\<close>

theorem bootstrap_closes_what_it_opens:
  "ensures (bootstrap E c opts co) boot_inv \<and> ensures (bootstrapWithManagedClientConfig E c opts co) boot_inv"
  using bootstrap_inv bootstrapWithManagedClientConfig_inv by blast

text \<open>
  C4. No start leaks a container: whatever the calls answer, a start of either backend, with or without
  clients, ends with exactly one container running on success, and on an error has called for the
  termination of exactly as many containers as the container library gave it, a container that came together
  with an error among them.
\<close>

theorem starts_leak_no_container:
  "ensures (Run E c backend options) container_balance \<and> ensures (RunWithClients E c backend options) container_balance \<and>
   ensures (NewEmulator E c options) container_balance \<and> ensures (NewEmulatorWithClients E c options) container_balance"
  using Run_balance NewEmulator_balance by blast

text \<open>
  C5. When the container library returns an error together with a live container, starting the emulator
  terminates that container under the close context before it returns the error.
\<close>

theorem failed_start_terminates_returned_container:
  assumes "call = RunEmulatorContainer c (emulatorImage opts)
      ([TC_WithProjectID (projectID opts), TC_WithCmd (gatewayCmd opts)] @ containerCustomizers opts)"
    and "rpc E w call = Some e" and "nonnil E w call"
  shows "\<exists>e' r. result_of (newEmulator E c opts) w = Inl e' \<and> error_Is e' e \<and>
    events (newEmulator E c opts) w = [(call, Some e), (ContainerReturned (container_at E w call), None),
      (TerminateContainer newCloseContext (container_at E w call), r)]"
  using assms
  by (auto simp: newEmulator_def terminateContainerAfterStartupError_def run_container_def result_of_def events_def
      world_after_def errors_Join_def split_beta intro!: error_Is_Join [where e = e] split: option.splits)

theorem failed_start_terminates_returned_container_witness:
  "\<exists>e' r. result_of (newEmulator (sampleEnv\<lparr>rpc := \<lambda>w c. Some (External 1), nonnil := \<lambda>w c. True\<rparr>) Caller sampleOptions) sampleWorld = Inl e' \<and>
    error_Is e' (External 1) \<and>
    events (newEmulator (sampleEnv\<lparr>rpc := \<lambda>w c. Some (External 1), nonnil := \<lambda>w c. True\<rparr>) Caller sampleOptions) sampleWorld =
      [(RunEmulatorContainer Caller (emulatorImage sampleOptions)
         ([TC_WithProjectID (projectID sampleOptions), TC_WithCmd (gatewayCmd sampleOptions)] @ containerCustomizers sampleOptions),
        Some (External 1)), (ContainerReturned sampleContainer, None), (TerminateContainer newCloseContext sampleContainer, r)]"
  using failed_start_terminates_returned_container
    [of "RunEmulatorContainer Caller (emulatorImage sampleOptions)
      ([TC_WithProjectID (projectID sampleOptions), TC_WithCmd (gatewayCmd sampleOptions)] @ containerCustomizers sampleOptions)"
      Caller sampleOptions "sampleEnv\<lparr>rpc := \<lambda>w c. Some (External 1), nonnil := \<lambda>w c. True\<rparr>" sampleWorld "External 1"]
  by simp

text \<open>
  C6. Opening clients against a running emulator or Omni runtime with options that touch neither the IDs
  nor the creation flags - forced teardown among them - creates and removes no instance or
  database, neither then nor when the clients are closed, and targets the runtime's database.
\<close>

theorem reopening_touches_nothing:
  assumes "owned_options h = Some opts" and "valid_IDs opts" and "list_all neutral_option options"
  shows "ensures (OpenClients E c h options) (\<lambda>(out, h') es. touches_nothing opts out es)"
  by (rule OpenClients_owned [OF assms])

theorem reopening_touches_nothing_witness:
  "ensures (OpenClients sampleEnv Caller (H_Emulator (Some \<lparr>e_container = Some sampleContainer, e_opts = Some sampleOptions,
       e_closeState = None, e_provenance = None\<rparr>)) [ForceSchemaTeardown])
     (\<lambda>(out, h') es. touches_nothing sampleOptions out es)"
  by (rule reopening_touches_nothing) (simp_all add: default_IDs_valid neutral_option.intros)

section \<open>Properties: dropping under the lock of the instance\<close>

text \<open>
  C7. Dropping a database makes at most \<open>dropDatabaseMaxAttempts\<close> drop calls and waits at most
  \<open>dropDatabaseRetryBackoff\<close> between them; every call uses a context bounded by \<open>dropDatabaseTimeout\<close> and
  names this database.  Each call is made under a lock that is taken before it and released after
  it, which is the lock of the database's own instance unless the project or instance ID is the word
  \<open>databases\<close>; for that word see the property on creating and dropping below.
\<close>

theorem drop_is_bounded_and_locked:
  "let es = events (dropDatabaseWithRetry E c True (databasePath p i d)) w
   in keeps_lock None es \<and> length (drop_calls es) \<le> dropDatabaseMaxAttempts \<and>
      waited es \<le> dropDatabaseRetryBackoff \<and> list_all (\<lambda>e. drop_call c (databasePath p i d) (fst e)) es \<and>
      (plain_instance p i \<longrightarrow> drops_under (instancePath p i) None es)"
proof -
  have "drop_bounds 1 (events (drop_attempts E c (databasePath p i d) 1 None) w)"
    by (rule drop_attempts_bounds) simp_all
  moreover have "(\<Sum>k \<in> {1..<3::nat}. int k * 5 * time_Second) = dropDatabaseRetryBackoff"
    by (simp add: dropDatabaseRetryBackoff_def eval_nat_numeral)
  moreover have calls: "list_all (\<lambda>e. drop_call c (databasePath p i d) (fst e))
      (events (dropDatabaseWithRetry E c True (databasePath p i d)) w)"
    using dropDatabaseWithRetry_calls by (simp add: emits_def)
  moreover have "plain_instance p i \<longrightarrow> drops_under (instancePath p i) None (events (dropDatabaseWithRetry E c True (databasePath p i d)) w)"
    using drops_under_instance calls dropDatabaseWithRetry_keeps_lock [of "databasePath p i d" E c True]
    by (simp add: emits_def)
  ultimately show ?thesis by (simp add: drop_bounds_def dropDatabaseWithRetry_True Let_def)
qed

theorem drop_is_bounded_and_locked_witness:
  "drops_under (instancePath ''p'' ''i'') None
     (events (dropDatabaseWithRetry sampleEnv Background True (databasePath ''p'' ''i'' ''d'')) sampleWorld)"
  using drop_is_bounded_and_locked [of sampleEnv Background "''p''" "''i''" "''d''" sampleWorld]
  by (simp add: Let_def plain_instance_def)

text \<open>
  C8. Dropping a database reports success exactly when one of its drop calls succeeded or failed with
  the status code NotFound, which says that there is no such database, provided that acquiring a semaphore fails only with the error of its context.
\<close>

theorem drop_succeeds_iff_completed:
  assumes "lock_errors_are_ctx_errors E"
  shows "result_of (dropDatabaseWithRetry E c True (databasePath p i d)) w = None \<longleftrightarrow>
    list_ex (drop_completed E) (events (dropDatabaseWithRetry E c True (databasePath p i d)) w)"
  unfolding dropDatabaseWithRetry_True by (rule drop_attempts_completed) (simp_all add: assms)

theorem drop_succeeds_iff_completed_witness:
  "result_of (dropDatabaseWithRetry sampleEnv Background True (databasePath ''p'' ''i'' ''d'')) sampleWorld = None \<longleftrightarrow>
    list_ex (drop_completed sampleEnv) (events (dropDatabaseWithRetry sampleEnv Background True (databasePath ''p'' ''i'' ''d'')) sampleWorld)"
  by (rule drop_succeeds_iff_completed) (simp add: lock_errors_are_ctx_errors_def)

text \<open>
  C9. Creating and dropping a database use the same lock: the instance path that the drop takes from the
  database path is the path under which the database is created, exactly when neither the project
  nor the instance ID is the word \<open>databases\<close>, which the validation accepts for both.
\<close>

theorem drop_and_create_use_the_same_lock:
  assumes "valid_IDs opts"
  shows "instancePathFromDatabasePath (opts_DatabasePath opts) =
      cdr_Parent (createDatabaseRequest opts (opts_InstancePath opts) (createStmt opts)) \<longleftrightarrow>
    projectID opts \<noteq> ''databases'' \<and> instanceID opts \<noteq> ''databases''"
  using assms instancePathFromDatabasePath_iff [of "projectID opts" "instanceID opts" "databaseID opts"]
  by (auto simp: valid_IDs_def createDatabaseRequest_def opts_DatabasePath_def opts_InstancePath_def
      dest!: valid_ID_no_special(1))

theorem drop_and_create_use_the_same_lock_witness:
  "valid_IDs (sampleOptions\<lparr>instanceID := ''databases''\<rparr>) \<and>
   instancePathFromDatabasePath (opts_DatabasePath (sampleOptions\<lparr>instanceID := ''databases''\<rparr>)) \<noteq>
     opts_InstancePath (sampleOptions\<lparr>instanceID := ''databases''\<rparr>)"
proof -
  have v: "valid_IDs (sampleOptions\<lparr>instanceID := ''databases''\<rparr>)"
    unfolding validateResourceIDs_None_iff [symmetric] by code_simp
  with drop_and_create_use_the_same_lock [OF v] show ?thesis by (simp add: createDatabaseRequest_def)
qed

text \<open>
  C10. Databases of one instance are created and dropped one at a time, unless its project or instance ID
  is the word \<open>databases\<close>: when any number of goroutines open clients, bootstrap, close clients or
  drop databases, each with whatever answers, and their lock calls interleave in any way that the
  shared table of semaphores allows, then no two of them have a call in flight that creates a
  database with this instance as its parent, waits for such a creation, or drops a database whose
  path lies under the instance, and the one that has such a call holds the semaphore of the instance.
\<close>

theorem database_calls_of_an_instance_exclude:
  assumes "programs_reach E w jobs s" and "plain_instance p i"
    and "admin_call_in_flight s t p i" "admin_call_in_flight s u p i"
  shows "t = u \<and> table (locks s) (instancePath p i) = Some (Some t)"
  using in_flight_unique [OF programs_inv [OF assms(1)] assms(3,4,2)]
    in_flight_holds [OF programs_inv [OF assms(1)] assms(3,2)] lock_invD(1) [OF system_invD(1) [OF programs_inv [OF assms(1)]]]
  by blast

theorem database_calls_of_an_instance_exclude_witness:
  "\<exists>s. programs_reach (\<lambda>t. sampleEnv) (\<lambda>t. sampleWorld) (\<lambda>t. if t < 2 then DropJob Background ''p'' ''i'' ''d'' else NoJob) s \<and>
     admin_call_in_flight s 1 ''p'' ''i'' \<and> table (locks s) (instancePath ''p'' ''i'') = Some (Some 1)"
proof -
  let ?p = "instancePath ''p'' ''i''" and ?c = "WithTimeout Background dropDatabaseTimeout"
  let ?jobs = "\<lambda>t. if t < 2 then DropJob Background ''p'' ''i'' ''d'' else NoJob"
  let ?e = "(AcquireLock ?c ?p, None)"
  let ?es = "[(DropDatabase ?c (databasePath ''p'' ''i'' ''d''), None), (ReleaseLock ?p, None)]"
  let ?s0 = "initial_system (\<lambda>t. program_events sampleEnv sampleWorld (?jobs t))"
  let ?l1 = "(instanceAdminSemaphore ?p (locks ?s0))\<lparr>pcs := (pcs (locks ?s0))(1 := Waiting ?p)\<rparr>"
  let ?l2 = "?l1\<lparr>table := (table ?l1)(?p \<mapsto> Some 1), pcs := (pcs ?l1)(1 := InClosure ?p)\<rparr>"
  let ?s1 = "?s0\<lparr>locks := ?l1\<rparr>"
  let ?s2 = "?s1\<lparr>locks := ?l2, todo := (todo ?s1)(1 := ?es), past := (past ?s1)(1 := ?e # past ?s1 1)\<rparr>"
  have "program_events sampleEnv sampleWorld (DropJob Background ''p'' ''i'' ''d'') = ?e # ?es"
    by code_simp
  then have es: "todo ?s0 1 = ?e # ?es" by (simp add: initial_system_def)
  have "table_step 1 (Find ?p) (locks ?s0) ?l1"
    by (rule table_step.find) (simp_all add: initial_system_def initial_locks_def instancePath_def)
  then have "system_step 1 ?s0 ?s1" by (rule system_step.queue [of _ _ _ _ _ ?es, OF es])
  moreover have "table_step 1 (Acquire ?p) ?l1 ?l2"
    by (rule table_step.acquire) (simp_all add: initial_system_def initial_locks_def)
  then have "system_step 1 ?s1 ?s2"
    using es by (intro system_step.lock [where e = ?e]) simp_all
  ultimately have r: "programs_reach (\<lambda>t. sampleEnv) (\<lambda>t. sampleWorld) ?jobs ?s2"
    unfolding programs_reach_def by (blast intro: system_steps.intros)
  have "hasPrefix (databasePath ''p'' ''i'' ''d'') (?p @ ''/databases/'')" "plain_instance ''p'' ''i''" by code_simp+
  then have f: "admin_call_in_flight ?s2 1 ''p'' ''i''" "plain_instance ''p'' ''i''" by (simp_all add: admin_call_in_flight_def)
  from r f(1) database_calls_of_an_instance_exclude [OF r f(2,1,1)] show ?thesis by blast
qed

text \<open>
  C11. The instance locks never deadlock: when finitely many goroutines run such programs, every schedule
  takes at most \<open>system_work\<close> steps, and where no goroutine can take one all of them have finished.
\<close>

theorem instance_locks_never_deadlock:
  assumes "programs_reach E w jobs s" and "\<And>t. n \<le> t \<Longrightarrow> jobs t = NoJob"
  shows "(\<forall>k s'. system_steps k s s' \<longrightarrow> k \<le> system_work n s) \<and>
    ((\<forall>t s'. \<not> system_step t s s') \<longrightarrow> (\<forall>t. todo s t = []))"
  using system_steps_work [OF _ programs_others_idle [OF assms]] system_not_stuck [OF programs_inv [OF assms(1)]]
  by (meson add_leE)

theorem instance_locks_never_deadlock_witness:
  "let s = initial_system (\<lambda>t. program_events sampleEnv sampleWorld (if t < 2 then DropJob Background ''p'' ''i'' ''d'' else NoJob))
   in \<forall>k s'. system_steps k s s' \<longrightarrow> k \<le> 12"
proof -
  let ?job = "DropJob Background ''p'' ''i'' ''d''"
  let ?jobs = "\<lambda>t. if t < 2 then ?job else NoJob"
  let ?s = "initial_system (\<lambda>t. program_events sampleEnv sampleWorld (?jobs t))"
  have "programs_reach (\<lambda>t. sampleEnv) (\<lambda>t. sampleWorld) ?jobs ?s"
    unfolding programs_reach_def by (blast intro: system_steps.stay)
  from instance_locks_never_deadlock [OF this, of 2]
  have "\<forall>k s'. system_steps k ?s s' \<longrightarrow> k \<le> system_work 2 ?s" by simp
  moreover have "length (program_events sampleEnv sampleWorld ?job) = 3" by code_simp
  then have "system_work 2 ?s = 12"
    by (simp add: system_work_def goroutine_work_def initial_system_def initial_locks_def lessThan_nat_numeral)
  ultimately show ?thesis by (simp add: Let_def)
qed

section \<open>Properties: closing\<close>

text \<open>
  C12. Closing clients closes the data client first, then removes what the clients are to remove, then
  closes the database and instance admin clients, in this order: the instance is deleted when it
  is to be dropped (and the database then goes with it), otherwise the database is dropped when it
  is to be dropped, otherwise nothing is removed.  The removals run under bounded background contexts.
\<close>

theorem close_clients_in_order:
  assumes "is_open (cl_closeState c)" and "SpannerClient c" "DatabaseClient c" "InstanceClient c"
  shows "\<exists>mid. map fst (events (Clients_Close E c) w) =
      CloseSpannerClient # mid @ [CloseDatabaseAdminClient, CloseInstanceAdminClient] \<and>
    mid = (if dropInstance c then [DeleteInstance newCloseContext (Clients_InstancePath c)] else if dropDatabase c
      then map fst (events (dropDatabaseWithRetry E newDropDatabaseContext True (Clients_DatabasePath c)) (body_after_data E c w))
      else [])"
  using assms(2-) close_data_client_calls [of E c w] close_admin_clients_calls [of E c "body_after_drop E c w"]
    drop_resources_calls [of E c "body_after_data E c w"]
  by (simp add: Clients_Close_open(1) [OF assms(1)] events_Clients_close_body)

theorem close_clients_in_order_witness:
  "map fst (events (Clients_Close sampleEnv sampleClients) sampleWorld) =
     [CloseSpannerClient, DeleteInstance newCloseContext (Clients_InstancePath sampleClients),
      CloseDatabaseAdminClient, CloseInstanceAdminClient]"
  using close_clients_in_order [of sampleClients sampleEnv sampleWorld] by (simp add: sampleClients_def)

text \<open>
  C13. Closing clients loses no error of the removal of the instance or of the admin clients: whatever
  one of these calls returned, the close returns an error in which \<open>errors.Is\<close> finds it.
\<close>

theorem close_clients_reports_every_error:
  assumes "is_open (cl_closeState c)" and "(call, Some e) \<in> set (events (Clients_Close E c) w)"
    and "call \<in> {CloseDatabaseAdminClient, CloseInstanceAdminClient, DeleteInstance newCloseContext (Clients_InstancePath c)}"
  shows "\<exists>j. fst (result_of (Clients_Close E c) w) = Some j \<and> error_Is j e"
  using Clients_close_body_reports [OF _ assms(3), of e E w] assms(2)
  by (simp add: Clients_Close_open [OF assms(1)])

theorem close_clients_reports_every_error_witness:
  "\<exists>j. fst (result_of (Clients_Close (failingEnv (\<lambda>c. c = CloseDatabaseAdminClient)) sampleClients) sampleWorld) = Some j \<and>
     error_Is j (External 7)"
proof (rule close_clients_reports_every_error)
  show "(CloseDatabaseAdminClient, Some (External 7))
      \<in> set (events (Clients_Close (failingEnv (\<lambda>c. c = CloseDatabaseAdminClient)) sampleClients) sampleWorld)"
    by (simp add: Clients_Close_open sampleClients_def events_Clients_close_body drop_resources_def
        close_data_client_def close_admin_clients_def events_bind appends_bind)
qed (simp_all add: sampleClients_def)

text \<open>
  C14. Every \<open>Close\<close> is idempotent and nil-safe: closing again, in any later state of the world, makes
  no call and returns what the first close returned, and a nil pointer is closed without an error.
\<close>

theorem every_close_is_idempotent:
  "safe_close Clients_Close_ptr \<and> safe_close Emulator_Close_ptr \<and> safe_close omni_Close_ptr \<and>
   safe_close Env_Close_ptr \<and> safe_close RuntimeEnv_Close_ptr \<and> safe_close LazyRuntime_Close_ptr \<and>
   safe_close LazyEmulator_Close_ptr"
  unfolding safe_close_def close_ptr_defs
  using clients.ptr.close_again emulator.ptr.close_again omni_runtime.ptr.close_again env.ptr.close_again
    runtime_env.ptr.close_again lazy_runtime.ptr.close_again lazy_emulator.ptr.close_again
  by (auto simp: close_ptr_def)

text \<open>
  Closing an environment closes its clients and then terminates the container, even when closing the
  clients failed, and returns both errors joined.
\<close>

lemma env_closes_clients_then_container:
  assumes "is_open (env_closeState v)" "env_Clients v = Some cl" "env_emulator v = Some e"
    and "is_open (e_closeState e)" "e_container e = Some ct"
  shows "\<exists>r. events (Env_Close E v) w = events (Clients_Close E cl) w @ [(TerminateContainer newCloseContext ct, r)] \<and>
    fst (result_of (Env_Close E v) w) = errors_Join [fst (result_of (Clients_Close E cl) w), r]"
  by (simp add: Env_Close_open [OF assms(1-3)] Emulator_Close_open [OF assms(4,5)])

section \<open>Properties: options\<close>

text \<open>
  C15. Whatever options are applied to whatever base, a result of either finalization is well formed: valid
  project, instance and database IDs, an image, a client configuration, a resolved random database
  ID, and no descriptor set that the setup would ignore; explicit IDs and all policy fields are
  those the options asked for, and a fresh random database ID replaces no explicit one.
\<close>

theorem applied_options_are_finalized:
  assumes "applyOptionsWithBase genv r base options = Inr o' \<or> applyOmniOptionsWithBase genv r base options = Inr o'"
  shows "\<exists>opts. fold_result options base = Inr opts \<and> finalizer_laws opts o'"
  using assms
  by (auto simp: applyOptionsWithBase_def applyOmniOptionsWithBase_def split: sum.splits
      intro: finalizeOptions_laws finalizeOmniOptions_laws)

theorem applied_options_are_finalized_witness:
  "\<exists>opts. fold_result [] zeroOptions = Inr opts \<and> finalizer_laws opts sampleOptions"
  by (rule applied_options_are_finalized [of "\<lambda>k. []" "\<lambda>n. n"])
    (simp add: applyOptionsWithBase_def sample_finalized)

text \<open>
  C16. A generated ID has 30 characters, a lower-case letter followed by lower-case letters and digits,
  and is accepted as a project, an instance and a database ID, whatever the random numbers.
\<close>

theorem generated_IDs_are_valid:
  "let i = fst (generateRandomID r)
   in length i = 30 \<and> isLowercaseLetter (hd i) \<and> list_all isLowercaseLetterOrDigit i \<and>
      validateResourceID ''project'' i minProjectIDLength maxProjectIDLength = None \<and>
      validateResourceID ''instance'' i minInstanceIDLength maxInstanceIDLength = None \<and>
      validateResourceID ''database'' i minDatabaseIDLength maxDatabaseIDLength = None"
proof -
  obtain i r' where i: "generateRandomID r = (i, r')" by fastforce
  show ?thesis
    using generateRandomID_format [OF i] generateRandomID_valid [OF i]
    by (simp add: i validateResourceID_None_iff minProjectIDLength_def maxProjectIDLength_def minInstanceIDLength_def
        maxInstanceIDLength_def minDatabaseIDLength_def maxDatabaseIDLength_def)
qed

text \<open>
  C17. The \<open>CREATE DATABASE\<close> statement quotes the ID of finalized options exactly: between the dialect's
  quotes stands the ID itself, and it contains no quote that could end the name.
\<close>

theorem create_statement_quotes_the_ID:
  assumes "finalized opts"
  shows "\<exists>q. createStmt opts = ''CREATE DATABASE '' @ [q] @ databaseID opts @ [q] \<and> q \<notin> set (databaseID opts) \<and>
    q = (if databaseDialect opts = POSTGRESQL then CHR 0x22 else CHR ''`'')"
proof -
  have "valid_ID ''database'' (databaseID opts) minDatabaseIDLength maxDatabaseIDLength"
    using assms by (simp add: finalized_def valid_IDs_def)
  note v = valid_ID_no_special [OF this]
  then show ?thesis by (auto simp: createStmt_def replaceAll_id)
qed

theorem create_statement_quotes_the_ID_witness:
  "\<exists>q. createStmt sampleOptions = ''CREATE DATABASE '' @ [q] @ databaseID sampleOptions @ [q] \<and> q \<notin> set (databaseID sampleOptions) \<and>
    q = (if databaseDialect sampleOptions = POSTGRESQL then CHR 0x22 else CHR ''`'')"
proof (rule create_statement_quotes_the_ID)
  have "finalizer_laws zeroOptions sampleOptions"
    by (rule finalizeOptions_laws [OF sample_finalized])
  then show "finalized sampleOptions" by (simp add: finalizer_laws_def)
qed

section \<open>Properties: Omni\<close>

text \<open>
  C18. Finalization for Omni succeeds exactly when no ID conflicts, the guardrails are off or respected (no
  random or foreign project or instance, no instance creation, no emulator flag), the IDs
  filled in with Omni's defaults are valid, and the steps shared with the emulator succeed on
  them; and then the result is theirs.  With the guardrails on it names the fixed project and
  instance of the single-server deployment, never creates the instance, carries no emulator
  flag, and its client configuration has native metrics off and the experimental host on.
\<close>

theorem omni_finalization_exact:
  "(finalizeOmniOptions genv r opts = Inr o' \<longleftrightarrow>
     \<not> id_conflict opts \<and> (disableBackendGuardrails opts \<or> omni_guarded opts) \<and>
     valid_IDs (filledOptions defaultOmniImage defaultOmniProjectID defaultOmniInstanceID r opts) \<and>
     finishOptions genv (omniFilled r opts) = Inr o') \<and>
   (finalizeOmniOptions genv r opts = Inr o' \<and> \<not> disableBackendGuardrails opts \<longrightarrow>
     projectID o' = defaultOmniProjectID \<and> instanceID o' = defaultOmniInstanceID \<and>
     disableCreateInstance o' \<and> gatewayFlags o' = [] \<and>
     (\<exists>cfg. clientConfig o' = Some cfg \<and> DisableNativeMetrics cfg \<and> IsExperimentalHost cfg))"
proof
  show "finalizeOmniOptions genv r opts = Inr o' \<longleftrightarrow>
     \<not> id_conflict opts \<and> (disableBackendGuardrails opts \<or> omni_guarded opts) \<and>
     valid_IDs (filledOptions defaultOmniImage defaultOmniProjectID defaultOmniInstanceID r opts) \<and>
     finishOptions genv (omniFilled r opts) = Inr o'"
    using finalizeOmniOptions_Inr [of genv r opts o'] finalizeOmniOptions_accepted [of opts genv r]
    by (auto simp: validateResourceIDs_None_iff [symmetric])
qed (auto dest: finalizeOmniOptions_guarded)

theorem omni_finalization_exact_witness:
  "\<exists>o'. finalizeOmniOptions (\<lambda>k. []) (\<lambda>n. n) (zeroOptions\<lparr>disableCreateInstance := True\<rparr>) = Inr o' \<and>
     projectID o' = defaultOmniProjectID \<and> gatewayFlags o' = []"
proof -
  have "\<not> isl (finalizeOmniOptions (\<lambda>k. []) (\<lambda>n. n) (zeroOptions\<lparr>disableCreateInstance := True\<rparr>))"
    by code_simp
  then obtain o' where o': "finalizeOmniOptions (\<lambda>k. []) (\<lambda>n. n) (zeroOptions\<lparr>disableCreateInstance := True\<rparr>) = Inr o'"
    by (metis isl_def sum.exhaust)
  have "\<not> disableBackendGuardrails (zeroOptions\<lparr>disableCreateInstance := True\<rparr>)" by (simp add: zeroOptions_def)
  with omni_finalization_exact [of "\<lambda>k. []" "\<lambda>n. n" "zeroOptions\<lparr>disableCreateInstance := True\<rparr>" o'] o' show ?thesis by auto
qed

text \<open>
  C19. The container that Omni starts is what its customizers make of the request: as long as none of them
  changes the command, it is the command for the final image; from the first that does, the
  remaining customizers alone decide.
\<close>

theorem omni_command_ownership:
  assumes "customizeOmni E True (omniRequest opts) (containerCustomizers opts) = Inr req"
  shows "newOmni E c opts = run_container E (RunGenericContainer c req) \<and>
    (list_all (keeps_command E) (containerCustomizers opts) \<longrightarrow> req_Cmd req = omniCmd (req_Image req)) \<and>
    (\<forall>before cu rest r r'. containerCustomizers opts = before @ cu # rest \<longrightarrow>
       customizeOmni E True (omniRequest opts) before = Inr r \<longrightarrow> customize E cu r = Inr r' \<longrightarrow> req_Cmd r' \<noteq> req_Cmd r \<longrightarrow>
       fold_result (map (customize E) rest) r' = Inr req)"
  using assms customizeOmni_follows [of E "containerCustomizers opts" "omniRequest opts" req] customizeOmni_owned
  by (auto simp: newOmni_def omniRequest_def)

theorem omni_command_ownership_witness:
  "let E = sampleEnv\<lparr>customize := \<lambda>cu req. Inr (req\<lparr>req_Image := ''omni:2026.r1''\<rparr>)\<rparr>;
       opts = sampleOptions\<lparr>containerCustomizers := [UserCustomizer 0]\<rparr>;
       req = (omniRequest opts)\<lparr>req_Image := ''omni:2026.r1'', req_Cmd := omniCmd ''omni:2026.r1''\<rparr>
   in newOmni E Caller opts = run_container E (RunGenericContainer Caller req) \<and> req_Cmd req = [''start-single-server'']"
proof -
  let ?E = "sampleEnv\<lparr>customize := \<lambda>cu req. Inr (req\<lparr>req_Image := ''omni:2026.r1''\<rparr>)\<rparr>"
  let ?opts = "sampleOptions\<lparr>containerCustomizers := [UserCustomizer 0]\<rparr>"
  let ?req = "(omniRequest ?opts)\<lparr>req_Image := ''omni:2026.r1'', req_Cmd := omniCmd ''omni:2026.r1''\<rparr>"
  have c: "omniCmd ''omni:2026.r1'' = [''start-single-server'']" by code_simp
  have "customizeOmni ?E True (omniRequest ?opts) (containerCustomizers ?opts) = Inr ?req"
    by (simp add: Let_def omniRequest_def sampleOptions_def emulator_defaults)
  from omni_command_ownership [OF this] c show ?thesis by (simp add: Let_def)
qed

section \<open>Properties: attaching to an endpoint\<close>

text \<open>
  C20. An endpoint loaded for a backend is valid and of that backend, whether it comes from a file or from
  variables; and when no endpoint file is configured, one is loaded exactly when
  \<open>EndpointConfiguredForBackend\<close> announces it.
\<close>

theorem configured_backend_loads:
  "(\<forall>ep. result_of (LoadEndpointForBackend E b) w = Inr ep \<longrightarrow> en_Backend ep = b \<and> Endpoint_validate ep = None) \<and>
   (trimSpace (getenv E endpointFileEnv) = [] \<longrightarrow>
     ((\<exists>ep. result_of (LoadEndpointForBackend E b) w = Inr ep) \<longleftrightarrow> EndpointConfiguredForBackend (getenv E) b))"
  using LoadEndpointForBackend_sound [of E b w] LoadEndpointForBackend_env [of E b]
    LoadEndpointForBackend_unconfigured [of E b]
  by (cases "EndpointConfiguredForBackend (getenv E) b") auto

theorem configured_backend_loads_witness:
  "\<exists>ep. result_of (LoadEndpointForBackend (sampleEnv\<lparr>getenv := \<lambda>k. if k = emulatorURIEnv then ''localhost:9010'' else []\<rparr>)
     BackendEmulator) sampleWorld = Inr ep"
proof -
  have "trimSpace (getenv (sampleEnv\<lparr>getenv := \<lambda>k. if k = emulatorURIEnv then ''localhost:9010'' else []\<rparr>) endpointFileEnv) = []"
    "EndpointConfiguredForBackend (getenv (sampleEnv\<lparr>getenv := \<lambda>k. if k = emulatorURIEnv then ''localhost:9010'' else []\<rparr>)) BackendEmulator"
    by code_simp+
  then show ?thesis
    using configured_backend_loads [of "sampleEnv\<lparr>getenv := \<lambda>k. if k = emulatorURIEnv then ''localhost:9010'' else []\<rparr>"
        BackendEmulator sampleWorld]
    by blast
qed

text \<open>
  C21. A lazy runtime that is made while an endpoint is configured for its backend leaves that backend to
  its owner: under \<open>TestMain\<close>, whatever sequence of gets, openings of clients, queries and closes the
  tests make of it, with whatever answers, no container is started and none is terminated.
\<close>

theorem configured_lazy_runtime_owns_nothing:
  assumes "result_of (NewLazyRuntimeFromEnvOrStart E backend options) w = Inr lr"
    and "EndpointConfiguredForBackend (getenv E) backend"
  shows "ensures (LazyRuntime_TestMain E' (tests_using (LazyRuntime_use E') us code) lr)
    (\<lambda>r es. started_containers es = 0 \<and> stopped_containers es = 0)"
  by (rule attached_main [OF fresh_attached(1) [OF assms]])

theorem configured_lazy_runtime_owns_nothing_witness:
  "let E = sampleEnv\<lparr>getenv := \<lambda>k. if k = emulatorURIEnv then ''localhost:9010'' else []\<rparr>
   in \<exists>lr. result_of (NewLazyRuntimeFromEnvOrStart E BackendEmulator []) sampleWorld = Inr lr \<and>
     started_containers (events (LazyRuntime_TestMain E (tests_using (LazyRuntime_use E) [UseGet Caller, UseClose] 0) lr) sampleWorld) = 0"
proof -
  let ?E = "sampleEnv\<lparr>getenv := \<lambda>k. if k = emulatorURIEnv then ''localhost:9010'' else []\<rparr>"
  have "\<not> isl (result_of (NewLazyRuntimeFromEnvOrStart ?E BackendEmulator []) sampleWorld)"
    and conf: "EndpointConfiguredForBackend (getenv ?E) BackendEmulator"
    by code_simp+
  then obtain lr where lr: "result_of (NewLazyRuntimeFromEnvOrStart ?E BackendEmulator []) sampleWorld = Inr lr"
    by (metis isl_def sum.exhaust)
  from ensuresD [OF configured_lazy_runtime_owns_nothing [OF lr conf]] lr show ?thesis by (simp add: Let_def)
qed

text \<open>
  C22. Attaching to the endpoint of a runtime, with options that leave the IDs alone, gives the runtime's
  backend, URI, project and instance; and the endpoint of the attached runtime is the same
  endpoint, without the evidence of an inspection that this process did not make.
\<close>

theorem attach_to_endpoint_of_runtime:
  assumes "EndpointFromRuntime (Some r) = Inr ep" and "NewAttachedRuntime genv rnd ep options = Inr a"
    and "list_all neutral_option options"
  shows "a_backend a = backendForRuntime r \<and> Attached_URI (Some a) = trimSpace (rt_URI r) \<and>
    Attached_ProjectID (Some a) = rt_ProjectID r \<and> Attached_InstanceID (Some a) = rt_InstanceID r \<and>
    EndpointFromRuntime (Some (RI_Attached a)) = Inr (ep\<lparr>en_Provenance := None\<rparr>)"
  by (rule attach_round_trip [OF assms])

theorem attach_to_endpoint_of_runtime_witness:
  "\<exists>ep a. EndpointFromRuntime (Some (RI_Emulator \<lparr>e_container = Some sampleContainer, e_opts = Some sampleOptions,
       e_closeState = None, e_provenance = None\<rparr>)) = Inr ep \<and>
     NewAttachedRuntime (\<lambda>k. []) (\<lambda>n. n) ep [] = Inr a \<and> Attached_URI (Some a) = ''localhost:9010''"
proof -
  let ?r = "RI_Emulator \<lparr>e_container = Some sampleContainer, e_opts = Some sampleOptions, e_closeState = None, e_provenance = None\<rparr>"
  let ?ep = "plainEndpoint BackendEmulator ''localhost:9010'' DefaultProjectID DefaultInstanceID"
  have ep: "EndpointFromRuntime (Some ?r) = Inr ?ep" and uri: "trimSpace (rt_URI ?r) = ''localhost:9010''"
    and "isl (NewAttachedRuntime (\<lambda>k. []) (\<lambda>n. n) ?ep []) = False"
    by code_simp+
  then obtain a where a: "NewAttachedRuntime (\<lambda>k. []) (\<lambda>n. n) ?ep [] = Inr a" by (metis isl_def sum.exhaust)
  from attach_to_endpoint_of_runtime [OF ep a] ep a uri show ?thesis by auto
qed

text \<open>
  C23. The image evidence that a runtime observed survives its endpoint: a runtime attached to it reports
  the same image, digests, platform and time, marked as reported by the endpoint and not as
  observed by this process.
\<close>

theorem provenance_survives_the_endpoint:
  assumes "EndpointFromRuntime (Some r) = Inr ep" and "NewAttachedRuntime genv rnd ep options = Inr a"
    and "rt_imageProvenance r = Inr p" and "ip_Source p = ImageProvenanceContainerInspect"
  shows "Attached_imageProvenance (Some a) =
    Inr (p\<lparr>ip_Source := ImageProvenanceEndpointFile, ip_ObservedByThisProcess := False\<rparr>)"
  by (rule attached_provenance [OF assms])

theorem provenance_survives_the_endpoint_witness:
  "\<exists>a p. Attached_imageProvenance (Some a) = Inr p \<and> ip_ImageID p = ''sha256:1'' \<and> \<not> ip_ObservedByThisProcess p"
proof -
  let ?p = "zeroImageProvenance\<lparr>ip_ImageID := ''sha256:1'', ip_Source := ImageProvenanceContainerInspect,
    ip_ObservedByThisProcess := True\<rparr>"
  let ?r = "RI_Emulator \<lparr>e_container = Some sampleContainer, e_opts = Some sampleOptions, e_closeState = None, e_provenance = Some ?p\<rparr>"
  let ?ep = "(plainEndpoint BackendEmulator ''localhost:9010'' DefaultProjectID DefaultInstanceID)\<lparr>en_Provenance := endpointSnapshot (Some ?p)\<rparr>"
  have ep: "EndpointFromRuntime (Some ?r) = Inr ?ep" and "isl (NewAttachedRuntime (\<lambda>k. []) (\<lambda>n. n) ?ep []) = False"
    by code_simp+
  then obtain a where a: "NewAttachedRuntime (\<lambda>k. []) (\<lambda>n. n) ?ep [] = Inr a" by (metis isl_def sum.exhaust)
  have p: "rt_imageProvenance ?r = Inr ?p" by (simp add: Emulator_imageProvenance_def)
  have "Attached_imageProvenance (Some a) = Inr (?p\<lparr>ip_Source := ImageProvenanceEndpointFile, ip_ObservedByThisProcess := False\<rparr>)"
    by (rule provenance_survives_the_endpoint [OF ep a p]) simp
  then show ?thesis by (intro exI conjI, assumption) simp_all
qed

text \<open>
  C24. Clients of an attached runtime, without options of their own, get the database, the database
  creation, the setup and the teardown policy of the runtime's constructor: the database is to be
  dropped exactly when the constructor's options say so, by the teardown option or, without one, by
  whether the database ID is random.  The instance is neither created nor dropped, whatever the
  constructor's options said of it.
\<close>

theorem attached_runtime_policies:
  assumes "a_opts a = Some opts"
  shows "\<exists>x. Attached_inheritedOptions genv r (Some a) [] = Inr x \<and> opts_DatabasePath x = opts_DatabasePath opts \<and>
    disableCreateInstance x \<and> disableCreateDatabase x = disableCreateDatabase opts \<and>
    schemaTeardown x = schemaTeardown opts \<and> randomDatabaseID x = randomDatabaseID opts \<and>
    randomDatabaseIDResolved x = randomDatabaseIDResolved opts \<and>
    shouldDropDatabase x = shouldDropDatabase opts \<and> \<not> shouldDropInstance x \<and>
    setupDDLs x = setupDDLs opts \<and> setupDMLs x = setupDMLs opts \<and>
    setupFileDescriptorSet x = setupFileDescriptorSet opts \<and> clientConfig x = clientConfig opts \<and>
    clientOptionsForClient x = clientOptionsForClient opts \<and> disableBackendGuardrails x = disableBackendGuardrails opts"
  by (rule attached_inherits [OF assms])

theorem attached_runtime_policies_witness:
  "\<exists>a opts x. NewAttachedRuntime (\<lambda>k. []) (\<lambda>n. n) (plainEndpoint BackendEmulator ''localhost:9010'' ''project-1'' ''instance-1'')
      [EnableAutoConfig] = Inr a \<and> a_opts a = Some opts \<and> \<not> disableCreateInstance opts \<and>
    Attached_inheritedOptions (\<lambda>k. []) (\<lambda>n. n) (Some a) [] = Inr x \<and> disableCreateInstance x"
proof -
  let ?m = "NewAttachedRuntime (\<lambda>k. []) (\<lambda>n. n) (plainEndpoint BackendEmulator ''localhost:9010'' ''project-1'' ''instance-1'') [EnableAutoConfig]"
  have "case ?m of Inl e \<Rightarrow> False | Inr a \<Rightarrow> (case a_opts a of None \<Rightarrow> False | Some opts \<Rightarrow> \<not> disableCreateInstance opts)"
    by code_simp
  then obtain a opts where a: "?m = Inr a" "a_opts a = Some opts" "\<not> disableCreateInstance opts"
    by (auto split: sum.splits option.splits)
  with attached_runtime_policies [OF a(2), of "\<lambda>k. []" "\<lambda>n. n"] show ?thesis by auto
qed

section \<open>Properties: endpoint files, serving and stopping\<close>

text \<open>
  C25. Saving an endpoint is atomic, whatever file operation fails: on success exactly the endpoint file
  has changed, it has the endpoint's text and mode 0600; on an error the endpoint file is what it
  was, at most the temporary file is left behind, and nothing is unless its removal failed too.
\<close>

theorem saving_is_atomic:
  assumes "temp_name_new E path w"
  shows "saved E path ep w (result_of (SaveEndpoint E path ep) w) (world_after (SaveEndpoint E path ep) w)"
  by (rule SaveEndpoint_saved [OF assms])

theorem saving_is_atomic_witness:
  "saved sampleEnv ''/run/endpoint.json''
     (plainEndpoint BackendEmulator ''localhost:9010'' ''p'' ''i'') sampleWorld
     (result_of (SaveEndpoint sampleEnv ''/run/endpoint.json''
       (plainEndpoint BackendEmulator ''localhost:9010'' ''p'' ''i'')) sampleWorld)
     (world_after (SaveEndpoint sampleEnv ''/run/endpoint.json''
       (plainEndpoint BackendEmulator ''localhost:9010'' ''p'' ''i'')) sampleWorld)"
  by (rule saving_is_atomic) (simp add: temp_name_new_def temp_name_def world_after_def os_MkdirAll_def run_os_step
      no_check_def record_event_def)

text \<open>
  C26. An endpoint that was saved is read back as it was, as long as the file stays and can be read, when
  its texts are valid UTF-8 and its PID is a 64-bit int.
\<close>

theorem saved_endpoint_is_read_back:
  assumes "temp_name_new E path w" and "endpoint_text_ok ep"
    and "result_of (SaveEndpoint E path ep) w = None"
    and "files w' path = files (world_after (SaveEndpoint E path ep) w) path" and "os_fail E w' (ReadFile path) = None"
  shows "result_of (ReadEndpointFile E path) w' = Inr ep"
  by (rule SaveEndpoint_then_Read [OF assms])

theorem saved_endpoint_is_read_back_witness:
  "let ep = (plainEndpoint BackendEmulator ''localhost:9010'' ''p'' ''i'')\<lparr>en_PID := 42, en_StartedAt := ''<now>''\<rparr>;
       w = world_after (SaveEndpoint sampleEnv ''/run/endpoint.json'' ep) sampleWorld
   in result_of (ReadEndpointFile sampleEnv ''/run/endpoint.json'') w = Inr ep"
  unfolding Let_def
proof (rule saved_endpoint_is_read_back [where w = sampleWorld])
  let ?ep = "(plainEndpoint BackendEmulator ''localhost:9010'' ''p'' ''i'')\<lparr>en_PID := 42, en_StartedAt := ''<now>''\<rparr>"
  show "temp_name_new sampleEnv ''/run/endpoint.json'' sampleWorld"
    by (simp add: temp_name_new_def temp_name_def world_after_def os_MkdirAll_def run_os_step no_check_def record_event_def)
  show "endpoint_text_ok ?ep" by code_simp
  show "result_of (SaveEndpoint sampleEnv ''/run/endpoint.json'' ?ep) sampleWorld = None" by code_simp
qed simp_all

text \<open>
  C27. No container outlives \<open>Serve\<close>: whatever the backend, the options, the answers of the calls, the
  file operations and the way the wait ends, it calls for the termination of exactly as many containers
  as the container library gave it, with an error or without one.
\<close>

theorem serve_stops_its_container:
  "ensures (Serve E c backend path options) (\<lambda>r es. started_containers es = stopped_containers es)"
  by (rule Serve_stops)

text \<open>
  C28. A \<open>serve\<close> that ends without an error has removed its endpoint file and its PID file, as long as the
  files can be removed: neither is left to name a process that is gone.
\<close>

theorem serve_cleans_up:
  assumes "result_of (ServeFromConfig E c cfg) w = None" and "removable E (sc_EndpointFile cfg)" "removable E (sc_PIDFile cfg)"
  shows "\<forall>path \<in> {sc_EndpointFile cfg, sc_PIDFile cfg} - {[]}. files (world_after (ServeFromConfig E c cfg) w) path = None"
  by (rule ServeFromConfig_cleans [OF assms])

theorem serve_cleans_up_witness:
  "let cfg = \<lparr>sc_Backend = BackendEmulator, sc_EndpointFile = ''e.json'', sc_PIDFile = ''pid'', sc_Options = []\<rparr>
   in \<forall>path \<in> {''e.json'', ''pid''}. files (world_after (ServeFromConfig sampleEnv Caller cfg) sampleWorld) path = None"
proof -
  let ?cfg = "\<lparr>sc_Backend = BackendEmulator, sc_EndpointFile = ''e.json'', sc_PIDFile = ''pid'', sc_Options = []\<rparr>"
  obtain r ep where "result_of (Run sampleEnv Caller BackendEmulator []) samplePIDWorld = Inr r"
    and "EndpointFromRuntime (Some r) = Inr ep" "printable_endpoint ep" by (rule sample_run)
  then have "result_of (Serve sampleEnv Caller BackendEmulator ''e.json'' []) samplePIDWorld = None"
    by (simp add: Serve_def result_of_bind sample_serve_body)
  with sample_PID_written have "result_of (ServeFromConfig sampleEnv Caller ?cfg) sampleWorld = None"
    by (simp add: ServeFromConfig_def result_of_bind samplePIDWorld_def)
  moreover have "removable sampleEnv (sc_EndpointFile ?cfg)" "removable sampleEnv (sc_PIDFile ?cfg)"
    by (simp_all add: removable_def)
  ultimately have "\<forall>path \<in> {sc_EndpointFile ?cfg, sc_PIDFile ?cfg} - {[]}.
      files (world_after (ServeFromConfig sampleEnv Caller ?cfg) sampleWorld) path = None"
    by (rule serve_cleans_up)
  then show ?thesis by (simp add: Let_def)
qed

text \<open>
  C29. The arguments of \<open>serve\<close> are read as they were written: the command line with a backend and any
  endpoint file, PID file, default database and image gives exactly the configuration with
  these settings.
\<close>

theorem serve_arguments_round_trip:
  assumes "b \<in> {BackendEmulator, BackendOmni}"
  shows "ParseServeArgs (serve_argv b endpoint pid database img) = Inr
    \<lparr>sc_Backend = b, sc_EndpointFile = endpoint, sc_PIDFile = pid,
     sc_Options = (if b = BackendOmni \<and> \<not> database then [DisableAutoConfig] else []) @
       (if img \<noteq> [] then [WithContainerImage img] else [])\<rparr>"
  using assms parse_serve_argv [OF assms] by (auto simp: ParseServeArgs_def BackendEmulator_def BackendOmni_def)

theorem serve_arguments_round_trip_witness:
  "ParseServeArgs (serve_argv BackendOmni ''/run/endpoint.json'' [] True ''img'') = Inr
    \<lparr>sc_Backend = BackendOmni, sc_EndpointFile = ''/run/endpoint.json'', sc_PIDFile = [],
     sc_Options = [WithContainerImage ''img'']\<rparr>"
  using serve_arguments_round_trip [of BackendOmni "''/run/endpoint.json''" "[]" True "''img''"] by simp

text \<open>
  C30. \<open>stop\<close> finds the process that \<open>serve\<close> is: from the PID file that \<open>serve\<close> wrote when one is given, and
  else from the endpoint file that it saved, it resolves the PID of the serving process, for every
  PID that an int holds.
\<close>

theorem stop_finds_the_process_of_serve:
  assumes "0 < getpid E" "getpid E \<le> maxInt"
    and "path = (if trimSpace (st_PIDFile cfg) \<noteq> [] then trimSpace (st_PIDFile cfg) else trimSpace (st_EndpointFile cfg))"
    and "path \<noteq> []" "files w path = Some f" "os_fail E' w (ReadFile path) = None"
    and "if trimSpace (st_PIDFile cfg) \<noteq> [] then pid_file_of_serve E path f else endpoint_file_of_serve E path f"
  shows "result_of (resolveServePID E' cfg) w = Inr (getpid E)"
  using assms stop_reads_pid_file [of E cfg f w E'] stop_reads_endpoint_file [of E cfg f w E']
  by (cases "trimSpace (st_PIDFile cfg) = []") simp_all

theorem stop_finds_the_process_of_serve_witness:
  "let ep = plainEndpoint BackendEmulator ''localhost:9010'' ''p'' ''i'';
       w = world_after (SaveEndpoint sampleEnv ''e.json'' (servedEndpoint sampleEnv 0 ep)) sampleWorld
   in result_of (resolveServePID sampleEnv \<lparr>st_EndpointFile = ''e.json'', st_PIDFile = [], st_Timeout = 0\<rparr>) w = Inr 42"
proof -
  let ?ep = "plainEndpoint BackendEmulator ''localhost:9010'' ''p'' ''i''"
  let ?m = "SaveEndpoint sampleEnv ''e.json'' (servedEndpoint sampleEnv 0 ?ep)"
  let ?cfg = "\<lparr>st_EndpointFile = ''e.json'', st_PIDFile = [], st_Timeout = 0\<rparr>"
  have saved: "result_of ?m sampleWorld = None" and there: "files (world_after ?m sampleWorld) ''e.json'' \<noteq> None"
    and trim: "trimSpace (st_EndpointFile ?cfg) = ''e.json''" "trimSpace (st_PIDFile ?cfg) = []"
    and ok: "endpoint_text_ok ?ep" and pid: "0 < getpid sampleEnv" "getpid sampleEnv \<le> maxInt"
    by code_simp+
  obtain f where f: "files (world_after ?m sampleWorld) ''e.json'' = Some f" using there by auto
  have "temp_name_new sampleEnv ''e.json'' sampleWorld"
    by (simp add: temp_name_new_def temp_name_def world_after_def os_MkdirAll_def run_os_step no_check_def record_event_def)
  with ok saved f have "endpoint_file_of_serve sampleEnv ''e.json'' f" unfolding endpoint_file_of_serve_def by blast
  with stop_finds_the_process_of_serve [OF pid _ _ f, of ?cfg] trim show ?thesis by (simp add: Let_def)
qed

text \<open>
  C31. \<open>stop\<close> returns: with \<open>stop_fuel\<close> turns, a number computed from the timeout, none of its loops runs
  out, provided that a timer that fires has let its duration pass.
\<close>

theorem stop_terminates:
  assumes "timers_fire_late E" and "stop_fuel cfg \<le> fuel"
  shows "\<exists>err. result_of (StopFromConfig E c cfg fuel) w = Some err"
  using stop_returns [OF assms] by (simp add: result_of_def)

theorem stop_terminates_witness:
  "\<exists>err. result_of (StopFromConfig sampleEnv Background
     \<lparr>st_EndpointFile = ''f'', st_PIDFile = [], st_Timeout = 0\<rparr> 302) sampleWorld = Some err"
  by (rule stop_terminates)
    (simp_all add: timers_fire_late_def stop_fuel_def stopTimeout_def defaultStopTimeout_def time_units)



text \<open>
  C33. When \<open>stop\<close> succeeds the endpoint file is gone, whether the stopped process removed it or \<open>stop\<close> did.
\<close>

theorem successful_stop_removes_the_endpoint:
  assumes "result_of (StopFromConfig E c cfg fuel) w = Some None" and "trimSpace (st_EndpointFile cfg) \<noteq> []"
  shows "files (world_after (StopFromConfig E c cfg fuel) w) (trimSpace (st_EndpointFile cfg)) = None"
  using stop_leaves_none(4) [OF refl assms(2), of E c fuel] assms(1)
  by (simp add: leaves_none_def result_of_def world_after_def)

theorem successful_stop_removes_the_endpoint_witness:
  "let E = failingEnv (\<lambda>call. case call of SendSignal p s \<Rightarrow> s = Signal0 | _ \<Rightarrow> False);
       cfg = \<lparr>st_EndpointFile = ''f'', st_PIDFile = [], st_Timeout = 0\<rparr>;
       text = ''{\"backend\": \"emulator\", \"uri\": \"u\", \"project_id\": \"p\", \"instance_id\": \"i\", \"pid\": 7}'';
       w = sampleWorld\<lparr>files := [''f'' \<mapsto> \<lparr>content = text, mode = 384\<rparr>]\<rparr>
   in files (world_after (StopFromConfig E Background cfg 22) w) (trimSpace ''f'') = None"
proof -
  let ?E = "failingEnv (\<lambda>call. case call of SendSignal p s \<Rightarrow> s = Signal0 | _ \<Rightarrow> False)"
  let ?cfg = "\<lparr>st_EndpointFile = ''f'', st_PIDFile = [], st_Timeout = 0\<rparr>"
  let ?text = "''{\"backend\": \"emulator\", \"uri\": \"u\", \"project_id\": \"p\", \"instance_id\": \"i\", \"pid\": 7}''"
  let ?w = "sampleWorld\<lparr>files := [''f'' \<mapsto> \<lparr>content = ?text, mode = 384\<rparr>]\<rparr>"
  have "result_of (StopFromConfig ?E Background ?cfg 22) ?w = Some None" "trimSpace (st_EndpointFile ?cfg) \<noteq> []"
    by code_simp+
  from successful_stop_removes_the_endpoint [OF this] show ?thesis by (simp add: Let_def)
qed

text \<open>
  C34. \<open>stop\<close> signals only the process it resolved, first with SIGTERM; it sends SIGKILL only after SIGTERM
  was delivered and every probe since found the process alive, at most once, and afterwards
  only probes.
\<close>

theorem stop_signals_in_order:
  "\<exists>sg. signals (events (StopFromConfig E c cfg fuel) w) = sg \<and>
     (sg = [] \<or> (\<exists>pid. result_of (resolveServePID E cfg) w = Inr pid \<and> stop_signals pid sg))"
  by (rule StopFromConfig_signals)

section \<open>Properties: lazy handles under concurrency\<close>

text \<open>
  C35. However goroutines interleave their gets and closes of a lazy handle: the backend is started at most
  once and closed at most once, only a started one is closed, a get reads the outcome only after
  the start has returned, and only one goroutine at a time is in the start or in the close.  Before a
  close goes on to \<open>closeOnce\<close> it has the \<open>sync.Once\<close> of the start done, by waiting for the start
  or by taking its place; and once that is done, the outcome is the same for every later get.  So a
  handle whose first use was a close stays unused: no later get or close starts or closes a backend.
\<close>

theorem lazy_starts_and_closes_once:
  assumes "lazy_reachable s" and "lazy_steps s s'"
  shows "starts s \<le> 1 \<and> closings s \<le> starts s \<and>
    (\<forall>t. lazy_pcs s t = GetReading \<longrightarrow> once s = Done) \<and>
    (\<forall>t u. lazy_pcs s t = GetStarting \<and> lazy_pcs s u = GetStarting \<or> lazy_pcs s t = CloseRunning \<and> lazy_pcs s u = CloseRunning \<longrightarrow> t = u) \<and>
    (\<forall>t u. lazy_pcs s t = CloseRunning \<longrightarrow> lazy_pcs s u \<noteq> GetStarting) \<and>
    (\<forall>t. lazy_pcs s t \<in> {CloseSecond, CloseRunning, CloseReturning} \<longrightarrow> once s = Done) \<and>
    (once s = Done \<longrightarrow> once s' = Done \<and> started s' = started s \<and> (starts s = 0 \<longrightarrow> starts s' = 0 \<and> closings s' = 0))"
proof -
  note inv = lazy_reachable_inv [OF assms(1)] and inv' = lazy_steps_inv [OF assms(2) lazy_reachable_inv [OF assms(1)]]
  have "closings s' = 0" if "starts s' = 0" using inv' that by (auto simp: lazy_inv_def lazy_fields_ok_def)
  then have "once s = Done \<longrightarrow> once s' = Done \<and> started s' = started s \<and> (starts s = 0 \<longrightarrow> starts s' = 0 \<and> closings s' = 0)"
    using lazy_steps_later [OF assms(2) inv] by (auto simp: lazy_later_def)
  moreover note lazy_inv_facts [OF inv]
  ultimately show ?thesis by simp
qed

theorem lazy_starts_and_closes_once_witness:
  "\<exists>s. lazy_reachable s \<and> lazy_pcs s 1 = CloseSecond \<and> once s = Done \<and> starts s = 0 \<and> lazy_steps s (goto 2 GetOnce s) \<and>
     starts (goto 2 GetOnce s) = 0 \<and> closings (goto 2 GetOnce s) = 0"
proof -
  let ?s1 = "goto 1 CloseFirst initial_lazy"
  let ?s = "goto 1 CloseSecond (?s1\<lparr>once := Done\<rparr>)"
  have "lazy_step 1 initial_lazy ?s1" by (rule lazy_step.close_call) (simp add: initial_lazy_def)
  moreover have "lazy_step 1 ?s1 ?s" by (rule lazy_step.close_noop) (simp_all add: initial_lazy_def)
  ultimately have r: "lazy_reachable ?s" by (blast intro: lazy_reachable.intros)
  have d: "lazy_pcs ?s 1 = CloseSecond" "once ?s = Done" "starts ?s = 0" by (simp_all add: initial_lazy_def)
  have "lazy_step 2 ?s (goto 2 GetOnce ?s)" by (rule lazy_step.get_call) (simp add: initial_lazy_def)
  then have st: "lazy_steps ?s (goto 2 GetOnce ?s)" by (blast intro: lazy_steps.intros)
  from lazy_starts_and_closes_once [OF r st] r d st show ?thesis by blast
qed

text \<open>
  C36. However goroutines interleave their closes of one value, from the first on, which finds the slot
  empty: the body runs at most once and in one goroutine, \<open>ensureCloseState\<close> excludes itself and
  gives every caller the same \<open>closeState\<close>, a call returns only after the body has ended, and
  all calls return the same error, the one that the body left.
\<close>

theorem concurrent_closes_run_the_body_once:
  assumes "close_reachable s"
  shows "bodies s \<le> 1 \<and>
    (\<forall>r \<in> set (results s). slot_once s = Done \<and> slot_ptr s \<noteq> None \<and> r = heap_err s (the (slot_ptr s))) \<and>
    (\<forall>t u. in_mutex (close_pcs s t) \<and> in_mutex (close_pcs s u) \<longrightarrow> t = u) \<and>
    (\<forall>t u a b. has_address (close_pcs s t) = Some a \<and> has_address (close_pcs s u) = Some b \<longrightarrow> a = b) \<and>
    (\<forall>t u a b. close_pcs s t = InBody a \<and> close_pcs s u = InBody b \<longrightarrow> t = u)"
  using close_inv_facts [OF close_reachable_inv [OF assms]] by blast

theorem concurrent_closes_run_the_body_once_witness:
  "\<exists>s e. close_reachable s \<and> results s = [Some e, Some e] \<and> bodies s = 1 \<and>
     (\<forall>r \<in> set (results s). r = heap_err s (the (slot_ptr s)))"
proof -
  let ?e = "Canceled"
  let ?s = "close_abs (Some \<lparr>once_done = True, close_err = Some ?e\<rparr>) 1 [Some ?e, Some ?e]"
  have "close_reachable ?s" by (rule closed_twice)
  from this concurrent_closes_run_the_body_once [OF this] show ?thesis by (intro exI [of _ ?s] exI [of _ ?e]) (simp add: close_abs_def)
qed

text \<open>
  C37. Every call of a lazy handle, and every close of a value, returns when start and body do: from any
  reachable state the calls in progress cannot take more than \<open>work\<close> steps, a number computed from
  where they are, and while one of them has not returned, one of them can take a step.  There is
  no deadlock between gets and closes, nor between the mutex and the \<open>sync.Once\<close> of a close.
\<close>

theorem concurrent_calls_return:
  assumes "lazy_reachable l" and "returning lazy_step lazy_pcs steps_left m l l'"
    and "close_reachable s" and "returning close_step close_pcs close_left n s s'"
  shows "m \<le> work lazy_pcs steps_left l \<and>
      ((\<exists>t. lazy_pcs l' t \<noteq> Away) \<longrightarrow> (\<exists>l''. returning lazy_step lazy_pcs steps_left (Suc m) l l'')) \<and>
    n \<le> work close_pcs close_left s \<and>
      ((\<exists>t. close_pcs s' t \<noteq> Idle) \<longrightarrow> (\<exists>s''. returning close_step close_pcs close_left (Suc n) s s''))"
  using lazy_calls.calls_return [OF assms(2,1)] close_calls.calls_return [OF assms(4,3)] by (auto simp: in_call_def)

theorem concurrent_calls_return_witness:
  "\<exists>l l'' s s''. lazy_reachable l \<and> lazy_pcs l 1 = GetOnce \<and> returning lazy_step lazy_pcs steps_left (Suc 0) l l'' \<and>
     close_reachable s \<and> close_pcs s 1 = Locking \<and> returning close_step close_pcs close_left (Suc 0) s s''"
proof -
  let ?l = "goto 1 GetOnce initial_lazy" and ?s = "move 1 Locking unclosed"
  have "lazy_step 1 initial_lazy ?l" by (rule lazy_step.get_call) (simp add: initial_lazy_def)
  then have l: "lazy_reachable ?l" by (blast intro: lazy_reachable.intros)
  have "close_step 1 unclosed ?s" by (rule close_step.call) (simp add: unclosed_def)
  then have s: "close_reachable ?s" by (blast intro: close_reachable.intros)
  have at: "lazy_pcs ?l 1 = GetOnce" "close_pcs ?s 1 = Locking" by simp_all
  with concurrent_calls_return [OF l returning.rest s returning.rest]
  have "\<exists>l''. returning lazy_step lazy_pcs steps_left (Suc 0) ?l l''" "\<exists>s''. returning close_step close_pcs close_left (Suc 0) ?s s''"
    by (metis lazy_pc.distinct(1), metis close_pc.distinct(1))
  with l s at show ?thesis by blast
qed

text \<open>
  C38. The methods of a lazy handle refine the steps of the concurrent model: a call that runs alone takes
  one goroutine through exactly the positions of the method, through the start when nothing has
  used \<open>once\<close> and through the close of the runtime when there is one to close, from the abstraction
  of the state before to that of the state after.  The two counters are those of the world, which
  the start function and the runtime's \<open>Close\<close> advance when they run, so a run that does not take
  place is not counted.  What the start gave is the runtime that the handle has, a get gives a
  runtime exactly when the abstract state has one, and a close returns what the runtime's gave.
\<close>

theorem lazy_methods_refine_the_steps:
  assumes "lazy_wf s" and "counts_calls start close n m"
  shows "(let (out, s') = result_of (lazy_get start msg s) w; w' = world_after (lazy_get start msg s) w
     in lazy_wf s' \<and> ((\<exists>r e. out = Returned (Some r) e) \<longleftrightarrow> started (lazy_abs s' (n w') (m w'))) \<and>
        lazy_path t (if lz_once s then [GetOnce, GetReading, Away] else [GetOnce, GetStarting, GetReading, Away])
          (lazy_abs s (n w) (m w)) (lazy_abs s' (n w') (m w')) \<and>
        (\<not> lz_once s \<longrightarrow> lz_runtime s' = (case result_of start w of Returned r e \<Rightarrow> r | Panicked v \<Rightarrow> None))) \<and>
   (let (err, s') = result_of (lazy_close close s) w; w' = world_after (lazy_close close s) w
     in lazy_wf s' \<and>
        lazy_path t (if \<not> lz_closeOnce s \<and> lz_runtime s \<noteq> None then [CloseFirst, CloseSecond, CloseRunning, CloseReturning, Away]
          else [CloseFirst, CloseSecond, CloseReturning, Away])
          (lazy_abs s (n w) (m w)) (lazy_abs s' (n w') (m w')) \<and>
        (\<forall>r. \<not> lz_closeOnce s \<and> lz_runtime s = Some r \<longrightarrow> err = fst (result_of (close r) w)))"
  using lazy_get_counted [OF assms, of msg w t] lazy_close_counted [OF assms, of w t] lazy_get_runtime [OF assms(1), of start msg w]
    lazy_get_result [of start msg s w] lazy_result_started [of "snd (result_of (lazy_get start msg s) w)" msg]
    lazy_close_error [of s _ close w]
  by (simp add: Let_def split_beta)

theorem lazy_methods_refine_the_steps_witness:
  "\<exists>s. lazy_path 1 [GetOnce, GetStarting, GetReading, Away] initial_lazy s \<and> started s \<and> starts s = 1"
proof -
  let ?start = "do { _ \<leftarrow> invoke sampleEnv (RunEmulatorContainer Caller [] []); State_Monad.return (Returned (Some (5::nat)) None) }"
  let ?close = "\<lambda>r. do { err \<leftarrow> invoke sampleEnv (TerminateContainer newCloseContext sampleContainer); State_Monad.return (err, r) }"
  let ?n = "\<lambda>w. length (filter (\<lambda>e. kind_of (fst e) = StartCall) (trace w))"
  let ?m = "\<lambda>w. length (filter (\<lambda>e. kind_of (fst e) = StopCall) (trace w))"
  have counts: "counts_calls ?start ?close ?n ?m" by (simp add: counts_calls_def world_after_bind)
  let ?get = "lazy_get ?start [] zeroLazyState"
  have "lz_once (zeroLazyState :: nat lazyRuntimeState) = False" "lz_runtime (snd (result_of ?get sampleWorld)) = Some 5"
    "?n sampleWorld = 0" "?m sampleWorld = 0" "?n (world_after ?get sampleWorld) = 1"
    by code_simp+
  with lazy_methods_refine_the_steps [OF lazy_abs_zero(2) counts, of "[]" sampleWorld 1] show ?thesis
    by (intro exI [of _ "lazy_abs (snd (result_of ?get sampleWorld)) (?n (world_after ?get sampleWorld)) (?m (world_after ?get sampleWorld))"])
      (simp add: Let_def split_beta lazy_abs_zero(1))
qed

text \<open>
  C39. A close that runs alone refines the steps of the concurrent model: it takes one goroutine through
  the mutex, under which it fills the slot when the slot is empty, and through the body exactly
  when \<open>once\<close> is unused, to the abstraction of the slot it leaves, and adds the error it returns to the
  results.  The runs of the body are counted by the world, which the body advances when it runs.
  The error is the one that the body returned, or else the one that the slot keeps, and nothing else
  happens.  An untouched value is the start of the concurrent model.
\<close>

theorem close_refines_the_steps:
  assumes "runs (world_after body w) = Suc (runs w)"
  shows "(let (e, slot', nested') = result_of (close_slot slot body nested) w; w' = world_after (close_slot slot body nested) w
    in close_path t (ensuring slot @ calling slot) (close_abs slot (runs w) rs) (close_abs slot' (runs w') (e # rs)) \<and>
       (if is_open slot then (e, nested') = result_of body w \<and> w' = world_after body w else close_err (the slot) = e \<and> w' = w)) \<and>
   close_abs None 0 [] = unclosed"
  by (rule conjI [OF close_slot_counted [OF assms] close_abs_None])

theorem close_refines_the_steps_witness:
  "\<exists>s. close_path 1 [Locking, Testing, Storing, Loading, Unlocking 0, AtOnce 0, InBody 0, Reading 0, Idle] unclosed s \<and>
     bodies s = 1 \<and> results s = [Some (External 7)]"
proof -
  let ?E = "failingEnv (\<lambda>c. True)" and ?call = "TerminateContainer newCloseContext sampleContainer"
  let ?body = "do { err \<leftarrow> invoke ?E ?call; State_Monad.return (err, ()) }"
  let ?runs = "\<lambda>w. length (filter (\<lambda>e. kind_of (fst e) = StopCall) (trace w))"
  have runs: "?runs (world_after ?body sampleWorld) = Suc (?runs sampleWorld)" by (simp add: world_after_bind)
  let ?r = "result_of (close_slot None ?body ()) sampleWorld" and ?w = "world_after (close_slot None ?body ()) sampleWorld"
  have "fst ?r = Some (External 7)" "?runs ?w = 1" "?runs sampleWorld = 0"
    "ensuring None @ calling None = [Locking, Testing, Storing, Loading, Unlocking 0, AtOnce 0, InBody 0, Reading 0, Idle]"
    by code_simp+
  with close_refines_the_steps [OF runs, where slot = None and nested = "()" and t = 1 and rs = "[]"] show ?thesis
    by (intro exI [of _ "close_abs (fst (snd ?r)) 1 [Some (External 7)]"]) (simp add: Let_def split_beta close_abs_None, simp add: close_abs_def)
qed

section \<open>Properties: tests\<close>

text \<open>
  C40. \<open>TestMain\<close> leaves no container behind: whatever sequence of gets, openings of clients, queries and
  closes the tests make of a lazy handle, with whatever answers, the termination of exactly as many
  containers has been called for when it exits as the container library gave, with an error or
  without one; and the exit code is that of the tests, or 1 when they passed and the close failed.
\<close>

theorem test_main_leaves_no_container:
  "ensures (LazyRuntime_TestMain E (tests_using (LazyRuntime_use E) us code)
       ((NewLazyRuntime backend options)\<lparr>lr_attachedEndpoint := endpoint\<rparr>))
     (\<lambda>r es. started_containers es = stopped_containers es \<and> (r = code \<or> code = 0 \<and> r = 1)) \<and>
   ensures (LazyEmulator_TestMain E (tests_using (LazyEmulator_use E) us code) (NewLazyEmulator options))
     (\<lambda>r es. started_containers es = stopped_containers es \<and> (r = code \<or> code = 0 \<and> r = 1))"
proof -
  have lr: "lazy_holds (lr_state ((NewLazyRuntime backend options)\<lparr>lr_attachedEndpoint := endpoint\<rparr>))"
    "lazy_owes (lr_state ((NewLazyRuntime backend options)\<lparr>lr_attachedEndpoint := endpoint\<rparr>)) = 0"
    by (simp_all add: NewLazyRuntime_def)
  have le: "lazy_holds (le_state (NewLazyEmulator options))" "lazy_owes (le_state (NewLazyEmulator options)) = 0"
    by (simp_all add: NewLazyEmulator_def)
  show ?thesis
    unfolding LazyRuntime_TestMain_def LazyEmulator_TestMain_def LazyRuntime_use_def LazyEmulator_use_def
    using lazy_runtime_handle.main_settles [OF lr(1), of E us code] lazy_emulator_handle.main_settles [OF le(1), of E us code]
    by (simp only: lr le add_0_right simp_thms)
qed

end
